theory Spec2Isabelle
  imports Main "HOL-Library.Word" "HOL-Library.Signed_Division"
begin

section \<open>Shard arithmetic\<close>

text \<open>
  Go's \<open>int64\<close> is a 64-bit word read in two's complement: \<open>+\<close>, \<open>-\<close> and \<open>*\<close> wrap around,
  comparisons are signed (\<open>\<le>s\<close>), and \<open>/\<close> truncates towards zero.
\<close>

type_synonym int64 = "64 word"

definition int64_quo :: "int64 \<Rightarrow> int64 \<Rightarrow> int64" where
  "int64_quo a b = word_of_int (sint a sdiv sint b)"

definition defaultStartShardID :: int64 where
  "defaultStartShardID = 1"

definition defaultTreeShardSize :: int64 where
  "defaultTreeShardSize = 500000"

definition ToShardID :: "int64 \<Rightarrow> int64" where
  "ToShardID version =
     (if version \<le>s 0 then defaultStartShardID
      else int64_quo (version - 1) defaultTreeShardSize + defaultStartShardID)"

text \<open>
  The loop \<open>for shardID := minShard; shardID <= maxShard; shardID++\<close> with the slice it
  appends to. Nothing in the loop bounds \<open>shardID\<close>, so it is a partial function: \<open>None\<close> is
  a loop that does not end.
\<close>

partial_function (option) shard_loop :: "int64 \<Rightarrow> int64 \<Rightarrow> int64 list \<Rightarrow> int64 list option" where
  "shard_loop shardID maxShard shards =
     (if shardID \<le>s maxShard then shard_loop (shardID + 1) maxShard (shards @ [shardID])
      else Some shards)"

declare shard_loop.simps [code]

definition calculateShardRange :: "int64 \<Rightarrow> int64 \<Rightarrow> int64 list option" where
  "calculateShardRange minVersion maxVersion =
     (if minVersion \<le>s 0 \<or> maxVersion \<le>s 0 then Some [1]
      else shard_loop (ToShardID minVersion) (ToShardID maxVersion) [])"

text \<open>
  The version window of a shard in migrateTree, \<open>startVersion\<close> and \<open>endVersion\<close>, computed in
  \<open>int64\<close>, and the predicate \<open>version >= startVersion AND version <= endVersion\<close> of its copy
  statement.
\<close>

definition startVersion :: "int64 \<Rightarrow> int64" where
  "startVersion shardID = (shardID - 1) * 500000 + 1"

definition endVersion :: "int64 \<Rightarrow> int64" where
  "endVersion shardID = shardID * 500000"

definition in_window :: "int64 \<Rightarrow> int64 \<Rightarrow> bool" where
  "in_window shardID v \<longleftrightarrow> startVersion shardID \<le>s v \<and> v \<le>s endVersion shardID"

section \<open>Tables of the tree store\<close>

text \<open>
  A table is the list of its rows in rowid order. Integer columns hold a 64-bit
  integer or NULL (\<open>None\<close>); blob columns hold a byte string.
\<close>

type_synonym bytes = "8 word list"

record branch_row =
  branch_version :: "int64 option"
  branch_sequence :: "int64 option"
  branch_bytes :: bytes
  branch_orphaned :: "bool option"

record root_row =
  root_version :: "int64 option"
  root_node_version :: "int64 option"
  root_node_sequence :: "int64 option"
  root_bytes :: bytes

record orphan_row =
  orphan_version :: "int64 option"
  orphan_sequence :: "int64 option"
  orphan_at :: "int64 option"

text \<open>The source file: \<open>None\<close> is a table that does not exist.\<close>

record tree_src =
  src_tree_1 :: "branch_row list option"
  src_root :: "root_row list option"
  src_orphan :: "orphan_row list option"

datatype table_name = T_branch_orphan | T_root | T_tree int64

datatype stmt =
    Create_Table table_name
  | Attach_Old
  | Insert_Root
  | Insert_Branch_Orphan
  | Insert_Shard int64
  | Detach_Old

text \<open>
  The destination file: its tables, whether the source is attached as \<open>old\<close>, and the
  statements sent to it through \<open>exec\<close>, in order.
\<close>

record tree_dst =
  dst_root :: "root_row list option"
  dst_branch_orphan :: "orphan_row list option"
  dst_shards :: "(int64 \<times> branch_row list) list"
  dst_attached :: bool
  dst_executed :: "stmt list"

definition new_tree_db :: tree_dst where
  "new_tree_db = \<lparr>dst_root = None, dst_branch_orphan = None, dst_shards = [],
     dst_attached = False, dst_executed = []\<rparr>"

subsection \<open>The SQL statements\<close>

text \<open>
  The target tables are \<open>WITHOUT ROWID\<close> tables with a primary key: an insert fails as a
  whole when a key column of a new row is NULL or when two rows would share a key.
\<close>

definition pk_insert :: "('r \<Rightarrow> 'k option) \<Rightarrow> 'r list \<Rightarrow> 'r list \<Rightarrow> 'r list option" where
  "pk_insert key tbl new =
     (if list_all (\<lambda>r. key r \<noteq> None) new \<and> distinct (map key (tbl @ new))
      then Some (tbl @ new) else None)"

definition root_key :: "root_row \<Rightarrow> int64 option" where
  "root_key r = root_version r"

definition orphan_key :: "orphan_row \<Rightarrow> (int64 \<times> int64 \<times> int64) option" where
  "orphan_key r =
     (case (orphan_at r, orphan_version r, orphan_sequence r) of
        (Some a, Some v, Some s) \<Rightarrow> Some (a, v, s)
      | _ \<Rightarrow> None)"

definition branch_key :: "branch_row \<Rightarrow> (int64 \<times> int64) option" where
  "branch_key r =
     (case (branch_version r, branch_sequence r) of
        (Some v, Some s) \<Rightarrow> Some (v, s)
      | _ \<Rightarrow> None)"

text \<open>\<open>PARTITION BY version, sequence\<close>: NULLs fall into one partition.\<close>

definition row_key :: "branch_row \<Rightarrow> int64 option \<times> int64 option" where
  "row_key r = (branch_version r, branch_sequence r)"

text \<open>
  \<open>ROW_NUMBER() OVER (PARTITION BY version, sequence ORDER BY rowid) = 1\<close>: a row is
  kept when no earlier row has its key.
\<close>

fun first_in_partition ::
  "(int64 option \<times> int64 option) list \<Rightarrow> branch_row list \<Rightarrow> branch_row list" where
  "first_in_partition seen [] = []"
| "first_in_partition seen (r # rs) =
     (if row_key r \<in> set seen then first_in_partition seen rs
      else r # first_in_partition (row_key r # seen) rs)"

text \<open>\<open>WHERE version >= lo AND version <= hi\<close>: a NULL version never passes.\<close>

definition version_between :: "int64 \<Rightarrow> int64 \<Rightarrow> branch_row \<Rightarrow> bool" where
  "version_between lo hi r =
     (case branch_version r of None \<Rightarrow> False | Some v \<Rightarrow> lo \<le>s v \<and> v \<le>s hi)"

definition shard_select :: "int64 \<Rightarrow> branch_row list \<Rightarrow> branch_row list" where
  "shard_select shardID rows =
     first_in_partition []
       (filter (version_between (startVersion shardID) (endVersion shardID)) rows)"

definition set_shard :: "int64 \<Rightarrow> branch_row list \<Rightarrow> (int64 \<times> branch_row list) list
    \<Rightarrow> (int64 \<times> branch_row list) list" where
  "set_shard i t shards = map (\<lambda>(j, u). if j = i then (j, t) else (j, u)) shards"

fun run_stmt :: "tree_src \<Rightarrow> stmt \<Rightarrow> tree_dst \<Rightarrow> tree_dst option" where
  "run_stmt src (Create_Table T_branch_orphan) d =
     (case dst_branch_orphan d of
        None \<Rightarrow> Some (d\<lparr>dst_branch_orphan := Some []\<rparr>)
      | Some _ \<Rightarrow> None)"
| "run_stmt src (Create_Table T_root) d =
     (case dst_root d of
        None \<Rightarrow> Some (d\<lparr>dst_root := Some []\<rparr>)
      | Some _ \<Rightarrow> None)"
| "run_stmt src (Create_Table (T_tree i)) d =
     (case map_of (dst_shards d) i of
        None \<Rightarrow> Some (d\<lparr>dst_shards := dst_shards d @ [(i, [])]\<rparr>)
      | Some _ \<Rightarrow> None)"
| "run_stmt src Attach_Old d =
     (if dst_attached d then None else Some (d\<lparr>dst_attached := True\<rparr>))"
| "run_stmt src Insert_Root d =
     (if \<not> dst_attached d then None
      else case (src_root src, dst_root d) of
        (Some rows, Some tbl) \<Rightarrow>
          (case pk_insert root_key tbl rows of
             Some t \<Rightarrow> Some (d\<lparr>dst_root := Some t\<rparr>)
           | None \<Rightarrow> None)
      | _ \<Rightarrow> None)"
| "run_stmt src Insert_Branch_Orphan d =
     (if \<not> dst_attached d then None
      else case (src_orphan src, dst_branch_orphan d) of
        (Some rows, Some tbl) \<Rightarrow>
          (case pk_insert orphan_key tbl rows of
             Some t \<Rightarrow> Some (d\<lparr>dst_branch_orphan := Some t\<rparr>)
           | None \<Rightarrow> None)
      | _ \<Rightarrow> None)"
| "run_stmt src (Insert_Shard i) d =
     (if \<not> dst_attached d then None
      else case (src_tree_1 src, map_of (dst_shards d) i) of
        (Some rows, Some tbl) \<Rightarrow>
          (case pk_insert branch_key tbl (shard_select i rows) of
             Some t \<Rightarrow> Some (d\<lparr>dst_shards := set_shard i t (dst_shards d)\<rparr>)
           | None \<Rightarrow> None)
      | _ \<Rightarrow> None)"
| "run_stmt src Detach_Old d =
     (if dst_attached d then Some (d\<lparr>dst_attached := False\<rparr>) else None)"

subsection \<open>Queries on the source\<close>

fun non_null :: "'a option list \<Rightarrow> 'a list" where
  "non_null [] = []"
| "non_null (None # xs) = non_null xs"
| "non_null (Some x # xs) = x # non_null xs"

fun sql_min :: "int64 list \<Rightarrow> int64 option" where
  "sql_min [] = None"
| "sql_min (x # xs) =
     (case sql_min xs of None \<Rightarrow> Some x | Some m \<Rightarrow> Some (if x \<le>s m then x else m))"

fun sql_max :: "int64 list \<Rightarrow> int64 option" where
  "sql_max [] = None"
| "sql_max (x # xs) =
     (case sql_max xs of None \<Rightarrow> Some x | Some m \<Rightarrow> Some (if m \<le>s x then x else m))"

text \<open>
  What can fail for a reason outside the two files (disk, permissions, locks) is an input:
  the predicate \<open>fails\<close> says which operations do. \<open>sql.Open\<close> only records the path and is
  not among them.
\<close>

datatype tree_op = Op_MkdirAll | Op_Exec stmt | Op_Count_Tree | Op_Count_Root | Op_Version_Range

text \<open>The run in which no such operation fails.\<close>

definition no_failure :: "'op \<Rightarrow> bool" where
  "no_failure op = False"

text \<open>The run in which one operation fails and no other.\<close>

definition fails_only :: "'op \<Rightarrow> 'op \<Rightarrow> bool" where
  "fails_only x op \<longleftrightarrow> op = x"

definition count_rows :: "(tree_op \<Rightarrow> bool) \<Rightarrow> tree_op \<Rightarrow> 'r list option \<Rightarrow> nat option" where
  "count_rows fails op tbl =
     (if fails op then None else case tbl of None \<Rightarrow> None | Some rows \<Rightarrow> Some (length rows))"

text \<open>
  \<open>SELECT MIN(version), MAX(version) FROM tree_1 WHERE version IS NOT NULL\<close>: an aggregate
  query returns one row also for no input row, with both values NULL, so the scan never
  meets \<open>sql.ErrNoRows\<close>.
\<close>

definition version_range ::
  "(tree_op \<Rightarrow> bool) \<Rightarrow> tree_src \<Rightarrow> (int64 option \<times> int64 option) option" where
  "version_range fails src =
     (if fails Op_Version_Range then None
      else case src_tree_1 src of
        None \<Rightarrow> None
      | Some rows \<Rightarrow>
          (let vs = non_null (map branch_version rows) in Some (sql_min vs, sql_max vs)))"

section \<open>migrateTree\<close>

datatype outcome = Success | Returned_Error string | Process_Fatal stmt | Does_Not_Return

datatype exec_result = Fatal stmt tree_dst | Continue tree_dst

text \<open>The closure \<open>exec\<close>: a failing statement ends the process (\<open>log.Fatalf\<close>).\<close>

definition exec :: "(tree_op \<Rightarrow> bool) \<Rightarrow> tree_src \<Rightarrow> stmt \<Rightarrow> tree_dst \<Rightarrow> exec_result" where
  "exec fails src s d =
     (let d' = d\<lparr>dst_executed := dst_executed d @ [s]\<rparr> in
      if fails (Op_Exec s) then Fatal s d'
      else case run_stmt src s d' of None \<Rightarrow> Fatal s d' | Some d'' \<Rightarrow> Continue d'')"

fun create_shard_tables ::
  "(tree_op \<Rightarrow> bool) \<Rightarrow> tree_src \<Rightarrow> int64 list \<Rightarrow> tree_dst \<Rightarrow> exec_result" where
  "create_shard_tables fails src [] d = Continue d"
| "create_shard_tables fails src (shardID # shardIDs) d =
     (case exec fails src (Create_Table (T_tree shardID)) d of
        Fatal s d' \<Rightarrow> Fatal s d'
      | Continue d' \<Rightarrow> create_shard_tables fails src shardIDs d')"

fun migrate_shards ::
  "(tree_op \<Rightarrow> bool) \<Rightarrow> tree_src \<Rightarrow> int64 list \<Rightarrow> tree_dst \<Rightarrow> exec_result" where
  "migrate_shards fails src [] d = Continue d"
| "migrate_shards fails src (shardID # shardIDs) d =
     (case exec fails src (Insert_Shard shardID) d of
        Fatal s d' \<Rightarrow> Fatal s d'
      | Continue d' \<Rightarrow> migrate_shards fails src shardIDs d')"

definition detach_and_return :: "(tree_op \<Rightarrow> bool) \<Rightarrow> tree_src \<Rightarrow> tree_dst \<Rightarrow> outcome \<times> tree_dst" where
  "detach_and_return fails src d =
     (case exec fails src Detach_Old d of
        Fatal s d' \<Rightarrow> (Process_Fatal s, d')
      | Continue d' \<Rightarrow> (Success, d'))"

text \<open>The block \<open>if count > 0 { ... }\<close> up to the final DETACH.\<close>

definition migrate_tree_1 :: "(tree_op \<Rightarrow> bool) \<Rightarrow> tree_src \<Rightarrow> tree_dst \<Rightarrow> outcome \<times> tree_dst" where
  "migrate_tree_1 fails src d =
     (case version_range fails src of
        None \<Rightarrow> (Returned_Error ''failed to query version range from tree_1'', d)
      | Some (Some minVersion, Some maxVersion) \<Rightarrow>
          (case calculateShardRange minVersion maxVersion of
             None \<Rightarrow> (Does_Not_Return, d)
           | Some shardIDs \<Rightarrow>
               (case create_shard_tables fails src shardIDs d of
                  Fatal s d' \<Rightarrow> (Process_Fatal s, d')
                | Continue d' \<Rightarrow>
                    (case migrate_shards fails src shardIDs d' of
                       Fatal s d'' \<Rightarrow> (Process_Fatal s, d'')
                     | Continue d'' \<Rightarrow> detach_and_return fails src d'')))
      | Some _ \<Rightarrow> detach_and_return fails src d)"

text \<open>From the two row counts on.\<close>

definition migrate_tables ::
  "(tree_op \<Rightarrow> bool) \<Rightarrow> tree_src \<Rightarrow> nat \<Rightarrow> nat \<Rightarrow> tree_dst \<Rightarrow> outcome \<times> tree_dst" where
  "migrate_tables fails src count rootCount d =
     (if count = 0 \<and> rootCount = 0 then detach_and_return fails src d
      else
        case (if rootCount > 0 then exec fails src Insert_Root d else Continue d) of
          Fatal s d' \<Rightarrow> (Process_Fatal s, d')
        | Continue d' \<Rightarrow>
            (case exec fails src Insert_Branch_Orphan d' of
               Fatal s d'' \<Rightarrow> (Process_Fatal s, d'')
             | Continue d'' \<Rightarrow>
                 if count > 0 then migrate_tree_1 fails src d''
                 else detach_and_return fails src d''))"

definition migrateTree :: "(tree_op \<Rightarrow> bool) \<Rightarrow> tree_src \<Rightarrow> outcome \<times> tree_dst" where
  "migrateTree fails src =
     (if fails Op_MkdirAll then (Returned_Error ''mkdir'', new_tree_db)
      else
        case exec fails src (Create_Table T_branch_orphan) new_tree_db of
          Fatal s d \<Rightarrow> (Process_Fatal s, d)
        | Continue d1 \<Rightarrow>
            (case exec fails src (Create_Table T_root) d1 of
               Fatal s d \<Rightarrow> (Process_Fatal s, d)
             | Continue d2 \<Rightarrow>
                 (case exec fails src Attach_Old d2 of
                    Fatal s d \<Rightarrow> (Process_Fatal s, d)
                  | Continue d3 \<Rightarrow>
                      (case count_rows fails Op_Count_Tree (src_tree_1 src) of
                         None \<Rightarrow> (Returned_Error ''failed to count rows in tree_1'', d3)
                       | Some count \<Rightarrow>
                           (case count_rows fails Op_Count_Root (src_root src) of
                              None \<Rightarrow> (Returned_Error ''failed to count rows in root'', d3)
                            | Some rootCount \<Rightarrow>
                                migrate_tables fails src count rootCount d3)))))"

text \<open>
  The shard tables a run leaves when it reaches the final DETACH: one table for each
  identifier of the range between the least and the greatest non-NULL version, holding
  what its copy statement selects; no table when no row has a version.
\<close>

definition copied_shards :: "branch_row list \<Rightarrow> (int64 \<times> branch_row list) list" where
  "copied_shards rows =
     (let vs = non_null (map branch_version rows) in
      case (sql_min vs, sql_max vs) of
        (Some minVersion, Some maxVersion) \<Rightarrow>
          (case calculateShardRange minVersion maxVersion of
             None \<Rightarrow> []
           | Some shardIDs \<Rightarrow> map (\<lambda>i. (i, shard_select i rows)) shardIDs)
      | _ \<Rightarrow> [])"

text \<open>
  The statements of a log run in order, each on the state the one before it left; \<open>None\<close>
  when one of them fails. A destination is as logged when its log, run on the new
  database, succeeds and gives it. A run ended at a statement when that statement is the
  last of the log, the statements before it succeeded, and it failed on the state they
  left, which is the destination but for the log.
\<close>

fun run_all :: "(tree_op \<Rightarrow> bool) \<Rightarrow> tree_src \<Rightarrow> stmt list \<Rightarrow> tree_dst \<Rightarrow> tree_dst option" where
  "run_all fails src [] d = Some d"
| "run_all fails src (s # ss) d =
     (if fails (Op_Exec s) then None
      else case run_stmt src s (d\<lparr>dst_executed := dst_executed d @ [s]\<rparr>) of
        None \<Rightarrow> None
      | Some d' \<Rightarrow> run_all fails src ss d')"

definition as_logged :: "(tree_op \<Rightarrow> bool) \<Rightarrow> tree_src \<Rightarrow> tree_dst \<Rightarrow> bool" where
  "as_logged fails src d \<longleftrightarrow> run_all fails src (dst_executed d) new_tree_db = Some d"

definition ended_at :: "(tree_op \<Rightarrow> bool) \<Rightarrow> tree_src \<Rightarrow> stmt \<Rightarrow> tree_dst \<Rightarrow> bool" where
  "ended_at fails src s d' \<longleftrightarrow>
     (case run_all fails src (butlast (dst_executed d')) new_tree_db of
        None \<Rightarrow> False
      | Some d \<Rightarrow>
          dst_executed d' = dst_executed d @ [s]
          \<and> d' = d\<lparr>dst_executed := dst_executed d @ [s]\<rparr>
          \<and> (fails (Op_Exec s)
               \<or> run_stmt src s (d\<lparr>dst_executed := dst_executed d @ [s]\<rparr>) = None))"

section \<open>Tables of the changelog store\<close>

record leaf_row =
  leaf_version :: "int64 option"
  leaf_sequence :: "int64 option"
  leaf_key :: bytes
  leaf_bytes :: bytes
  leaf_orphaned :: "bool option"

record changelog_src =
  src_leaf :: "leaf_row list option"
  src_leaf_orphan :: "orphan_row list option"

text \<open>A row of the target table \<open>leaf\<close>; the insert binds no value to \<open>orphaned\<close>.\<close>

record new_leaf_row =
  new_leaf_version :: int64
  new_leaf_sequence :: int64
  new_leaf_key_hash :: bytes
  new_leaf_bytes :: bytes
  new_leaf_orphaned :: "bool option"

record changelog_tables =
  tbl_leaf :: "new_leaf_row list option"
  tbl_leaf_idx :: bool
  tbl_leaf_orphan :: "orphan_row list option"

definition no_tables :: changelog_tables where
  "no_tables = \<lparr>tbl_leaf = None, tbl_leaf_idx = False, tbl_leaf_orphan = None\<rparr>"

datatype tx_status = No_Tx | Tx_Open | Tx_Committed | Tx_Rolled_Back

datatype changelog_op =
    Cl_MkdirAll
  | Cl_Begin
  | Cl_Create_Leaf
  | Cl_Create_Leaf_Idx
  | Cl_Create_Leaf_Orphan
  | Cl_Query
  | Cl_Prepare
  | Cl_Next nat
  | Cl_Scan nat
  | Cl_Insert nat
  | Cl_Attach
  | Cl_Copy_Leaf_Orphan
  | Cl_Commit
  | Cl_Detach

text \<open>
  The destination: what is committed (visible to a reader of the file), what the open
  transaction has written, the state of the transaction, whether the source is attached,
  and the operations the call attempted, in order.
\<close>

record changelog_dst =
  cl_committed :: changelog_tables
  cl_pending :: changelog_tables
  cl_tx :: tx_status
  cl_attached :: bool
  cl_ops :: "changelog_op list"

definition new_changelog_db :: changelog_dst where
  "new_changelog_db = \<lparr>cl_committed = no_tables, cl_pending = no_tables, cl_tx = No_Tx,
     cl_attached = False, cl_ops = []\<rparr>"

definition attempt :: "changelog_op \<Rightarrow> changelog_dst \<Rightarrow> changelog_dst" where
  "attempt op d = d\<lparr>cl_ops := cl_ops d @ [op]\<rparr>"

subsection \<open>The pooled hash\<close>

text \<open>
  The hash comes from a pool of a library outside this repository: \<open>digest\<close> is the
  function it computes, and a hasher is the bytes written to it since its last reset.
  The pool hands out a hasher in any state.
\<close>

type_synonym hasher = bytes

definition hash_Reset :: "hasher \<Rightarrow> hasher" where
  "hash_Reset h = []"

definition hash_Write :: "hasher \<Rightarrow> bytes \<Rightarrow> hasher" where
  "hash_Write h p = h @ p"

definition hash_Sum :: "(bytes \<Rightarrow> bytes) \<Rightarrow> hasher \<Rightarrow> bytes \<Rightarrow> bytes" where
  "hash_Sum digest h b = b @ digest h"

subsection \<open>The steps of migrateChangelog\<close>

text \<open>\<open>rows.Scan\<close> into two \<open>int\<close>s and two byte slices: a NULL integer is an error.\<close>

definition scan_leaf :: "leaf_row \<Rightarrow> (int64 \<times> int64 \<times> bytes \<times> bytes) option" where
  "scan_leaf r =
     (case (leaf_version r, leaf_sequence r) of
        (Some version, Some sequence) \<Rightarrow> Some (version, sequence, leaf_key r, leaf_bytes r)
      | _ \<Rightarrow> None)"

text \<open>
  The insert into \<open>leaf\<close>: primary key \<open>(key_hash, version)\<close> and the unique index on
  \<open>(version, sequence)\<close>.
\<close>

definition leaf_conflict :: "new_leaf_row \<Rightarrow> new_leaf_row \<Rightarrow> bool" where
  "leaf_conflict a b \<longleftrightarrow>
     (new_leaf_key_hash a = new_leaf_key_hash b \<and> new_leaf_version a = new_leaf_version b)
     \<or> (new_leaf_version a = new_leaf_version b \<and> new_leaf_sequence a = new_leaf_sequence b)"

definition insert_leaf :: "new_leaf_row \<Rightarrow> changelog_tables \<Rightarrow> changelog_tables option" where
  "insert_leaf r t =
     (case tbl_leaf t of
        None \<Rightarrow> None
      | Some rows \<Rightarrow>
          if list_ex (leaf_conflict r) rows then None
          else Some (t\<lparr>tbl_leaf := Some (rows @ [r])\<rparr>))"

text \<open>
  The loop \<open>for rows.Next()\<close>, at row \<open>n\<close>. \<open>rows.Next()\<close> is false at the end of the
  rows and also when fetching the next row fails; the code never reads \<open>rows.Err()\<close>, so
  both end the loop in the same way.
\<close>

fun leaf_loop ::
  "(changelog_op \<Rightarrow> bool) \<Rightarrow> (bytes \<Rightarrow> bytes) \<Rightarrow> hasher \<Rightarrow> nat \<Rightarrow> leaf_row list
     \<Rightarrow> changelog_dst \<Rightarrow> string option \<times> changelog_dst" where
  "leaf_loop fails digest h n [] d = (None, d)"
| "leaf_loop fails digest h n (r # rs) d =
     (if fails (Cl_Next n) then (None, attempt (Cl_Next n) d)
      else
        case (if fails (Cl_Scan n) then None else scan_leaf r) of
          None \<Rightarrow> (Some ''scan leaf row'', attempt (Cl_Scan n) (attempt (Cl_Next n) d))
        | Some (version, sequence, key, value) \<Rightarrow>
            (let h1 = hash_Write (hash_Reset h) key;
                 keyHash = hash_Sum digest h1 [];
                 row = \<lparr>new_leaf_version = version, new_leaf_sequence = sequence,
                         new_leaf_key_hash = keyHash, new_leaf_bytes = value,
                         new_leaf_orphaned = None\<rparr>;
                 d1 = attempt (Cl_Insert n) (attempt (Cl_Scan n) (attempt (Cl_Next n) d))
             in case (if fails (Cl_Insert n) then None else insert_leaf row (cl_pending d1)) of
                  None \<Rightarrow> (Some ''insert leaf row'', d1)
                | Some t \<Rightarrow> leaf_loop fails digest h1 (Suc n) rs (d1\<lparr>cl_pending := t\<rparr>)))"

definition create_leaf :: "changelog_tables \<Rightarrow> changelog_tables option" where
  "create_leaf t = (case tbl_leaf t of None \<Rightarrow> Some (t\<lparr>tbl_leaf := Some []\<rparr>) | Some _ \<Rightarrow> None)"

definition create_leaf_idx :: "changelog_tables \<Rightarrow> changelog_tables option" where
  "create_leaf_idx t = (case tbl_leaf t of None \<Rightarrow> None | Some _ \<Rightarrow> Some (t\<lparr>tbl_leaf_idx := True\<rparr>))"

definition create_leaf_orphan :: "changelog_tables \<Rightarrow> changelog_tables option" where
  "create_leaf_orphan t =
     (case tbl_leaf_orphan t of None \<Rightarrow> Some (t\<lparr>tbl_leaf_orphan := Some []\<rparr>) | Some _ \<Rightarrow> None)"

definition copy_leaf_orphan :: "changelog_src \<Rightarrow> changelog_tables \<Rightarrow> changelog_tables option" where
  "copy_leaf_orphan src t =
     (case (src_leaf_orphan src, tbl_leaf_orphan t) of
        (Some rows, Some tbl) \<Rightarrow>
          (case pk_insert orphan_key tbl rows of
             Some u \<Rightarrow> Some (t\<lparr>tbl_leaf_orphan := Some u\<rparr>)
           | None \<Rightarrow> None)
      | _ \<Rightarrow> None)"

text \<open>\<open>tx.Exec\<close>: a statement inside the transaction writes to the pending tables.\<close>

definition tx_exec ::
  "(changelog_op \<Rightarrow> bool) \<Rightarrow> changelog_op \<Rightarrow> (changelog_tables \<Rightarrow> changelog_tables option)
     \<Rightarrow> changelog_dst \<Rightarrow> changelog_dst + changelog_dst" where
  "tx_exec fails op f d =
     (let d' = attempt op d in
      if fails op then Inl d'
      else case f (cl_pending d') of None \<Rightarrow> Inl d' | Some t \<Rightarrow> Inr (d'\<lparr>cl_pending := t\<rparr>))"

section \<open>migrateChangelog\<close>

text \<open>From the commit on.\<close>

definition commit_and_detach :: "(changelog_op \<Rightarrow> bool) \<Rightarrow> changelog_dst \<Rightarrow> outcome \<times> changelog_dst" where
  "commit_and_detach fails d =
     (let d1 = attempt Cl_Commit d in
      if fails Cl_Commit then (Returned_Error ''commit'', d1)
      else
        let d2 = attempt Cl_Detach (d1\<lparr>cl_committed := cl_pending d1, cl_tx := Tx_Committed\<rparr>) in
        if fails Cl_Detach \<or> \<not> cl_attached d2
        then (Returned_Error ''failed to detach old database'', d2)
        else (Success, d2\<lparr>cl_attached := False\<rparr>))"

text \<open>From the query on the old table on.\<close>

definition copy_leaves ::
  "(changelog_op \<Rightarrow> bool) \<Rightarrow> (bytes \<Rightarrow> bytes) \<Rightarrow> hasher \<Rightarrow> changelog_src \<Rightarrow> changelog_dst
     \<Rightarrow> outcome \<times> changelog_dst" where
  "copy_leaves fails digest h src d =
     (case (if fails Cl_Query then None else src_leaf src) of
        None \<Rightarrow> (Returned_Error ''read old leaf'', attempt Cl_Query d)
      | Some rows \<Rightarrow>
          (let d2 = attempt Cl_Prepare (attempt Cl_Query d) in
           if fails Cl_Prepare then (Returned_Error ''prepare insert'', d2)
           else
             case leaf_loop fails digest h 0 rows d2 of
               (Some e, d3) \<Rightarrow> (Returned_Error e, d3)
             | (None, d3) \<Rightarrow>
                 (let d4 = attempt Cl_Attach d3 in
                  if fails Cl_Attach then (Returned_Error ''failed to attach old database'', d4)
                  else
                    case tx_exec fails Cl_Copy_Leaf_Orphan (copy_leaf_orphan src)
                           (d4\<lparr>cl_attached := True\<rparr>) of
                      Inl d5 \<Rightarrow> (Returned_Error ''migrate leaf_orphan'', d5)
                    | Inr d5 \<Rightarrow> commit_and_detach fails d5)))"

definition migrateChangelog ::
  "(changelog_op \<Rightarrow> bool) \<Rightarrow> (bytes \<Rightarrow> bytes) \<Rightarrow> hasher \<Rightarrow> changelog_src
     \<Rightarrow> outcome \<times> changelog_dst" where
  "migrateChangelog fails digest h src =
     (if fails Cl_MkdirAll then (Returned_Error ''mkdir'', attempt Cl_MkdirAll new_changelog_db)
      else
        let d0 = attempt Cl_Begin (attempt Cl_MkdirAll new_changelog_db) in
        if fails Cl_Begin then (Returned_Error ''begin'', d0)
        else
          case tx_exec fails Cl_Create_Leaf create_leaf (d0\<lparr>cl_tx := Tx_Open\<rparr>) of
            Inl d \<Rightarrow> (Returned_Error ''exec create leaf'', d)
          | Inr d1 \<Rightarrow>
              (case tx_exec fails Cl_Create_Leaf_Idx create_leaf_idx d1 of
                 Inl d \<Rightarrow> (Returned_Error ''exec create leaf_idx'', d)
               | Inr d2 \<Rightarrow>
                   (case tx_exec fails Cl_Create_Leaf_Orphan create_leaf_orphan d2 of
                      Inl d \<Rightarrow> (Returned_Error ''exec create leaf_orphan'', d)
                    | Inr d3 \<Rightarrow> copy_leaves fails digest h src d3)))"

section \<open>migrateStore\<close>

text \<open>
  \<open>filepath.Join\<close> and \<open>filepath.Clean\<close> of Go's standard library, as they are on Unix.
  \<open>Join\<close> drops the leading empty elements, joins the rest with the separator and cleans the
  result. \<open>Clean\<close> works on the elements between separators: an empty element and \<open>.\<close> are
  dropped, \<open>..\<close> removes the element before it (at the start of a rooted path it is dropped,
  at the start of another path it is kept), and the empty result is \<open>.\<close>.
\<close>

fun split_slash :: "string \<Rightarrow> string list" where
  "split_slash [] = [[]]"
| "split_slash (c # cs) =
     (if c = CHR ''/'' then [] # split_slash cs
      else case split_slash cs of [] \<Rightarrow> [[c]] | e # es \<Rightarrow> (c # e) # es)"

fun join_slash :: "string list \<Rightarrow> string" where
  "join_slash [] = []"
| "join_slash [e] = e"
| "join_slash (e # es) = e @ ''/'' @ join_slash es"

text \<open>The elements kept so far are in \<open>out\<close>, the last one first.\<close>

fun clean_elems :: "bool \<Rightarrow> string list \<Rightarrow> string list \<Rightarrow> string list" where
  "clean_elems rooted out [] = rev out"
| "clean_elems rooted out (e # es) =
     (if e = [] \<or> e = ''.'' then clean_elems rooted out es
      else if e = ''..'' then
        (case out of
           [] \<Rightarrow> if rooted then clean_elems rooted out es else clean_elems rooted (e # out) es
         | t # ts \<Rightarrow>
             if t = ''..'' then clean_elems rooted (e # out) es else clean_elems rooted ts es)
      else clean_elems rooted (e # out) es)"

definition Clean :: "string \<Rightarrow> string" where
  "Clean path =
     (case path of
        [] \<Rightarrow> ''.''
      | c # _ \<Rightarrow>
          (let rooted = (c = CHR ''/'');
               out = join_slash (clean_elems rooted [] (split_slash path))
           in if rooted then CHR ''/'' # out else if out = [] then ''.'' else out))"

definition Join :: "string list \<Rightarrow> string" where
  "Join elem =
     (case dropWhile (\<lambda>e. e = []) elem of
        [] \<Rightarrow> []
      | e # es \<Rightarrow> Clean (join_slash (e # es)))"

text \<open>The files below the old base directory, by path; \<open>os.Stat\<close> fails on a path with no file.\<close>

record old_files =
  tree_files :: "string \<rightharpoonup> tree_src"
  changelog_files :: "string \<rightharpoonup> changelog_src"

text \<open>What a call did: its result, and the run of each migration that was started.\<close>

record store_run =
  store_outcome :: outcome
  tree_run :: "(outcome \<times> tree_dst) option"
  changelog_run :: "(outcome \<times> changelog_dst) option"

definition migrateStore ::
  "(tree_op \<Rightarrow> bool) \<Rightarrow> (changelog_op \<Rightarrow> bool) \<Rightarrow> (bytes \<Rightarrow> bytes) \<Rightarrow> hasher \<Rightarrow> old_files
     \<Rightarrow> string \<Rightarrow> string \<Rightarrow> string \<Rightarrow> store_run" where
  "migrateStore tfails cfails digest h fs store baseOld baseNew =
     (let oldTreePath = Join [baseOld, store, ''tree.sqlite''];
          oldChangelogPath = Join [baseOld, store, ''changelog.sqlite'']
      in case tree_files fs oldTreePath of
           None \<Rightarrow>
             \<lparr>store_outcome = Returned_Error (''tree.sqlite not found: '' @ oldTreePath),
              tree_run = None, changelog_run = None\<rparr>
         | Some tree \<Rightarrow>
             (let t = migrateTree tfails tree in
              if fst t \<noteq> Success
              then \<lparr>store_outcome = fst t, tree_run = Some t, changelog_run = None\<rparr>
              else
                case changelog_files fs oldChangelogPath of
                  None \<Rightarrow>
                    \<lparr>store_outcome =
                       Returned_Error (''changelog.sqlite not found: '' @ oldChangelogPath),
                     tree_run = Some t, changelog_run = None\<rparr>
                | Some changelog \<Rightarrow>
                    (let c = migrateChangelog cfails digest h changelog in
                     \<lparr>store_outcome = fst c, tree_run = Some t, changelog_run = Some c\<rparr>)))"

section \<open>Signed 64-bit arithmetic\<close>

lemma sint_word_of_int64:
  "- (2 ^ 63) \<le> k \<Longrightarrow> k < 2 ^ 63 \<Longrightarrow> sint (word_of_int k :: int64) = k"
  by (simp add: sint_sbintrunc' signed_take_bit_int_eq_self)

lemma sint_int64_add:
  "- (2 ^ 63) \<le> sint a + sint b \<Longrightarrow> sint a + sint b < 2 ^ 63
    \<Longrightarrow> sint (a + b :: int64) = sint a + sint b"
  by (simp add: sint_word_add signed_take_bit_int_eq_self)

lemma sint_int64_diff:
  "- (2 ^ 63) \<le> sint a - sint b \<Longrightarrow> sint a - sint b < 2 ^ 63
    \<Longrightarrow> sint (a - b :: int64) = sint a - sint b"
  by (simp add: sint_word_diff signed_take_bit_int_eq_self)

lemma sint_int64_mult:
  "- (2 ^ 63) \<le> sint a * sint b \<Longrightarrow> sint a * sint b < 2 ^ 63
    \<Longrightarrow> sint (a * b :: int64) = sint a * sint b"
  by (simp add: sint_word_mult signed_take_bit_int_eq_self)

lemma sint_int64_bounds: "- (2 ^ 63) \<le> sint (v :: int64)" "sint (v :: int64) < 2 ^ 63"
  using sint_ge [of v] sint_lt [of v] by simp_all

lemma int64_eq_iff_sint: "(a :: int64) = b \<longleftrightarrow> sint a = sint b"
  by (rule word_eq_iff_signed)

section \<open>Shard identifiers\<close>

lemma sint_ToShardID:
  "sint (ToShardID v) = (if sint v \<le> 0 then 1 else (sint v - 1) div 500000 + 1)"
proof (cases "sint v \<le> 0")
  case True
  then show ?thesis by (simp add: ToShardID_def word_sle_eq defaultStartShardID_def)
next
  case False
  then have pos: "1 \<le> sint v" by simp
  have up: "sint v < 2 ^ 63" by (rule sint_int64_bounds)
  have s1: "sint (v - 1) = sint v - 1"
    using pos up by (simp add: sint_int64_diff)
  have q: "(sint v - 1) sdiv 500000 = (sint v - 1) div 500000"
    using pos by (simp add: signed_divide_int_def sgn_if)
  have qb: "0 \<le> (sint v - 1) div 500000" "(sint v - 1) div 500000 < 18446744073710"
    using pos up by auto
  have s2: "sint (int64_quo (v - 1) defaultTreeShardSize) = (sint v - 1) div 500000"
    using qb by (simp add: int64_quo_def defaultTreeShardSize_def s1 q sint_word_of_int64)
  show ?thesis
    using False qb
    by (simp add: ToShardID_def word_sle_eq defaultStartShardID_def sint_int64_add s2)
qed

lemma ToShardID_bounds: "1 \<le> sint (ToShardID v)" "sint (ToShardID v) \<le> 18446744073710"
  using sint_int64_bounds [of v] by (auto simp: sint_ToShardID)

lemma ToShardID_mono: "sint a \<le> sint b \<Longrightarrow> sint (ToShardID a) \<le> sint (ToShardID b)"
  by (auto simp: sint_ToShardID intro: zdiv_mono1)

text \<open>
  C2: for every 64-bit version, \<open>ToShardID\<close> returns a shard identifier (it has no error
  result): 1 for a version that is not positive, and the floor of (v - 1) / 500000, plus
  1, for a version from 1 on; with the six values of the specification.
\<close>

theorem ToShardID_formula:
  "sint (ToShardID v) = (if sint v \<le> 0 then 1 else (sint v - 1) div 500000 + 1)
   \<and> ToShardID 1 = 1 \<and> ToShardID 500000 = 1 \<and> ToShardID 500001 = 2
   \<and> ToShardID 1000000 = 2 \<and> ToShardID 1000001 = 3 \<and> ToShardID 4312305 = 9"
proof -
  have "ToShardID 1 = 1" "ToShardID 500000 = 1" "ToShardID 500001 = 2"
    "ToShardID 1000000 = 2" "ToShardID 1000001 = 3" "ToShardID 4312305 = 9"
    by (simp_all add: int64_eq_iff_sint sint_ToShardID)
  then show ?thesis by (simp add: sint_ToShardID)
qed

theorem ToShardID_formula_witness:
  "sint (ToShardID (- 7)) = 1 \<and> sint (ToShardID 0) = 1 \<and> sint (ToShardID 1500001) = 4"
  using ToShardID_formula [of "- 7"] ToShardID_formula [of 0] ToShardID_formula [of 1500001]
  by simp

section \<open>Shard ranges\<close>

lemma shard_loop_upto:
  "sint m < 2 ^ 63 - 1 \<Longrightarrow>
   shard_loop a m acc = Some (acc @ map word_of_int [sint a .. sint m])"
proof (induction "nat (sint m + 1 - sint a)" arbitrary: a acc)
  case 0
  then have "\<not> a \<le>s m" by (simp add: word_sle_eq)
  moreover from 0 have "[sint a .. sint m] = []" by simp
  ultimately show ?case by (subst shard_loop.simps) simp
next
  case (Suc n)
  then have le: "sint a \<le> sint m" by linarith
  have sa: "sint (a + 1) = sint a + 1"
    using le Suc.prems sint_int64_bounds [of a] by (simp add: sint_int64_add)
  have n: "n = nat (sint m + 1 - sint (a + 1))" using Suc.hyps(2) sa by linarith
  have step: "shard_loop (a + 1) m (acc @ [a])
      = Some ((acc @ [a]) @ map word_of_int [sint (a + 1) .. sint m])"
    by (rule Suc.hyps(1) [OF n Suc.prems])
  have "[sint a .. sint m] = sint a # [sint a + 1 .. sint m]"
    using le by (simp add: upto_rec1)
  then show ?case
    using le step by (subst shard_loop.simps) (simp add: word_sle_eq sa)
qed

lemma map_sint_word_of_int64:
  "\<forall>k \<in> set ks. - (2 ^ 63) \<le> k \<and> k < 2 ^ 63
    \<Longrightarrow> map sint (map word_of_int ks :: int64 list) = ks"
  by (induction ks) (simp_all add: sint_sbintrunc' signed_take_bit_int_eq_self)

lemma calculateShardRange_positive:
  assumes "0 < sint mn" "0 < sint mx"
  shows "calculateShardRange mn mx
    = Some (map word_of_int [sint (ToShardID mn) .. sint (ToShardID mx)])"
proof -
  have "sint (ToShardID mx) < 2 ^ 63 - 1" using ToShardID_bounds(2) [of mx] by simp
  then show ?thesis
    using assms by (simp add: calculateShardRange_def word_sle_eq shard_loop_upto)
qed

lemma calculateShardRange_sint:
  assumes "0 < sint mn" "0 < sint mx" "calculateShardRange mn mx = Some ids"
  shows "map sint ids = [sint (ToShardID mn) .. sint (ToShardID mx)]"
proof -
  have "\<forall>k \<in> set [sint (ToShardID mn) .. sint (ToShardID mx)]. - (2 ^ 63) \<le> k \<and> k < 2 ^ 63"
    using ToShardID_bounds [of mn] ToShardID_bounds [of mx] by auto
  then have "map sint (map word_of_int [sint (ToShardID mn) .. sint (ToShardID mx)] :: int64 list)
      = [sint (ToShardID mn) .. sint (ToShardID mx)]"
    by (rule map_sint_word_of_int64)
  then show ?thesis
    using assms by (auto simp: calculateShardRange_positive)
qed

text \<open>
  C3: when a bound is not positive the range is exactly [1]; with both bounds positive
  the call returns, and the identifiers it returns, read as integers, are the integers
  from \<open>ToShardID minVersion\<close> to \<open>ToShardID maxVersion\<close> in ascending order (so with no
  gap and no duplicate); with positive bounds in the wrong order it returns the empty
  sequence or the one shard of the bound.
\<close>

theorem calculateShardRange_spec:
  "(sint mn \<le> 0 \<or> sint mx \<le> 0 \<longrightarrow> calculateShardRange mn mx = Some [1])
   \<and> (0 < sint mn \<and> 0 < sint mx \<longrightarrow>
        (\<exists>ids. calculateShardRange mn mx = Some ids
           \<and> map sint ids = [sint (ToShardID mn) .. sint (ToShardID mx)]))
   \<and> (0 < sint mx \<and> sint mx < sint mn \<longrightarrow>
        calculateShardRange mn mx = Some [] \<or> calculateShardRange mn mx = Some [ToShardID mx])"
proof (intro conjI impI)
  assume "sint mn \<le> 0 \<or> sint mx \<le> 0"
  then show "calculateShardRange mn mx = Some [1]"
    by (simp add: calculateShardRange_def word_sle_eq)
next
  assume pos: "0 < sint mn \<and> 0 < sint mx"
  then show "\<exists>ids. calculateShardRange mn mx = Some ids
      \<and> map sint ids = [sint (ToShardID mn) .. sint (ToShardID mx)]"
    using calculateShardRange_sint [of mn mx] by (simp add: calculateShardRange_positive)
next
  assume a: "0 < sint mx \<and> sint mx < sint mn"
  then have le: "sint (ToShardID mx) \<le> sint (ToShardID mn)" by (simp add: ToShardID_mono)
  have r: "calculateShardRange mn mx
      = Some (map word_of_int [sint (ToShardID mn) .. sint (ToShardID mx)])"
    using a by (simp add: calculateShardRange_positive)
  show "calculateShardRange mn mx = Some [] \<or> calculateShardRange mn mx = Some [ToShardID mx]"
  proof (cases "sint (ToShardID mx) = sint (ToShardID mn)")
    case True
    then have "ToShardID mn = ToShardID mx" by (simp add: int64_eq_iff_sint)
    then show ?thesis by (simp add: r)
  next
    case False
    with le have "sint (ToShardID mx) < sint (ToShardID mn)" by simp
    then show ?thesis by (simp add: r)
  qed
qed

theorem calculateShardRange_spec_witness:
  "calculateShardRange 0 0 = Some [1]
   \<and> (\<exists>ids. calculateShardRange 1 4312305 = Some ids \<and> map sint ids = [1, 2, 3, 4, 5, 6, 7, 8, 9])
   \<and> (calculateShardRange 1000001 3 = Some [] \<or> calculateShardRange 1000001 3 = Some [1])"
proof -
  have u: "[1 .. 9 :: int] = [1, 2, 3, 4, 5, 6, 7, 8, 9]" by (simp add: upto_rec1)
  have s: "sint (ToShardID 1) = 1" "sint (ToShardID 4312305) = 9" "ToShardID 3 = 1"
    by (simp_all add: int64_eq_iff_sint sint_ToShardID)
  show ?thesis
    using calculateShardRange_spec [of 0 0] calculateShardRange_spec [of 1 4312305]
      calculateShardRange_spec [of 1000001 3]
    by (simp add: u s)
qed

section \<open>Copy windows\<close>

lemma sint_startVersion:
  assumes "1 \<le> sint s" "sint s \<le> 18446744073710"
  shows "sint (startVersion s) = (sint s - 1) * 500000 + 1"
proof -
  have a: "sint (s - 1) = sint s - 1"
    using assms by (simp add: sint_int64_diff)
  have c: "sint (500000 :: int64) = 500000" by simp
  have lo: "- (2 ^ 63) \<le> (sint s - 1) * (500000 :: int)"
    and hi: "(sint s - 1) * (500000 :: int) < 2 ^ 63"
    using assms by simp_all
  have b: "sint ((s - 1) * 500000) = (sint s - 1) * 500000"
    using sint_int64_mult [of "s - 1" 500000] lo hi unfolding a c by blast
  have d: "sint (1 :: int64) = 1" by simp
  have lo': "- (2 ^ 63) \<le> (sint s - 1) * (500000 :: int) + 1"
    and hi': "(sint s - 1) * (500000 :: int) + 1 < 2 ^ 63"
    using assms by simp_all
  show ?thesis
    using sint_int64_add [of "(s - 1) * 500000" 1] lo' hi'
    unfolding startVersion_def b d by blast
qed

lemma sint_endVersion:
  assumes "1 \<le> sint s" "sint s \<le> 18446744073709"
  shows "sint (endVersion s) = sint s * 500000"
  using assms by (simp add: endVersion_def sint_int64_mult)

lemma in_window_iff:
  assumes "1 \<le> sint s" "sint s \<le> 18446744073709"
  shows "in_window s v \<longleftrightarrow> (sint s - 1) * 500000 + 1 \<le> sint v \<and> sint v \<le> sint s * 500000"
  using assms by (simp add: in_window_def word_sle_eq sint_startVersion sint_endVersion)

lemma endVersion_top: "sint (endVersion 18446744073710) = - 9223372036854551616"
  by (simp add: endVersion_def)

lemma top_window_empty:
  assumes "sint s = 18446744073710"
  shows "\<not> in_window s v"
proof -
  have s: "s = 18446744073710" using assms by (simp add: int64_eq_iff_sint)
  have "sint (startVersion s) = 9223372036854500001"
    using assms by (simp add: sint_startVersion)
  moreover have "sint (endVersion s) = - 9223372036854551616"
    by (simp add: s endVersion_top)
  ultimately show ?thesis by (simp add: in_window_def word_sle_eq)
qed

lemma in_window_own_shard:
  assumes "1 \<le> sint v" "sint v \<le> 9223372036854500000"
  shows "in_window (ToShardID v) v"
proof -
  have s: "sint (ToShardID v) = (sint v - 1) div 500000 + 1"
    using assms by (simp add: sint_ToShardID)
  have b: "1 \<le> sint (ToShardID v)" "sint (ToShardID v) \<le> 18446744073709"
    using assms by (auto simp: s)
  define q where "q = (sint v - 1) div 500000"
  define r where "r = (sint v - 1) mod 500000"
  have e: "sint v - 1 = q * 500000 + r"
    unfolding q_def r_def by simp
  have r: "0 \<le> r" "r < 500000"
    unfolding r_def by simp_all
  have "(q + 1 - 1) * 500000 + 1 \<le> sint v \<and> sint v \<le> (q + 1) * 500000"
    using e r by (simp add: algebra_simps)
  then show ?thesis
    unfolding in_window_iff [OF b] s q_def by simp
qed

lemma in_window_unique:
  assumes "1 \<le> sint s" "sint s \<le> 18446744073710" "in_window s v"
  shows "s = ToShardID v"
proof -
  have "sint s \<noteq> 18446744073710" using assms(3) top_window_empty by blast
  then have b: "sint s \<le> 18446744073709" using assms(2) by simp
  have w: "(sint s - 1) * 500000 + 1 \<le> sint v" "sint v \<le> sint s * 500000"
    using assms(3) by (simp_all add: in_window_iff [OF assms(1) b])
  then have "0 < sint v" using assms(1) by simp
  then have "sint (ToShardID v) = (sint v - 1) div 500000 + 1" by (simp add: sint_ToShardID)
  also have "\<dots> = sint s"
  proof -
    have "sint v - 1 = 500000 * (sint s - 1) + (sint v - 1 - 500000 * (sint s - 1))"
      by simp
    moreover have "0 \<le> sint v - 1 - 500000 * (sint s - 1)"
      using w(1) by (simp add: algebra_simps)
    moreover have "sint v - 1 - 500000 * (sint s - 1) < 500000"
      using w(2) by (simp add: algebra_simps)
    ultimately have "(sint v - 1) div 500000 = sint s - 1"
      by (rule int_div_pos_eq)
    then show ?thesis by simp
  qed
  finally show ?thesis by (simp add: int64_eq_iff_sint)
qed

lemma windows_disjoint:
  assumes "1 \<le> sint s" "sint s \<le> 18446744073710" "1 \<le> sint t" "sint t \<le> 18446744073710"
    and "s \<noteq> t"
  shows "\<not> (in_window s v \<and> in_window t v)"
  using assms in_window_unique by blast

section \<open>Deduplication\<close>

lemma first_in_partition_subset: "set (first_in_partition seen xs) \<subseteq> set xs"
  by (induction xs arbitrary: seen) auto

lemma first_in_partition_keys:
  "row_key ` set (first_in_partition seen xs) = row_key ` set xs - set seen"
  by (induction xs arbitrary: seen) auto

lemma first_in_partition_distinct: "distinct (map row_key (first_in_partition seen xs))"
proof (induction xs arbitrary: seen)
  case Nil
  then show ?case by simp
next
  case (Cons r rs)
  have "row_key r \<notin> row_key ` set (first_in_partition (row_key r # seen) rs)"
    by (simp add: first_in_partition_keys)
  then show ?case using Cons.IH by simp
qed

lemma first_in_partition_filter_gen:
  assumes "\<And>r. P r = Q (row_key r)"
    and "\<And>k. Q k \<Longrightarrow> k \<in> set seen \<longleftrightarrow> k \<in> set seen'"
  shows "first_in_partition seen (filter P xs) = filter P (first_in_partition seen' xs)"
  using assms(2)
proof (induction xs arbitrary: seen seen')
  case Nil
  then show ?case by simp
next
  case (Cons r rs)
  show ?case
  proof (cases "P r")
    case True
    then have q: "Q (row_key r)" using assms(1) by simp
    have "first_in_partition (row_key r # seen) (filter P rs)
        = filter P (first_in_partition (row_key r # seen') rs)"
      by (rule Cons.IH) (use Cons.prems in auto)
    moreover have "first_in_partition seen (filter P rs) = filter P (first_in_partition seen' rs)"
      by (rule Cons.IH) (use Cons.prems in auto)
    ultimately show ?thesis using True Cons.prems [OF q] by simp
  next
    case False
    then have q: "\<not> Q (row_key r)" using assms(1) by simp
    have a: "first_in_partition seen (filter P rs) = filter P (first_in_partition seen' rs)"
      by (rule Cons.IH) (use Cons.prems in auto)
    have b: "first_in_partition seen (filter P rs)
        = filter P (first_in_partition (row_key r # seen') rs)"
      by (rule Cons.IH) (use Cons.prems q in auto)
    show ?thesis using False a b by simp
  qed
qed

lemma first_in_partition_filter:
  assumes "\<And>r. P r = Q (row_key r)"
  shows "first_in_partition seen (filter P xs) = filter P (first_in_partition seen xs)"
  using assms by (rule first_in_partition_filter_gen) simp


lemma version_between_key:
  "version_between lo hi r
    = (case fst (row_key r) of None \<Rightarrow> False | Some v \<Rightarrow> lo \<le>s v \<and> v \<le>s hi)"
  by (simp add: version_between_def row_key_def)

lemma shard_select_filter:
  "shard_select i rows
    = filter (version_between (startVersion i) (endVersion i)) (first_in_partition [] rows)"
  unfolding shard_select_def
  by (rule first_in_partition_filter
      [where Q = "\<lambda>k. case fst k of None \<Rightarrow> False
                      | Some v \<Rightarrow> startVersion i \<le>s v \<and> v \<le>s endVersion i"])
    (rule version_between_key)

lemma version_between_in_window:
  "version_between (startVersion i) (endVersion i) r
    \<longleftrightarrow> (\<exists>v. branch_version r = Some v \<and> in_window i v)"
  by (auto simp: version_between_def in_window_def split: option.splits)

section \<open>The statements of migrateTree\<close>

lemma exec_Continue:
  "exec fails src s d = Continue d'
    \<Longrightarrow> \<not> fails (Op_Exec s) \<and> run_stmt src s (d\<lparr>dst_executed := dst_executed d @ [s]\<rparr>) = Some d'"
  by (auto simp: exec_def Let_def split: if_splits option.splits)

lemma exec_Fatal:
  "exec fails src s d = Fatal s' d' \<Longrightarrow> s' = s \<and> d' = d\<lparr>dst_executed := dst_executed d @ [s]\<rparr>"
  by (auto simp: exec_def Let_def split: if_splits option.splits)

lemma exec_create_shard:
  assumes "exec fails src (Create_Table (T_tree i)) d = Continue d'"
  shows "dst_shards d' = dst_shards d @ [(i, [])]" "map_of (dst_shards d) i = None"
    "dst_root d' = dst_root d" "dst_branch_orphan d' = dst_branch_orphan d"
    "dst_attached d' = dst_attached d"
  using exec_Continue [OF assms] by (auto split: option.splits)

lemma set_shard_distinct:
  assumes "distinct (map fst S)" "map_of S i = Some tbl"
  shows "set_shard i (tbl @ sel) S = map (\<lambda>(j, u). (j, if j = i then u @ sel else u)) S"
proof -
  have "\<And>j u. (j, u) \<in> set S \<Longrightarrow> j = i \<Longrightarrow> u = tbl"
    using assms by (simp add: map_of_eq_Some_iff)
  then show ?thesis
    unfolding set_shard_def by (intro map_cong) auto
qed

lemma exec_insert_shard:
  assumes "exec fails src (Insert_Shard i) d = Continue d'" "src_tree_1 src = Some rows"
    and "distinct (map fst (dst_shards d))"
  shows "dst_shards d'
      = map (\<lambda>(j, u). (j, if j = i then u @ shard_select i rows else u)) (dst_shards d)"
    "dst_root d' = dst_root d" "dst_branch_orphan d' = dst_branch_orphan d"
    "dst_attached d' = dst_attached d"
  using exec_Continue [OF assms(1)] assms(2,3)
  by (auto simp: pk_insert_def set_shard_distinct split: option.splits if_splits)

lemma create_shard_tables_Continue:
  assumes "create_shard_tables fails src ids d = Continue d'"
  shows "dst_shards d' = dst_shards d @ map (\<lambda>i. (i, [])) ids \<and> dst_root d' = dst_root d
    \<and> dst_branch_orphan d' = dst_branch_orphan d \<and> dst_attached d' = dst_attached d"
  using assms
proof (induction ids arbitrary: d)
  case Nil
  then show ?case by simp
next
  case (Cons i ids)
  from Cons.prems obtain d1 where
    e: "exec fails src (Create_Table (T_tree i)) d = Continue d1"
    and r: "create_shard_tables fails src ids d1 = Continue d'"
    by (auto split: exec_result.splits)
  show ?case
    using Cons.IH [OF r] exec_create_shard [OF e] by simp
qed

lemma migrate_shards_Continue:
  assumes "migrate_shards fails src ids d = Continue d'" "src_tree_1 src = Some rows"
    and "distinct (map fst (dst_shards d))" "distinct ids"
  shows "dst_shards d'
      = map (\<lambda>(j, u). (j, if j \<in> set ids then u @ shard_select j rows else u)) (dst_shards d)
    \<and> dst_root d' = dst_root d \<and> dst_branch_orphan d' = dst_branch_orphan d
    \<and> dst_attached d' = dst_attached d"
  using assms(1,3,4)
proof (induction ids arbitrary: d)
  case Nil
  then show ?case by simp
next
  case (Cons i ids)
  from Cons.prems(1) obtain d1 where
    e: "exec fails src (Insert_Shard i) d = Continue d1"
    and r: "migrate_shards fails src ids d1 = Continue d'"
    by (auto split: exec_result.splits)
  note step = exec_insert_shard [OF e assms(2) Cons.prems(2)]
  have fst1: "map fst (dst_shards d1) = map fst (dst_shards d)"
    by (simp add: step(1) case_prod_unfold comp_def)
  have d1: "distinct (map fst (dst_shards d1))"
    using Cons.prems(2) by (simp add: fst1)
  have ids: "distinct ids" "i \<notin> set ids" using Cons.prems(3) by simp_all
  note ih = Cons.IH [OF r d1 ids(1)]
  have "map (\<lambda>(j, u). (j, if j \<in> set ids then u @ shard_select j rows else u)) (dst_shards d1)
      = map (\<lambda>(j, u). (j, if j \<in> set (i # ids) then u @ shard_select j rows else u)) (dst_shards d)"
    unfolding step(1) using ids(2) by (auto simp: case_prod_unfold)
  then show ?case using ih step by simp
qed

lemma detach_and_return_Success:
  assumes "detach_and_return fails src d = (Success, d')"
  shows "dst_shards d' = dst_shards d \<and> dst_root d' = dst_root d
    \<and> dst_branch_orphan d' = dst_branch_orphan d \<and> dst_attached d' = False
    \<and> dst_executed d' = dst_executed d @ [Detach_Old]"
proof -
  from assms have e: "exec fails src Detach_Old d = Continue d'"
    by (auto simp: detach_and_return_def split: exec_result.splits)
  show ?thesis using exec_Continue [OF e] by (auto split: if_splits)
qed

lemma calculateShardRange_distinct:
  assumes "calculateShardRange mn mx = Some ids"
  shows "distinct ids"
proof (cases "0 < sint mn \<and> 0 < sint mx")
  case True
  then have "map sint ids = [sint (ToShardID mn) .. sint (ToShardID mx)]"
    using assms by (simp add: calculateShardRange_sint)
  then have "distinct (map sint ids)" by simp
  then show ?thesis by (simp add: distinct_map)
next
  case False
  then show ?thesis using assms by (auto simp: calculateShardRange_def word_sle_eq)
qed

lemma calculateShardRange_returns: "\<exists>ids. calculateShardRange mn mx = Some ids"
proof (cases "0 < sint mn \<and> 0 < sint mx")
  case True
  then show ?thesis by (simp add: calculateShardRange_positive)
next
  case False
  then show ?thesis by (auto simp: calculateShardRange_def word_sle_eq)
qed

lemma version_range_rows:
  assumes "version_range fails src = Some (a, b)" "src_tree_1 src = Some rows"
  shows "a = sql_min (non_null (map branch_version rows))"
    "b = sql_max (non_null (map branch_version rows))"
  using assms by (auto simp: version_range_def Let_def split: if_splits)

lemma sql_min_None: "sql_min vs = None \<longleftrightarrow> vs = []"
  by (cases vs) (auto split: option.splits)

lemma sql_max_None: "sql_max vs = None \<longleftrightarrow> vs = []"
  by (cases vs) (auto split: option.splits)

lemma migrate_tree_1_Success:
  assumes "migrate_tree_1 fails src d = (Success, d')" "src_tree_1 src = Some rows"
    and "dst_shards d = []"
  shows "dst_shards d' = copied_shards rows \<and> dst_root d' = dst_root d
    \<and> dst_branch_orphan d' = dst_branch_orphan d \<and> dst_attached d' = False"
proof -
  let ?vs = "non_null (map branch_version rows)"
  from assms(1) obtain a b where vr: "version_range fails src = Some (a, b)"
    by (auto simp: migrate_tree_1_def split: option.splits)
  note ab = version_range_rows [OF vr assms(2)]
  show ?thesis
  proof (cases "?vs = []")
    case True
    then have n: "a = None" "b = None" using ab by simp_all
    have "detach_and_return fails src d = (Success, d')"
      using assms(1) by (simp add: migrate_tree_1_def vr n)
    then show ?thesis
      using detach_and_return_Success [of fails src d d'] assms(3) True
      by (simp add: copied_shards_def)
  next
    case False
    then obtain mn mx where m: "sql_min ?vs = Some mn" "sql_max ?vs = Some mx"
      using sql_min_None [of ?vs] sql_max_None [of ?vs] by auto
    obtain ids where ids: "calculateShardRange mn mx = Some ids"
      using calculateShardRange_returns by blast
    from assms(1) obtain d1 d2 where
      c: "create_shard_tables fails src ids d = Continue d1"
      and g: "migrate_shards fails src ids d1 = Continue d2"
      and r: "detach_and_return fails src d2 = (Success, d')"
      by (auto simp: migrate_tree_1_def vr ab m ids split: exec_result.splits)
    note c' = create_shard_tables_Continue [OF c]
    have s1: "dst_shards d1 = map (\<lambda>i. (i, [])) ids" using c' assms(3) by simp
    have dist: "distinct ids" using ids by (rule calculateShardRange_distinct)
    have d1: "distinct (map fst (dst_shards d1))" using dist by (simp add: s1 comp_def)
    note g' = migrate_shards_Continue [OF g assms(2) d1 dist]
    have s2: "dst_shards d2 = map (\<lambda>i. (i, shard_select i rows)) ids"
      using g' by (simp add: s1 comp_def)
    show ?thesis
      using detach_and_return_Success [OF r] c' g' s2
      by (simp add: copied_shards_def m ids)
  qed
qed

lemma exec_insert_root:
  assumes "exec fails src Insert_Root d = Continue d'" "src_root src = Some roots"
    and "dst_root d = Some []"
  shows "dst_root d' = Some roots" "dst_shards d' = dst_shards d"
    "dst_branch_orphan d' = dst_branch_orphan d" "dst_attached d' = dst_attached d"
  using exec_Continue [OF assms(1)] assms(2,3)
  by (auto simp: pk_insert_def split: option.splits if_splits)

lemma exec_insert_branch_orphan:
  assumes "exec fails src Insert_Branch_Orphan d = Continue d'"
    and "dst_branch_orphan d = Some []"
  shows "dst_branch_orphan d' = src_orphan src" "dst_shards d' = dst_shards d"
    "dst_root d' = dst_root d" "dst_attached d' = dst_attached d"
  using exec_Continue [OF assms(1)] assms(2)
  by (auto simp: pk_insert_def split: option.splits if_splits)

lemma copied_shards_Nil: "copied_shards [] = []"
  by (simp add: copied_shards_def)

lemma migrate_tables_Success:
  assumes "migrate_tables fails src (length rows) (length roots) d = (Success, d')"
    and "src_tree_1 src = Some rows" "src_root src = Some roots"
    and "dst_shards d = []" "dst_root d = Some []" "dst_branch_orphan d = Some []"
  shows "dst_shards d' = copied_shards rows \<and> dst_root d' = Some roots
    \<and> dst_branch_orphan d' = (if rows = [] \<and> roots = [] then Some [] else src_orphan src)
    \<and> dst_attached d' = False"
proof (cases "rows = [] \<and> roots = []")
  case True
  then have "detach_and_return fails src d = (Success, d')"
    using assms(1) by (simp add: migrate_tables_def)
  then show ?thesis
    using detach_and_return_Success [of fails src d d'] assms(4-6) True
    by (simp add: copied_shards_Nil)
next
  case False
  from assms(1) False obtain d1 d2 where
    r: "(if roots \<noteq> [] then exec fails src Insert_Root d else Continue d) = Continue d1"
    and o: "exec fails src Insert_Branch_Orphan d1 = Continue d2"
    and t: "(if rows \<noteq> [] then migrate_tree_1 fails src d2 else detach_and_return fails src d2)
        = (Success, d')"
    by (auto simp: migrate_tables_def split: exec_result.splits if_splits)
  have r': "dst_root d1 = Some roots \<and> dst_shards d1 = [] \<and> dst_branch_orphan d1 = Some []"
  proof (cases "roots = []")
    case True
    then show ?thesis using r assms(4-6) by simp
  next
    case False
    then have "exec fails src Insert_Root d = Continue d1" using r by simp
    then show ?thesis
      using exec_insert_root [of fails src d d1 roots] assms(3-6) by simp
  qed
  have o': "dst_branch_orphan d2 = src_orphan src \<and> dst_shards d2 = []
      \<and> dst_root d2 = Some roots"
    using exec_insert_branch_orphan [OF o] r' by simp
  show ?thesis
  proof (cases "rows = []")
    case True
    then have "detach_and_return fails src d2 = (Success, d')" using t by simp
    then show ?thesis
      using detach_and_return_Success [of fails src d2 d'] o' True False
      by (simp add: copied_shards_Nil)
  next
    case False
    then have "migrate_tree_1 fails src d2 = (Success, d')" using t by simp
    then show ?thesis
      using migrate_tree_1_Success [of fails src d2 d' rows] assms(2) o' False by simp
  qed
qed

lemma count_rows_Some:
  "count_rows fails op tbl = Some n \<Longrightarrow> \<exists>rows. tbl = Some rows \<and> n = length rows \<and> \<not> fails op"
  by (auto simp: count_rows_def split: if_splits option.splits)

lemma exec_create_base:
  assumes "exec fails src (Create_Table T_branch_orphan) new_tree_db = Continue d1"
    and "exec fails src (Create_Table T_root) d1 = Continue d2"
    and "exec fails src Attach_Old d2 = Continue d3"
  shows "dst_shards d3 = [] \<and> dst_root d3 = Some [] \<and> dst_branch_orphan d3 = Some []"
  using exec_Continue [OF assms(1)] exec_Continue [OF assms(2)] exec_Continue [OF assms(3)]
  by (auto simp: new_tree_db_def split: option.splits if_splits)

lemma migrateTree_Success:
  assumes "migrateTree fails src = (Success, dst)"
  shows "\<exists>rows roots. src_tree_1 src = Some rows \<and> src_root src = Some roots
    \<and> dst_shards dst = copied_shards rows \<and> dst_root dst = Some roots
    \<and> dst_branch_orphan dst = (if rows = [] \<and> roots = [] then Some [] else src_orphan src)
    \<and> dst_attached dst = False"
proof -
  from assms obtain d1 d2 d3 n m where
    e: "exec fails src (Create_Table T_branch_orphan) new_tree_db = Continue d1"
      "exec fails src (Create_Table T_root) d1 = Continue d2"
      "exec fails src Attach_Old d2 = Continue d3"
    and c: "count_rows fails Op_Count_Tree (src_tree_1 src) = Some n"
      "count_rows fails Op_Count_Root (src_root src) = Some m"
    and t: "migrate_tables fails src n m d3 = (Success, dst)"
    by (auto simp: migrateTree_def split: if_splits exec_result.splits option.splits)
  from c obtain rows roots where
    s: "src_tree_1 src = Some rows" "n = length rows" "src_root src = Some roots" "m = length roots"
    by (auto dest!: count_rows_Some)
  note b = exec_create_base [OF e]
  show ?thesis
    using migrate_tables_Success [of fails src rows roots d3 dst] t s b by simp
qed

section \<open>What the shard tables hold\<close>

lemma set_non_null: "set (non_null xs) = {x. Some x \<in> set xs}"
  by (induction xs rule: non_null.induct) auto

lemma sql_min_least:
  "sql_min vs = Some m \<Longrightarrow> m \<in> set vs \<and> (\<forall>v \<in> set vs. sint m \<le> sint v)"
proof (induction vs arbitrary: m)
  case Nil
  then show ?case by simp
next
  case (Cons x xs)
  show ?case
  proof (cases "sql_min xs")
    case None
    then have "xs = []" by (simp add: sql_min_None)
    then show ?thesis using Cons.prems by simp
  next
    case (Some m')
    then show ?thesis
      using Cons.IH [OF Some] Cons.prems by (auto simp: word_sle_eq split: if_splits)
  qed
qed

lemma sql_max_greatest:
  "sql_max vs = Some m \<Longrightarrow> m \<in> set vs \<and> (\<forall>v \<in> set vs. sint v \<le> sint m)"
proof (induction vs arbitrary: m)
  case Nil
  then show ?case by simp
next
  case (Cons x xs)
  show ?case
  proof (cases "sql_max xs")
    case None
    then have "xs = []" by (simp add: sql_max_None)
    then show ?thesis using Cons.prems by simp
  next
    case (Some m')
    then show ?thesis
      using Cons.IH [OF Some] Cons.prems by (auto simp: word_sle_eq split: if_splits)
  qed
qed

lemma ToShardID_below_top:
  assumes "sint v \<le> 9223372036854500000"
  shows "sint (ToShardID v) \<le> 18446744073709"
proof -
  have "sint (ToShardID v) \<le> sint (ToShardID 9223372036854500000)"
    by (rule ToShardID_mono) (use assms in simp)
  also have "\<dots> = 18446744073709" by (simp add: sint_ToShardID)
  finally show ?thesis .
qed

lemma copied_shards_bounded:
  assumes "\<forall>v \<in> set (non_null (map branch_version rows)).
      1 \<le> sint v \<and> sint v \<le> 9223372036854500000"
  shows "\<exists>ids. copied_shards rows
        = map (\<lambda>i. (i, filter (\<lambda>r. \<exists>v. branch_version r = Some v \<and> ToShardID v = i)
                          (first_in_partition [] rows))) ids
      \<and> distinct ids
      \<and> (\<forall>v \<in> set (non_null (map branch_version rows)). ToShardID v \<in> set ids)"
proof (cases "non_null (map branch_version rows) = []")
  case True
  then have "copied_shards rows = []" by (simp add: copied_shards_def)
  then show ?thesis using True by simp
next
  case False
  let ?vs = "non_null (map branch_version rows)"
  from False obtain mn mx where m: "sql_min ?vs = Some mn" "sql_max ?vs = Some mx"
    using sql_min_None [of ?vs] sql_max_None [of ?vs] by auto
  note mn = sql_min_least [OF m(1)] and mx = sql_max_greatest [OF m(2)]
  have pos: "0 < sint mn" "0 < sint mx" "sint mx \<le> 9223372036854500000"
    using mn mx assms by auto
  obtain ids where ids: "calculateShardRange mn mx = Some ids"
    using calculateShardRange_returns by blast
  have sids: "map sint ids = [sint (ToShardID mn) .. sint (ToShardID mx)]"
    using pos ids by (simp add: calculateShardRange_sint)
  have dist: "distinct ids" using ids by (rule calculateShardRange_distinct)
  have range: "1 \<le> sint i \<and> sint i \<le> 18446744073709" if "i \<in> set ids" for i
  proof -
    have "sint i \<in> set (map sint ids)" using that by simp
    then have "sint (ToShardID mn) \<le> sint i \<and> sint i \<le> sint (ToShardID mx)"
      unfolding sids by simp
    then show ?thesis
      using ToShardID_bounds(1) [of mn] ToShardID_below_top [OF pos(3)] by linarith
  qed
  have cover: "ToShardID v \<in> set ids" if "v \<in> set ?vs" for v
  proof -
    have "sint mn \<le> sint v" "sint v \<le> sint mx" using mn mx that by auto
    then have "sint (ToShardID v) \<in> set [sint (ToShardID mn) .. sint (ToShardID mx)]"
      by (simp add: ToShardID_mono)
    then have "sint (ToShardID v) \<in> sint ` set ids" unfolding sids [symmetric] by simp
    then obtain i where i: "i \<in> set ids" "sint (ToShardID v) = sint i" by auto
    from i(2) have "ToShardID v = i" by (simp only: int64_eq_iff_sint)
    then show ?thesis using i(1) by simp
  qed
  have sel: "shard_select i rows
      = filter (\<lambda>r. \<exists>v. branch_version r = Some v \<and> ToShardID v = i) (first_in_partition [] rows)"
    if "i \<in> set ids" for i
    unfolding shard_select_filter
  proof (rule filter_cong [OF refl])
    fix r assume "r \<in> set (first_in_partition [] rows)"
    then have r: "r \<in> set rows" using first_in_partition_subset by blast
    have i: "1 \<le> sint i" "sint i \<le> 18446744073710" using range [OF that] by simp_all
    show "version_between (startVersion i) (endVersion i) r
        = (\<exists>v. branch_version r = Some v \<and> ToShardID v = i)"
    proof
      assume "version_between (startVersion i) (endVersion i) r"
      then obtain v where v: "branch_version r = Some v" "in_window i v"
        by (auto simp: version_between_in_window)
      then show "\<exists>v. branch_version r = Some v \<and> ToShardID v = i"
        using in_window_unique [OF i v(2)] by simp
    next
      assume "\<exists>v. branch_version r = Some v \<and> ToShardID v = i"
      then obtain v where v: "branch_version r = Some v" "ToShardID v = i" by blast
      then have "v \<in> set ?vs" using r by (force simp: set_non_null)
      then have "in_window (ToShardID v) v" using assms by (simp add: in_window_own_shard)
      then show "version_between (startVersion i) (endVersion i) r"
        using v by (auto simp: version_between_in_window)
    qed
  qed
  have "copied_shards rows = map (\<lambda>i. (i, shard_select i rows)) ids"
    by (simp add: copied_shards_def m ids)
  also have "\<dots> = map (\<lambda>i. (i, filter (\<lambda>r. \<exists>v. branch_version r = Some v \<and> ToShardID v = i)
                          (first_in_partition [] rows))) ids"
    by (rule map_cong) (simp_all add: sel)
  finally show ?thesis using dist cover by blast
qed

lemma has_version_key: "(branch_version r \<noteq> None) = (fst (row_key r) \<noteq> None)"
  by (simp add: row_key_def)

lemma first_in_partition_versions:
  "first_in_partition [] (filter (\<lambda>r. branch_version r \<noteq> None) rows)
    = filter (\<lambda>r. branch_version r \<noteq> None) (first_in_partition [] rows)"
  by (rule first_in_partition_filter [where Q = "\<lambda>k. fst k \<noteq> None"]) (rule has_version_key)

text \<open>
  C10: the version 9223372036854775807 is not inside the copy window of its own shard.
  Its shard is 18446744073710; the upper end of that window, 18446744073710 * 500000,
  does not fit 64 bits and wraps to - 9223372036854551616, below the lower end, so the
  window holds no version, and migrating a table with this one row leaves its shard
  table empty.
\<close>

theorem top_shard_window_is_empty:
  "ToShardID 9223372036854775807 = 18446744073710
   \<and> sint (startVersion (ToShardID 9223372036854775807)) = 9223372036854500001
   \<and> sint (endVersion (ToShardID 9223372036854775807)) = - 9223372036854551616
   \<and> \<not> in_window (ToShardID 9223372036854775807) 9223372036854775807
   \<and> fst (migrateTree no_failure
        \<lparr>src_tree_1 = Some [\<lparr>branch_version = Some 9223372036854775807,
             branch_sequence = Some 1, branch_bytes = [1], branch_orphaned = Some False\<rparr>],
         src_root = Some [], src_orphan = Some []\<rparr>) = Success
   \<and> dst_shards (snd (migrateTree no_failure
        \<lparr>src_tree_1 = Some [\<lparr>branch_version = Some 9223372036854775807,
             branch_sequence = Some 1, branch_bytes = [1], branch_orphaned = Some False\<rparr>],
         src_root = Some [], src_orphan = Some []\<rparr>)) = [(18446744073710, [])]"
proof -
  have t: "ToShardID 9223372036854775807 = 18446744073710"
    by (simp add: int64_eq_iff_sint sint_ToShardID)
  have s: "sint (startVersion 18446744073710) = 9223372036854500001"
    by (simp add: sint_startVersion)
  have w: "\<not> in_window 18446744073710 9223372036854775807"
    by (rule top_window_empty) simp
  have m: "fst (migrateTree no_failure
        \<lparr>src_tree_1 = Some [\<lparr>branch_version = Some 9223372036854775807,
             branch_sequence = Some 1, branch_bytes = [1], branch_orphaned = Some False\<rparr>],
         src_root = Some [], src_orphan = Some []\<rparr>) = Success"
    by code_simp
  have d: "dst_shards (snd (migrateTree no_failure
        \<lparr>src_tree_1 = Some [\<lparr>branch_version = Some 9223372036854775807,
             branch_sequence = Some 1, branch_bytes = [1], branch_orphaned = Some False\<rparr>],
         src_root = Some [], src_orphan = Some []\<rparr>)) = [(18446744073710, [])]"
    by code_simp
  show ?thesis
    unfolding t using s w m d endVersion_top by simp
qed

section \<open>Duplicate keys\<close>

lemma copied_shards_member:
  assumes "(i, t) \<in> set (copied_shards rows)"
  shows "t = shard_select i rows"
  using assms by (auto simp: copied_shards_def Let_def split: option.splits)





section \<open>The destination of a successful tree migration\<close>

lemma first_in_partition_distinct_rows: "distinct (first_in_partition seen xs)"
  using first_in_partition_distinct [of seen xs] by (simp add: distinct_map)

text \<open>
  C1, as the code has it. A row whose version is NULL is copied to no shard table: a
  table with one such row is migrated with success into a destination with no shard
  table at all. And when tree_1 and root are both empty the run returns before the copy of
  the orphan rows.
\<close>

theorem migrateTree_skips_null_versions_and_orphans_of_empty_tree:
  "fst (migrateTree no_failure
      \<lparr>src_tree_1 = Some [\<lparr>branch_version = None, branch_sequence = Some 1,
           branch_bytes = [1], branch_orphaned = Some False\<rparr>],
       src_root = Some [], src_orphan = Some []\<rparr>) = Success
   \<and> set (concat (map snd (dst_shards (snd (migrateTree no_failure
      \<lparr>src_tree_1 = Some [\<lparr>branch_version = None, branch_sequence = Some 1,
           branch_bytes = [1], branch_orphaned = Some False\<rparr>],
       src_root = Some [], src_orphan = Some []\<rparr>)))))
     \<noteq> set (first_in_partition []
         [\<lparr>branch_version = None, branch_sequence = Some 1,
           branch_bytes = [1], branch_orphaned = Some False\<rparr>])
   \<and> fst (migrateTree no_failure
      \<lparr>src_tree_1 = Some [], src_root = Some [],
       src_orphan = Some [\<lparr>orphan_version = Some 1, orphan_sequence = Some 1,
           orphan_at = Some 2\<rparr>]\<rparr>) = Success
   \<and> dst_branch_orphan (snd (migrateTree no_failure
      \<lparr>src_tree_1 = Some [], src_root = Some [],
       src_orphan = Some [\<lparr>orphan_version = Some 1, orphan_sequence = Some 1,
           orphan_at = Some 2\<rparr>]\<rparr>)) = Some []"
proof -
  have a: "migrateTree no_failure
      \<lparr>src_tree_1 = Some [\<lparr>branch_version = None, branch_sequence = Some 1,
           branch_bytes = [1], branch_orphaned = Some False\<rparr>],
       src_root = Some [], src_orphan = Some []\<rparr>
    = (Success, \<lparr>dst_root = Some [], dst_branch_orphan = Some [], dst_shards = [],
        dst_attached = False,
        dst_executed = [Create_Table T_branch_orphan, Create_Table T_root, Attach_Old,
          Insert_Branch_Orphan, Detach_Old]\<rparr>)"
    by code_simp
  have b: "migrateTree no_failure
      \<lparr>src_tree_1 = Some [], src_root = Some [],
       src_orphan = Some [\<lparr>orphan_version = Some 1, orphan_sequence = Some 1,
           orphan_at = Some 2\<rparr>]\<rparr>
    = (Success, \<lparr>dst_root = Some [], dst_branch_orphan = Some [], dst_shards = [],
        dst_attached = False,
        dst_executed = [Create_Table T_branch_orphan, Create_Table T_root, Attach_Old,
          Detach_Old]\<rparr>)"
    by code_simp
  show ?thesis unfolding a b by simp
qed

text \<open>
  C1, amended: when the migration of a tree store returns success and every non-NULL
  version of tree_1 lies between 1 and 9223372036854500000, the rows of all shard tables
  together are the rows of tree_1 that have a version, deduplicated by (version,
  sequence) with the first row kept; the shard tables have distinct identifiers, no table
  holds a row twice, and a row is only in the table of its own shard, so each of these
  rows is in exactly one shard table; the root table is the source's; and the
  branch_orphan table is the source's orphan table unless tree_1 and root are both empty,
  when it is left empty.
\<close>

theorem migrateTree_shards_hold_source_rows:
  assumes "migrateTree fails src = (Success, dst)"
    and "src_tree_1 src = Some rows"
    and "\<forall>v \<in> set (non_null (map branch_version rows)).
      1 \<le> sint v \<and> sint v \<le> 9223372036854500000"
  shows "set (concat (map snd (dst_shards dst)))
      = set (first_in_partition [] (filter (\<lambda>r. branch_version r \<noteq> None) rows))
    \<and> distinct (map fst (dst_shards dst))
    \<and> (\<forall>(i, t) \<in> set (dst_shards dst).
          distinct t \<and> (\<forall>r \<in> set t. \<exists>v. branch_version r = Some v \<and> ToShardID v = i))
    \<and> dst_root dst = src_root src
    \<and> dst_branch_orphan dst
        = (if rows = [] \<and> src_root src = Some [] then Some [] else src_orphan src)"
proof -
  let ?D = "first_in_partition [] rows"
  let ?P = "\<lambda>i r. \<exists>v. branch_version r = Some v \<and> ToShardID v = i"
  from migrateTree_Success [OF assms(1)] assms(2) obtain roots where
    s: "src_root src = Some roots" "dst_shards dst = copied_shards rows"
      "dst_root dst = Some roots"
      "dst_branch_orphan dst = (if rows = [] \<and> roots = [] then Some [] else src_orphan src)"
    by auto
  from copied_shards_bounded [OF assms(3)] obtain ids where
    c: "copied_shards rows = map (\<lambda>i. (i, filter (?P i) ?D)) ids"
      and dist: "distinct ids"
      and cover: "\<forall>v \<in> set (non_null (map branch_version rows)). ToShardID v \<in> set ids"
    by blast
  have sh: "dst_shards dst = map (\<lambda>i. (i, filter (?P i) ?D)) ids" using s(2) c by simp
  have "set (concat (map snd (dst_shards dst))) = {r \<in> set ?D. branch_version r \<noteq> None}"
  proof (intro set_eqI iffI)
    fix r assume "r \<in> set (concat (map snd (dst_shards dst)))"
    then show "r \<in> {r \<in> set ?D. branch_version r \<noteq> None}"
      unfolding sh by auto
  next
    fix r assume "r \<in> {r \<in> set ?D. branch_version r \<noteq> None}"
    then obtain v where r: "r \<in> set ?D" "branch_version r = Some v" by auto
    then have "r \<in> set rows" using first_in_partition_subset by blast
    then have "v \<in> set (non_null (map branch_version rows))"
      using r(2) by (force simp: set_non_null)
    then have "ToShardID v \<in> set ids" using cover by simp
    then show "r \<in> set (concat (map snd (dst_shards dst)))"
      unfolding sh using r by auto
  qed
  also have "\<dots> = set (filter (\<lambda>r. branch_version r \<noteq> None) ?D)" by auto
  also have "\<dots> = set (first_in_partition [] (filter (\<lambda>r. branch_version r \<noteq> None) rows))"
    by (simp only: first_in_partition_versions)
  finally have u: "set (concat (map snd (dst_shards dst)))
      = set (first_in_partition [] (filter (\<lambda>r. branch_version r \<noteq> None) rows))" .
  have f: "distinct (map fst (dst_shards dst))" using dist by (simp add: sh comp_def)
  have t: "\<forall>(i, t) \<in> set (dst_shards dst).
      distinct t \<and> (\<forall>r \<in> set t. \<exists>v. branch_version r = Some v \<and> ToShardID v = i)"
    unfolding sh by (auto simp: first_in_partition_distinct_rows)
  show ?thesis using u f t s by simp
qed

theorem migrateTree_shards_hold_source_rows_witness:
  "set (concat (map snd
      [(1, [\<lparr>branch_version = Some 7, branch_sequence = Some 1, branch_bytes = [1],
              branch_orphaned = Some False\<rparr>]),
       (2, [\<lparr>branch_version = Some 500001, branch_sequence = Some 1, branch_bytes = [2],
              branch_orphaned = Some False\<rparr>])]))
     = set (first_in_partition [] (filter (\<lambda>r. branch_version r \<noteq> None)
         [\<lparr>branch_version = Some 7, branch_sequence = Some 1, branch_bytes = [1],
             branch_orphaned = Some False\<rparr>,
          \<lparr>branch_version = None, branch_sequence = Some 4, branch_bytes = [],
             branch_orphaned = None\<rparr>,
          \<lparr>branch_version = Some 500001, branch_sequence = Some 1, branch_bytes = [2],
             branch_orphaned = Some False\<rparr>,
          \<lparr>branch_version = Some 7, branch_sequence = Some 1, branch_bytes = [3],
             branch_orphaned = Some True\<rparr>]))"
proof -
  let ?r1 = "\<lparr>branch_version = Some 7, branch_sequence = Some 1, branch_bytes = [1],
          branch_orphaned = Some False\<rparr>"
  let ?r0 = "\<lparr>branch_version = None, branch_sequence = Some 4, branch_bytes = [],
          branch_orphaned = None\<rparr>"
  let ?r2 = "\<lparr>branch_version = Some 500001, branch_sequence = Some 1, branch_bytes = [2],
          branch_orphaned = Some False\<rparr>"
  let ?r3 = "\<lparr>branch_version = Some 7, branch_sequence = Some 1, branch_bytes = [3],
          branch_orphaned = Some True\<rparr>"
  let ?root = "\<lparr>root_version = Some 500001, root_node_version = Some 500001,
      root_node_sequence = Some 1, root_bytes = [9]\<rparr>"
  let ?src = "\<lparr>src_tree_1 = Some [?r1, ?r0, ?r2, ?r3], src_root = Some [?root],
      src_orphan = Some []\<rparr>"
  let ?dst = "\<lparr>dst_root = Some [?root], dst_branch_orphan = Some [],
      dst_shards = [(1, [?r1]), (2, [?r2])], dst_attached = False,
      dst_executed = [Create_Table T_branch_orphan, Create_Table T_root, Attach_Old,
        Insert_Root, Insert_Branch_Orphan, Create_Table (T_tree 1), Create_Table (T_tree 2),
        Insert_Shard 1, Insert_Shard 2, Detach_Old]\<rparr>"
  have h1: "migrateTree no_failure ?src = (Success, ?dst)" by code_simp
  have h2: "src_tree_1 ?src = Some [?r1, ?r0, ?r2, ?r3]" by simp
  have h3: "\<forall>v \<in> set (non_null (map branch_version [?r1, ?r0, ?r2, ?r3])).
      1 \<le> sint v \<and> sint v \<le> 9223372036854500000"
    by simp
  show ?thesis
    using migrateTree_shards_hold_source_rows [OF h1 h2 h3] by simp
qed

text \<open>
  Rows whose version is not positive are outside the amended claim. \<open>ToShardID\<close> and
  \<open>calculateShardRange\<close> give them shard 1 and the table tree_1 is created for them, but
  the copy window of shard 1 starts at version 1: a table with a row of version 0 and a
  row of version 600000 is migrated with success into an empty tree_1.
\<close>

lemma migrateTree_version_zero_not_copied:
  "migrateTree no_failure
      \<lparr>src_tree_1 = Some [\<lparr>branch_version = Some 0, branch_sequence = Some 1,
           branch_bytes = [1], branch_orphaned = Some False\<rparr>,
         \<lparr>branch_version = Some 600000, branch_sequence = Some 1,
           branch_bytes = [2], branch_orphaned = Some False\<rparr>],
       src_root = Some [], src_orphan = Some []\<rparr>
    = (Success, \<lparr>dst_root = Some [], dst_branch_orphan = Some [], dst_shards = [(1, [])],
        dst_attached = False,
        dst_executed = [Create_Table T_branch_orphan, Create_Table T_root, Attach_Old,
          Insert_Branch_Orphan, Create_Table (T_tree 1), Insert_Shard 1, Detach_Old]\<rparr>)"
  by code_simp

section \<open>Failures of the tree migration\<close>

lemma run_stmt_executed:
  "run_stmt src s d = Some d' \<Longrightarrow> dst_executed d' = dst_executed d"
  by (induction src s d rule: run_stmt.induct) (auto split: option.splits if_splits)

lemma exec_Continue_log:
  assumes "exec fails src s d = Continue d'"
  shows "dst_executed d' = dst_executed d @ [s]"
  using exec_Continue [OF assms] run_stmt_executed by fastforce

lemma exec_fails_Fatal:
  assumes "fails (Op_Exec s) \<or> run_stmt src s (d\<lparr>dst_executed := dst_executed d @ [s]\<rparr>) = None"
  shows "exec fails src s d = Fatal s (d\<lparr>dst_executed := dst_executed d @ [s]\<rparr>)"
  using assms by (auto simp: exec_def Let_def)

lemma exec_Fatal_cause:
  assumes "exec fails src s d = Fatal s' d'"
  shows "s' = s \<and> last (dst_executed d') = s \<and> (fails (Op_Exec s) \<or> run_stmt src s d' = None)"
  using assms by (auto simp: exec_def Let_def split: if_splits option.splits)

lemma create_shard_tables_Fatal:
  assumes "create_shard_tables fails src ids d = Fatal s d'"
  shows "last (dst_executed d') = s \<and> (fails (Op_Exec s) \<or> run_stmt src s d' = None)"
  using assms
proof (induction ids arbitrary: d)
  case Nil
  then show ?case by simp
next
  case (Cons i ids)
  show ?case
  proof (cases "exec fails src (Create_Table (T_tree i)) d")
    case (Fatal s1 d1)
    then show ?thesis using Cons.prems exec_Fatal_cause [OF Fatal] by simp
  next
    case (Continue d1)
    then show ?thesis using Cons.prems Cons.IH [of d1] by simp
  qed
qed

lemma migrate_shards_Fatal:
  assumes "migrate_shards fails src ids d = Fatal s d'"
  shows "last (dst_executed d') = s \<and> (fails (Op_Exec s) \<or> run_stmt src s d' = None)"
  using assms
proof (induction ids arbitrary: d)
  case Nil
  then show ?case by simp
next
  case (Cons i ids)
  show ?case
  proof (cases "exec fails src (Insert_Shard i) d")
    case (Fatal s1 d1)
    then show ?thesis using Cons.prems exec_Fatal_cause [OF Fatal] by simp
  next
    case (Continue d1)
    then show ?thesis using Cons.prems Cons.IH [of d1] by simp
  qed
qed

lemma detach_and_return_outcome:
  "detach_and_return fails src d = (out, d') \<Longrightarrow>
     out = Success \<or>
     (out = Process_Fatal Detach_Old \<and> last (dst_executed d') = Detach_Old
       \<and> (fails (Op_Exec Detach_Old) \<or> run_stmt src Detach_Old d' = None))"
  by (auto simp: detach_and_return_def split: exec_result.splits dest: exec_Fatal_cause)

lemma migrate_tree_1_outcome:
  assumes "migrate_tree_1 fails src d = (out, d')"
  shows "out = Success
    \<or> (out = Returned_Error ''failed to query version range from tree_1''
         \<and> version_range fails src = None)
    \<or> (\<exists>s. out = Process_Fatal s \<and> last (dst_executed d') = s
         \<and> (fails (Op_Exec s) \<or> run_stmt src s d' = None))"
proof (cases "version_range fails src")
  case None
  then show ?thesis using assms by (simp add: migrate_tree_1_def)
next
  case (Some ab)
  obtain a b where ab: "ab = (a, b)" by (cases ab)
  show ?thesis
  proof (cases "\<exists>mn mx. a = Some mn \<and> b = Some mx")
    case False
    then have "detach_and_return fails src d = (out, d')"
      using assms Some ab by (auto simp: migrate_tree_1_def split: option.splits)
    then show ?thesis using detach_and_return_outcome by blast
  next
    case True
    then obtain mn mx where m: "a = Some mn" "b = Some mx" by blast
    obtain ids where ids: "calculateShardRange mn mx = Some ids"
      using calculateShardRange_returns by blast
    show ?thesis
    proof (cases "create_shard_tables fails src ids d")
      case (Fatal s d1)
      then show ?thesis
        using assms Some ab m ids create_shard_tables_Fatal [OF Fatal]
        by (simp add: migrate_tree_1_def)
    next
      case (Continue d1)
      show ?thesis
      proof (cases "migrate_shards fails src ids d1")
        case (Fatal s d2)
        then show ?thesis
          using assms Some ab m ids Continue migrate_shards_Fatal [OF Fatal]
          by (simp add: migrate_tree_1_def)
      next
        case c2: (Continue d2)
        then have "detach_and_return fails src d2 = (out, d')"
          using assms Some ab m ids Continue by (simp add: migrate_tree_1_def)
        then show ?thesis using detach_and_return_outcome by blast
      qed
    qed
  qed
qed

lemma migrate_tables_outcome:
  assumes "migrate_tables fails src n m d = (out, d')"
  shows "out = Success
    \<or> (out = Returned_Error ''failed to query version range from tree_1''
         \<and> version_range fails src = None)
    \<or> (\<exists>s. out = Process_Fatal s \<and> last (dst_executed d') = s
         \<and> (fails (Op_Exec s) \<or> run_stmt src s d' = None))"
proof (cases "n = 0 \<and> m = 0")
  case True
  then have "detach_and_return fails src d = (out, d')"
    using assms by (simp add: migrate_tables_def)
  then show ?thesis using detach_and_return_outcome by blast
next
  case False
  show ?thesis
  proof (cases "if m > 0 then exec fails src Insert_Root d else Continue d")
    case (Fatal s d1)
    then have "exec fails src Insert_Root d = Fatal s d1" by (simp split: if_splits)
    then show ?thesis
      using assms False Fatal exec_Fatal_cause [of fails src Insert_Root d s d1]
      by (simp add: migrate_tables_def)
  next
    case (Continue d1)
    show ?thesis
    proof (cases "exec fails src Insert_Branch_Orphan d1")
      case (Fatal s d2)
      then show ?thesis
        using assms False Continue exec_Fatal_cause [OF Fatal]
        by (simp add: migrate_tables_def)
    next
      case c2: (Continue d2)
      then have "(if n > 0 then migrate_tree_1 fails src d2 else detach_and_return fails src d2)
          = (out, d')"
        using assms False Continue by (simp add: migrate_tables_def)
      then show ?thesis
        using migrate_tree_1_outcome [of fails src d2 out d']
          detach_and_return_outcome [of fails src d2 out d']
        by (auto split: if_splits)
    qed
  qed
qed

lemma version_range_None:
  "version_range fails src = None \<longleftrightarrow> fails Op_Version_Range \<or> src_tree_1 src = None"
  by (auto simp: version_range_def Let_def split: option.splits)

lemma count_rows_None:
  "count_rows fails op tbl = None \<longleftrightarrow> fails op \<or> tbl = None"
  by (auto simp: count_rows_def split: option.splits)

lemma migrateTree_outcome:
  assumes "migrateTree fails src = (out, d')"
  shows "out = Success
    \<or> (\<exists>e. out = Returned_Error e
         \<and> (fails Op_MkdirAll \<or> fails Op_Count_Tree \<or> src_tree_1 src = None
              \<or> fails Op_Count_Root \<or> src_root src = None \<or> fails Op_Version_Range))
    \<or> (\<exists>s. out = Process_Fatal s \<and> last (dst_executed d') = s
         \<and> (fails (Op_Exec s) \<or> run_stmt src s d' = None))"
proof (cases "fails Op_MkdirAll")
  case True
  then show ?thesis using assms by (auto simp: migrateTree_def)
next
  case mk: False
  show ?thesis
  proof (cases "exec fails src (Create_Table T_branch_orphan) new_tree_db")
    case (Fatal s d1)
    then show ?thesis
      using assms mk exec_Fatal_cause [OF Fatal] by (simp add: migrateTree_def)
  next
    case c1: (Continue d1)
    show ?thesis
    proof (cases "exec fails src (Create_Table T_root) d1")
      case (Fatal s d2)
      then show ?thesis
        using assms mk c1 exec_Fatal_cause [OF Fatal] by (simp add: migrateTree_def)
    next
      case c2: (Continue d2)
      show ?thesis
      proof (cases "exec fails src Attach_Old d2")
        case (Fatal s d3)
        then show ?thesis
          using assms mk c1 c2 exec_Fatal_cause [OF Fatal] by (simp add: migrateTree_def)
      next
        case c3: (Continue d3)
        show ?thesis
        proof (cases "count_rows fails Op_Count_Tree (src_tree_1 src)")
          case None
          then have "out = Returned_Error ''failed to count rows in tree_1''"
            using assms mk c1 c2 c3 by (simp add: migrateTree_def)
          moreover have "fails Op_Count_Tree \<or> src_tree_1 src = None"
            using None by (simp only: count_rows_None)
          ultimately show ?thesis by blast
        next
          case n: (Some n)
          show ?thesis
          proof (cases "count_rows fails Op_Count_Root (src_root src)")
            case None
            then have "out = Returned_Error ''failed to count rows in root''"
              using assms mk c1 c2 c3 n by (simp add: migrateTree_def)
            moreover have "fails Op_Count_Root \<or> src_root src = None"
              using None by (simp only: count_rows_None)
            ultimately show ?thesis by blast
          next
            case (Some m)
            then have "migrate_tables fails src n m d3 = (out, d')"
              using assms mk c1 c2 c3 n by (simp add: migrateTree_def)
            then show ?thesis
              using migrate_tables_outcome [of fails src n m d3 out d']
              by (auto simp: version_range_None)
          qed
        qed
      qed
    qed
  qed
qed

section \<open>Runs and their logs\<close>

lemma run_all_snoc:
  "run_all fails src (l @ [s]) d0
    = (case run_all fails src l d0 of
         None \<Rightarrow> None
       | Some d \<Rightarrow>
           if fails (Op_Exec s) then None
           else run_stmt src s (d\<lparr>dst_executed := dst_executed d @ [s]\<rparr>))"
  by (induction l arbitrary: d0) (auto split: option.splits)

lemma run_all_not_fails:
  "run_all fails src l d = Some d' \<Longrightarrow> s \<in> set l \<Longrightarrow> \<not> fails (Op_Exec s)"
  by (induction l arbitrary: d) (auto split: if_splits option.splits)

lemma new_tree_db_as_logged: "as_logged fails src new_tree_db"
  by (simp add: as_logged_def new_tree_db_def)

lemma exec_Continue_as_logged:
  assumes "exec fails src s d = Continue d'" "as_logged fails src d"
  shows "as_logged fails src d'"
  using exec_Continue [OF assms(1)] exec_Continue_log [OF assms(1)] assms(2)
  by (simp add: as_logged_def run_all_snoc)

lemma exec_Fatal_ended_at:
  assumes "exec fails src s d = Fatal s' d'" "as_logged fails src d"
  shows "s' = s \<and> ended_at fails src s d'"
proof -
  from assms(1) have f: "s' = s" "d' = d\<lparr>dst_executed := dst_executed d @ [s]\<rparr>"
    "fails (Op_Exec s) \<or> run_stmt src s (d\<lparr>dst_executed := dst_executed d @ [s]\<rparr>) = None"
    by (auto simp: exec_def Let_def split: if_splits option.splits)
  have "run_all fails src (butlast (dst_executed d')) new_tree_db = Some d"
    using assms(2) f(2) by (simp add: as_logged_def)
  then show ?thesis using f by (simp add: ended_at_def)
qed

lemma create_shard_tables_as_logged:
  "create_shard_tables fails src ids d = Continue d' \<Longrightarrow> as_logged fails src d
    \<Longrightarrow> as_logged fails src d'"
  "create_shard_tables fails src ids d = Fatal s d' \<Longrightarrow> as_logged fails src d
    \<Longrightarrow> ended_at fails src s d'"
proof (induction ids arbitrary: d)
  case Nil
  { case 1 then show ?case by simp }
  { case 2 then show ?case by simp }
next
  case (Cons i ids)
  { case 1
    then obtain d1 where e: "exec fails src (Create_Table (T_tree i)) d = Continue d1"
      and r: "create_shard_tables fails src ids d1 = Continue d'"
      by (auto split: exec_result.splits)
    show ?case
      by (rule Cons.IH(1) [OF r exec_Continue_as_logged [OF e 1(2)]]) }
  { case 2
    show ?case
    proof (cases "exec fails src (Create_Table (T_tree i)) d")
      case (Fatal s1 d1)
      then show ?thesis using 2 exec_Fatal_ended_at [OF Fatal 2(2)] by simp
    next
      case (Continue d1)
      then have r: "create_shard_tables fails src ids d1 = Fatal s d'" using 2 by simp
      show ?thesis
        by (rule Cons.IH(2) [OF r exec_Continue_as_logged [OF Continue 2(2)]])
    qed }
qed

lemma migrate_shards_as_logged:
  "migrate_shards fails src ids d = Continue d' \<Longrightarrow> as_logged fails src d
    \<Longrightarrow> as_logged fails src d'"
  "migrate_shards fails src ids d = Fatal s d' \<Longrightarrow> as_logged fails src d
    \<Longrightarrow> ended_at fails src s d'"
proof (induction ids arbitrary: d)
  case Nil
  { case 1 then show ?case by simp }
  { case 2 then show ?case by simp }
next
  case (Cons i ids)
  { case 1
    then obtain d1 where e: "exec fails src (Insert_Shard i) d = Continue d1"
      and r: "migrate_shards fails src ids d1 = Continue d'"
      by (auto split: exec_result.splits)
    show ?case
      by (rule Cons.IH(1) [OF r exec_Continue_as_logged [OF e 1(2)]]) }
  { case 2
    show ?case
    proof (cases "exec fails src (Insert_Shard i) d")
      case (Fatal s1 d1)
      then show ?thesis using 2 exec_Fatal_ended_at [OF Fatal 2(2)] by simp
    next
      case (Continue d1)
      then have r: "migrate_shards fails src ids d1 = Fatal s d'" using 2 by simp
      show ?thesis
        by (rule Cons.IH(2) [OF r exec_Continue_as_logged [OF Continue 2(2)]])
    qed }
qed

lemma detach_and_return_as_logged:
  assumes "detach_and_return fails src d = (out, d')" "as_logged fails src d"
  shows "(out = Success \<and> as_logged fails src d')
    \<or> (\<exists>s. out = Process_Fatal s \<and> ended_at fails src s d')"
proof (cases "exec fails src Detach_Old d")
  case (Fatal s d1)
  then show ?thesis
    using assms exec_Fatal_ended_at [OF Fatal assms(2)] by (auto simp: detach_and_return_def)
next
  case (Continue d1)
  then show ?thesis
    using assms exec_Continue_as_logged [OF Continue assms(2)]
    by (auto simp: detach_and_return_def)
qed

lemma migrate_tree_1_as_logged:
  assumes "migrate_tree_1 fails src d = (out, d')" "as_logged fails src d"
  shows "((out = Success \<or> (\<exists>e. out = Returned_Error e)) \<and> as_logged fails src d')
    \<or> (\<exists>s. out = Process_Fatal s \<and> ended_at fails src s d')"
proof (cases "version_range fails src")
  case None
  then show ?thesis using assms by (auto simp: migrate_tree_1_def)
next
  case (Some ab)
  obtain a b where ab: "ab = (a, b)" by (cases ab)
  show ?thesis
  proof (cases "\<exists>mn mx. a = Some mn \<and> b = Some mx")
    case False
    then have "detach_and_return fails src d = (out, d')"
      using assms Some ab by (auto simp: migrate_tree_1_def split: option.splits)
    then show ?thesis using detach_and_return_as_logged [OF _ assms(2)] by blast
  next
    case True
    then obtain mn mx where m: "a = Some mn" "b = Some mx" by blast
    obtain ids where ids: "calculateShardRange mn mx = Some ids"
      using calculateShardRange_returns by blast
    show ?thesis
    proof (cases "create_shard_tables fails src ids d")
      case (Fatal s d1)
      then have "out = Process_Fatal s" "d' = d1"
        using assms Some ab m ids by (simp_all add: migrate_tree_1_def)
      then show ?thesis using create_shard_tables_as_logged(2) [OF Fatal assms(2)] by simp
    next
      case (Continue d1)
      note l1 = create_shard_tables_as_logged(1) [OF Continue assms(2)]
      show ?thesis
      proof (cases "migrate_shards fails src ids d1")
        case (Fatal s d2)
        then have "out = Process_Fatal s" "d' = d2"
          using assms Some ab m ids Continue by (simp_all add: migrate_tree_1_def)
        then show ?thesis using migrate_shards_as_logged(2) [OF Fatal l1] by simp
      next
        case c2: (Continue d2)
        note l2 = migrate_shards_as_logged(1) [OF c2 l1]
        have "detach_and_return fails src d2 = (out, d')"
          using assms Some ab m ids Continue c2 by (simp add: migrate_tree_1_def)
        then show ?thesis using detach_and_return_as_logged [OF _ l2] by blast
      qed
    qed
  qed
qed

lemma migrate_tables_as_logged:
  assumes "migrate_tables fails src n m d = (out, d')" "as_logged fails src d"
  shows "((out = Success \<or> (\<exists>e. out = Returned_Error e)) \<and> as_logged fails src d')
    \<or> (\<exists>s. out = Process_Fatal s \<and> ended_at fails src s d')"
proof (cases "n = 0 \<and> m = 0")
  case True
  then have "detach_and_return fails src d = (out, d')"
    using assms by (simp add: migrate_tables_def)
  then show ?thesis using detach_and_return_as_logged [OF _ assms(2)] by blast
next
  case False
  show ?thesis
  proof (cases "if m > 0 then exec fails src Insert_Root d else Continue d")
    case (Fatal s d1)
    then have f: "exec fails src Insert_Root d = Fatal s d1" by (simp split: if_splits)
    have "out = Process_Fatal s" "d' = d1"
      using assms False Fatal by (simp_all add: migrate_tables_def)
    then show ?thesis using exec_Fatal_ended_at [OF f assms(2)] by simp
  next
    case (Continue d1)
    have l1: "as_logged fails src d1"
      using Continue assms(2) exec_Continue_as_logged [of fails src Insert_Root d d1]
      by (auto split: if_splits)
    show ?thesis
    proof (cases "exec fails src Insert_Branch_Orphan d1")
      case (Fatal s d2)
      then have "out = Process_Fatal s" "d' = d2"
        using assms False Continue by (simp_all add: migrate_tables_def)
      then show ?thesis using exec_Fatal_ended_at [OF Fatal l1] by simp
    next
      case c2: (Continue d2)
      note l2 = exec_Continue_as_logged [OF c2 l1]
      have "(if n > 0 then migrate_tree_1 fails src d2 else detach_and_return fails src d2)
          = (out, d')"
        using assms False Continue c2 by (simp add: migrate_tables_def)
      then show ?thesis
        using migrate_tree_1_as_logged [of fails src d2 out d', OF _ l2]
          detach_and_return_as_logged [of fails src d2 out d', OF _ l2]
        by (auto split: if_splits)
    qed
  qed
qed

lemma migrateTree_as_logged:
  assumes "migrateTree fails src = (out, d')"
  shows "((out = Success \<or> (\<exists>e. out = Returned_Error e)) \<and> as_logged fails src d')
    \<or> (\<exists>s. out = Process_Fatal s \<and> ended_at fails src s d')"
proof (cases "fails Op_MkdirAll")
  case True
  then show ?thesis using assms by (auto simp: migrateTree_def new_tree_db_as_logged)
next
  case mk: False
  show ?thesis
  proof (cases "exec fails src (Create_Table T_branch_orphan) new_tree_db")
    case (Fatal s d1)
    then show ?thesis
      using assms mk exec_Fatal_ended_at [OF Fatal new_tree_db_as_logged]
      by (auto simp: migrateTree_def)
  next
    case c1: (Continue d1)
    note l1 = exec_Continue_as_logged [OF c1 new_tree_db_as_logged]
    show ?thesis
    proof (cases "exec fails src (Create_Table T_root) d1")
      case (Fatal s d2)
      then show ?thesis
        using assms mk c1 exec_Fatal_ended_at [OF Fatal l1] by (auto simp: migrateTree_def)
    next
      case c2: (Continue d2)
      note l2 = exec_Continue_as_logged [OF c2 l1]
      show ?thesis
      proof (cases "exec fails src Attach_Old d2")
        case (Fatal s d3)
        then show ?thesis
          using assms mk c1 c2 exec_Fatal_ended_at [OF Fatal l2] by (auto simp: migrateTree_def)
      next
        case c3: (Continue d3)
        note l3 = exec_Continue_as_logged [OF c3 l2]
        show ?thesis
        proof (cases "count_rows fails Op_Count_Tree (src_tree_1 src)")
          case None
          then show ?thesis using assms mk c1 c2 c3 l3 by (auto simp: migrateTree_def)
        next
          case n: (Some n)
          show ?thesis
          proof (cases "count_rows fails Op_Count_Root (src_root src)")
            case None
            then show ?thesis using assms mk c1 c2 c3 n l3 by (auto simp: migrateTree_def)
          next
            case (Some m)
            then have "migrate_tables fails src n m d3 = (out, d')"
              using assms mk c1 c2 c3 n by (simp add: migrateTree_def)
            then show ?thesis by (rule migrate_tables_as_logged [OF _ l3])
          qed
        qed
      qed
    qed
  qed
qed

text \<open>
  C8, as the code has it: the copy of the rows of a shard fails on a row whose sequence
  is NULL (the key columns of the target table are NOT NULL), and the process is ended
  there; no error is returned to the caller.
\<close>

theorem migrateTree_row_copy_failure_is_fatal:
  "fst (migrateTree no_failure
      \<lparr>src_tree_1 = Some [\<lparr>branch_version = Some 5, branch_sequence = None,
           branch_bytes = [1], branch_orphaned = Some False\<rparr>],
       src_root = Some [], src_orphan = Some []\<rparr>) = Process_Fatal (Insert_Shard 1)"
  by code_simp

text \<open>
  C8, amended: every statement sent to the destination through \<open>exec\<close> (the creation of a
  table, ATTACH, the three kinds of INSERT ... SELECT, DETACH) ends the process when it
  fails: a statement of the run that fails for an outside reason is the statement the
  process ended at. A run that returns, with success or with an error, has a log whose
  statements all succeeded, one after the other, and left the destination; a run that
  ends the process ended at its last statement, the first one that failed. An error is
  returned to the caller only when the target directory cannot be created or a query on
  the source (the two row counts, the version range) fails. Every run ends in one of
  these ways.
\<close>

theorem migrateTree_exec_failure_is_fatal:
  "(\<forall>s \<in> set (dst_executed (snd (migrateTree fails src))).
       fails (Op_Exec s) \<longrightarrow> fst (migrateTree fails src) = Process_Fatal s)
   \<and> (fst (migrateTree fails src) = Success \<or> (\<exists>e. fst (migrateTree fails src) = Returned_Error e)
      \<longrightarrow> as_logged fails src (snd (migrateTree fails src)))
   \<and> (\<forall>s. fst (migrateTree fails src) = Process_Fatal s \<longrightarrow>
         ended_at fails src s (snd (migrateTree fails src)))
   \<and> (\<forall>e. fst (migrateTree fails src) = Returned_Error e \<longrightarrow>
         fails Op_MkdirAll \<or> fails Op_Count_Tree \<or> src_tree_1 src = None
         \<or> fails Op_Count_Root \<or> src_root src = None \<or> fails Op_Version_Range)
   \<and> fst (migrateTree fails src) \<noteq> Does_Not_Return"
proof -
  obtain out d' where r: "migrateTree fails src = (out, d')" by (cases "migrateTree fails src")
  have f: "out = Process_Fatal s" if "s \<in> set (dst_executed d')" "fails (Op_Exec s)" for s
    using migrateTree_as_logged [OF r]
  proof
    assume "(out = Success \<or> (\<exists>e. out = Returned_Error e)) \<and> as_logged fails src d'"
    then have "run_all fails src (dst_executed d') new_tree_db = Some d'"
      by (simp add: as_logged_def)
    from run_all_not_fails [OF this that(1)] that(2) show ?thesis by simp
  next
    assume "\<exists>s. out = Process_Fatal s \<and> ended_at fails src s d'"
    then obtain s' d where s': "out = Process_Fatal s'"
      and b: "run_all fails src (butlast (dst_executed d')) new_tree_db = Some d"
      and l: "dst_executed d' = dst_executed d @ [s']"
      by (auto simp: ended_at_def split: option.splits)
    have "s \<notin> set (butlast (dst_executed d'))"
      using run_all_not_fails [OF b] that(2) by blast
    then have "s = s'" using that(1) l by auto
    then show ?thesis using s' by simp
  qed
  have rest: "(out = Success \<or> (\<exists>e. out = Returned_Error e) \<longrightarrow> as_logged fails src d')
      \<and> (\<forall>s. out = Process_Fatal s \<longrightarrow> ended_at fails src s d')
      \<and> (\<forall>e. out = Returned_Error e \<longrightarrow>
           fails Op_MkdirAll \<or> fails Op_Count_Tree \<or> src_tree_1 src = None
           \<or> fails Op_Count_Root \<or> src_root src = None \<or> fails Op_Version_Range)
      \<and> out \<noteq> Does_Not_Return"
    using migrateTree_outcome [OF r] migrateTree_as_logged [OF r] by auto
  show ?thesis
    unfolding r fst_conv snd_conv using f rest by blast
qed

theorem migrateTree_exec_failure_is_fatal_witness:
  "fst (migrateTree no_failure
      \<lparr>src_tree_1 = Some [\<lparr>branch_version = Some 5, branch_sequence = None,
           branch_bytes = [1], branch_orphaned = Some False\<rparr>],
       src_root = Some [\<lparr>root_version = Some 5, root_node_version = Some 5,
           root_node_sequence = Some 1, root_bytes = [9]\<rparr>],
       src_orphan = Some []\<rparr>) = Process_Fatal (Insert_Shard 1)
   \<and> ended_at no_failure
      \<lparr>src_tree_1 = Some [\<lparr>branch_version = Some 5, branch_sequence = None,
           branch_bytes = [1], branch_orphaned = Some False\<rparr>],
       src_root = Some [\<lparr>root_version = Some 5, root_node_version = Some 5,
           root_node_sequence = Some 1, root_bytes = [9]\<rparr>],
       src_orphan = Some []\<rparr>
      (Insert_Shard 1)
      (snd (migrateTree no_failure
      \<lparr>src_tree_1 = Some [\<lparr>branch_version = Some 5, branch_sequence = None,
           branch_bytes = [1], branch_orphaned = Some False\<rparr>],
       src_root = Some [\<lparr>root_version = Some 5, root_node_version = Some 5,
           root_node_sequence = Some 1, root_bytes = [9]\<rparr>],
       src_orphan = Some []\<rparr>))
   \<and> dst_executed (snd (migrateTree no_failure
      \<lparr>src_tree_1 = Some [\<lparr>branch_version = Some 5, branch_sequence = None,
           branch_bytes = [1], branch_orphaned = Some False\<rparr>],
       src_root = Some [\<lparr>root_version = Some 5, root_node_version = Some 5,
           root_node_sequence = Some 1, root_bytes = [9]\<rparr>],
       src_orphan = Some []\<rparr>))
     = [Create_Table T_branch_orphan, Create_Table T_root, Attach_Old, Insert_Root,
        Insert_Branch_Orphan, Create_Table (T_tree 1), Insert_Shard 1]
   \<and> fst (migrateTree (fails_only (Op_Exec Insert_Branch_Orphan))
      \<lparr>src_tree_1 = Some [\<lparr>branch_version = Some 5, branch_sequence = None,
           branch_bytes = [1], branch_orphaned = Some False\<rparr>],
       src_root = Some [\<lparr>root_version = Some 5, root_node_version = Some 5,
           root_node_sequence = Some 1, root_bytes = [9]\<rparr>],
       src_orphan = Some []\<rparr>)
     = Process_Fatal Insert_Branch_Orphan
   \<and> dst_executed (snd (migrateTree (fails_only (Op_Exec Insert_Branch_Orphan))
      \<lparr>src_tree_1 = Some [\<lparr>branch_version = Some 5, branch_sequence = None,
           branch_bytes = [1], branch_orphaned = Some False\<rparr>],
       src_root = Some [\<lparr>root_version = Some 5, root_node_version = Some 5,
           root_node_sequence = Some 1, root_bytes = [9]\<rparr>],
       src_orphan = Some []\<rparr>))
     = [Create_Table T_branch_orphan, Create_Table T_root, Attach_Old, Insert_Root,
        Insert_Branch_Orphan]"
proof -
  let ?src = "\<lparr>src_tree_1 = Some [\<lparr>branch_version = Some 5, branch_sequence = None,
           branch_bytes = [1], branch_orphaned = Some False\<rparr>],
       src_root = Some [\<lparr>root_version = Some 5, root_node_version = Some 5,
           root_node_sequence = Some 1, root_bytes = [9]\<rparr>],
       src_orphan = Some []\<rparr>"
  have f: "fst (migrateTree no_failure ?src) = Process_Fatal (Insert_Shard 1)"
    by code_simp
  have l: "dst_executed (snd (migrateTree no_failure ?src))
     = [Create_Table T_branch_orphan, Create_Table T_root, Attach_Old, Insert_Root,
        Insert_Branch_Orphan, Create_Table (T_tree 1), Insert_Shard 1]"
    by code_simp
  have l2: "dst_executed (snd (migrateTree (fails_only (Op_Exec Insert_Branch_Orphan)) ?src))
     = [Create_Table T_branch_orphan, Create_Table T_root, Attach_Old, Insert_Root,
        Insert_Branch_Orphan]"
    by code_simp
  have ff: "fails_only (Op_Exec Insert_Branch_Orphan) (Op_Exec Insert_Branch_Orphan)"
    by (simp add: fails_only_def)
  have f2: "fst (migrateTree (fails_only (Op_Exec Insert_Branch_Orphan)) ?src)
     = Process_Fatal Insert_Branch_Orphan"
    using migrateTree_exec_failure_is_fatal
      [of "fails_only (Op_Exec Insert_Branch_Orphan)" ?src] l2 ff
    by simp
  show ?thesis
    using migrateTree_exec_failure_is_fatal [of no_failure ?src] f l l2 f2 by simp
qed

section \<open>The orphan copy and tables without versions\<close>

lemma run_stmt_branch_orphan:
  "run_stmt src s d = Some d' \<Longrightarrow> s \<noteq> Insert_Branch_Orphan
    \<Longrightarrow> s \<noteq> Create_Table T_branch_orphan \<Longrightarrow> dst_branch_orphan d' = dst_branch_orphan d"
  by (induction src s d rule: run_stmt.induct) (auto split: option.splits if_splits)

lemma exec_Continue_branch_orphan:
  assumes "exec fails src s d = Continue d'" "s \<noteq> Insert_Branch_Orphan"
    "s \<noteq> Create_Table T_branch_orphan"
  shows "dst_branch_orphan d' = dst_branch_orphan d"
  using exec_Continue [OF assms(1)] run_stmt_branch_orphan [OF _ assms(2,3)] by fastforce

lemma exec_Fatal_state:
  assumes "exec fails src s d = Fatal s' d'"
  shows "s' = s" "dst_executed d' = dst_executed d @ [s]"
    "dst_branch_orphan d' = dst_branch_orphan d"
  using exec_Fatal [OF assms] by simp_all

lemma create_shard_tables_later:
  "create_shard_tables fails src ids d = Continue d' \<Longrightarrow>
     \<exists>l. dst_executed d' = dst_executed d @ l \<and> Insert_Branch_Orphan \<notin> set l
       \<and> dst_branch_orphan d' = dst_branch_orphan d"
  "create_shard_tables fails src ids d = Fatal s d' \<Longrightarrow>
     \<exists>l. dst_executed d' = dst_executed d @ l \<and> Insert_Branch_Orphan \<notin> set l \<and> s \<in> set l
       \<and> dst_branch_orphan d' = dst_branch_orphan d"
proof (induction ids arbitrary: d)
  case Nil
  { case 1 then show ?case by simp }
  { case 2 then show ?case by simp }
next
  case (Cons i ids)
  { case 1
    then obtain d1 where e: "exec fails src (Create_Table (T_tree i)) d = Continue d1"
      and r: "create_shard_tables fails src ids d1 = Continue d'"
      by (auto split: exec_result.splits)
    from Cons.IH(1) [OF r] obtain l where
      "dst_executed d' = dst_executed d1 @ l" "Insert_Branch_Orphan \<notin> set l"
      "dst_branch_orphan d' = dst_branch_orphan d1" by blast
    then show ?case
      using exec_Continue_log [OF e] exec_Continue_branch_orphan [OF e] by simp }
  { case 2
    show ?case
    proof (cases "exec fails src (Create_Table (T_tree i)) d")
      case (Fatal s1 d1)
      then show ?thesis using 2 exec_Fatal_state [OF Fatal] by auto
    next
      case (Continue d1)
      then have r: "create_shard_tables fails src ids d1 = Fatal s d'" using 2 by simp
      from Cons.IH(2) [OF r] obtain l where
        "dst_executed d' = dst_executed d1 @ l" "Insert_Branch_Orphan \<notin> set l" "s \<in> set l"
        "dst_branch_orphan d' = dst_branch_orphan d1" by blast
      then show ?thesis
        using exec_Continue_log [OF Continue] exec_Continue_branch_orphan [OF Continue] by simp
    qed }
qed

lemma migrate_shards_later:
  "migrate_shards fails src ids d = Continue d' \<Longrightarrow>
     \<exists>l. dst_executed d' = dst_executed d @ l \<and> Insert_Branch_Orphan \<notin> set l
       \<and> dst_branch_orphan d' = dst_branch_orphan d"
  "migrate_shards fails src ids d = Fatal s d' \<Longrightarrow>
     \<exists>l. dst_executed d' = dst_executed d @ l \<and> Insert_Branch_Orphan \<notin> set l \<and> s \<in> set l
       \<and> dst_branch_orphan d' = dst_branch_orphan d"
proof (induction ids arbitrary: d)
  case Nil
  { case 1 then show ?case by simp }
  { case 2 then show ?case by simp }
next
  case (Cons i ids)
  { case 1
    then obtain d1 where e: "exec fails src (Insert_Shard i) d = Continue d1"
      and r: "migrate_shards fails src ids d1 = Continue d'"
      by (auto split: exec_result.splits)
    from Cons.IH(1) [OF r] obtain l where
      "dst_executed d' = dst_executed d1 @ l" "Insert_Branch_Orphan \<notin> set l"
      "dst_branch_orphan d' = dst_branch_orphan d1" by blast
    then show ?case
      using exec_Continue_log [OF e] exec_Continue_branch_orphan [OF e] by simp }
  { case 2
    show ?case
    proof (cases "exec fails src (Insert_Shard i) d")
      case (Fatal s1 d1)
      then show ?thesis using 2 exec_Fatal_state [OF Fatal] by auto
    next
      case (Continue d1)
      then have r: "migrate_shards fails src ids d1 = Fatal s d'" using 2 by simp
      from Cons.IH(2) [OF r] obtain l where
        "dst_executed d' = dst_executed d1 @ l" "Insert_Branch_Orphan \<notin> set l" "s \<in> set l"
        "dst_branch_orphan d' = dst_branch_orphan d1" by blast
      then show ?thesis
        using exec_Continue_log [OF Continue] exec_Continue_branch_orphan [OF Continue] by simp
    qed }
qed

lemma detach_and_return_later:
  assumes "detach_and_return fails src d = (out, d')"
  shows "(\<exists>l. dst_executed d' = dst_executed d @ l \<and> Insert_Branch_Orphan \<notin> set l
        \<and> (\<forall>s. out = Process_Fatal s \<longrightarrow> s \<in> set l))
    \<and> dst_branch_orphan d' = dst_branch_orphan d"
proof (cases "exec fails src Detach_Old d")
  case (Fatal s d1)
  then show ?thesis
    using assms exec_Fatal_state [OF Fatal] by (auto simp: detach_and_return_def)
next
  case (Continue d1)
  then show ?thesis
    using assms exec_Continue_log [OF Continue] exec_Continue_branch_orphan [OF Continue]
    by (auto simp: detach_and_return_def)
qed

lemma migrate_tree_1_later:
  assumes "migrate_tree_1 fails src d = (out, d')"
  shows "(\<exists>l. dst_executed d' = dst_executed d @ l \<and> Insert_Branch_Orphan \<notin> set l
        \<and> (\<forall>s. out = Process_Fatal s \<longrightarrow> s \<in> set l))
    \<and> dst_branch_orphan d' = dst_branch_orphan d"
proof (cases "version_range fails src")
  case None
  then show ?thesis using assms by (auto simp: migrate_tree_1_def)
next
  case (Some ab)
  obtain a b where ab: "ab = (a, b)" by (cases ab)
  show ?thesis
  proof (cases "\<exists>mn mx. a = Some mn \<and> b = Some mx")
    case False
    then have "detach_and_return fails src d = (out, d')"
      using assms Some ab by (auto simp: migrate_tree_1_def split: option.splits)
    then show ?thesis by (rule detach_and_return_later)
  next
    case True
    then obtain mn mx where m: "a = Some mn" "b = Some mx" by blast
    obtain ids where ids: "calculateShardRange mn mx = Some ids"
      using calculateShardRange_returns by blast
    show ?thesis
    proof (cases "create_shard_tables fails src ids d")
      case (Fatal s d1)
      then have "out = Process_Fatal s" "d' = d1"
        using assms Some ab m ids by (simp_all add: migrate_tree_1_def)
      then show ?thesis using create_shard_tables_later(2) [OF Fatal] by auto
    next
      case (Continue d1)
      from create_shard_tables_later(1) [OF Continue] obtain l1 where
        l1: "dst_executed d1 = dst_executed d @ l1" "Insert_Branch_Orphan \<notin> set l1"
          "dst_branch_orphan d1 = dst_branch_orphan d" by blast
      show ?thesis
      proof (cases "migrate_shards fails src ids d1")
        case (Fatal s d2)
        then have o: "out = Process_Fatal s" "d' = d2"
          using assms Some ab m ids Continue by (simp_all add: migrate_tree_1_def)
        from migrate_shards_later(2) [OF Fatal] obtain l2 where
          "dst_executed d2 = dst_executed d1 @ l2" "Insert_Branch_Orphan \<notin> set l2" "s \<in> set l2"
          "dst_branch_orphan d2 = dst_branch_orphan d1" by blast
        then show ?thesis using o l1 by auto
      next
        case c2: (Continue d2)
        from migrate_shards_later(1) [OF c2] obtain l2 where
          l2: "dst_executed d2 = dst_executed d1 @ l2" "Insert_Branch_Orphan \<notin> set l2"
            "dst_branch_orphan d2 = dst_branch_orphan d1" by blast
        have "detach_and_return fails src d2 = (out, d')"
          using assms Some ab m ids Continue c2 by (simp add: migrate_tree_1_def)
        from detach_and_return_later [OF this] obtain l3 where
          "dst_executed d' = dst_executed d2 @ l3" "Insert_Branch_Orphan \<notin> set l3"
          "\<forall>s. out = Process_Fatal s \<longrightarrow> s \<in> set l3"
          "dst_branch_orphan d' = dst_branch_orphan d2" by blast
        then show ?thesis using l1 l2 by auto
      qed
    qed
  qed
qed

lemma non_null_all_None: "list_all (\<lambda>x. x = None) xs \<Longrightarrow> non_null xs = []"
  by (induction xs rule: non_null.induct) simp_all

lemma migrate_tables_after_orphan_copy:
  assumes nf: "\<And>op. \<not> fails op"
    and src: "src_root src = Some roots" "src_orphan src = Some orphans"
    and roots: "list_all (\<lambda>r. root_key r \<noteq> None) roots" "distinct (map root_key roots)"
    and orphans: "list_all (\<lambda>r. orphan_key r \<noteq> None) orphans" "distinct (map orphan_key orphans)"
    and d: "dst_root d = Some []" "dst_branch_orphan d = Some []" "dst_attached d"
    and some: "n \<noteq> 0 \<or> roots \<noteq> []"
  shows "\<exists>d2. dst_branch_orphan d2 = Some orphans \<and> dst_shards d2 = dst_shards d
      \<and> dst_attached d2 \<and> Insert_Branch_Orphan \<in> set (dst_executed d2)
      \<and> migrate_tables fails src n (length roots) d
        = (if n > 0 then migrate_tree_1 fails src d2 else detach_and_return fails src d2)"
proof (cases "roots = []")
  case True
  let ?d2 = "d\<lparr>dst_executed := dst_executed d @ [Insert_Branch_Orphan],
      dst_branch_orphan := Some orphans\<rparr>"
  have o: "exec fails src Insert_Branch_Orphan d = Continue ?d2"
    using nf src orphans d by (simp add: exec_def pk_insert_def)
  have "migrate_tables fails src n (length roots) d
      = (if n > 0 then migrate_tree_1 fails src ?d2 else detach_and_return fails src ?d2)"
    using some True by (simp add: migrate_tables_def o)
  then show ?thesis by (intro exI [of _ ?d2]) (simp add: d)
next
  case False
  let ?d1 = "d\<lparr>dst_executed := dst_executed d @ [Insert_Root], dst_root := Some roots\<rparr>"
  let ?d2 = "?d1\<lparr>dst_executed := dst_executed ?d1 @ [Insert_Branch_Orphan],
      dst_branch_orphan := Some orphans\<rparr>"
  have r: "exec fails src Insert_Root d = Continue ?d1"
    using nf src roots d by (simp add: exec_def pk_insert_def)
  have o: "exec fails src Insert_Branch_Orphan ?d1 = Continue ?d2"
    using nf src orphans d by (simp add: exec_def pk_insert_def)
  have "migrate_tables fails src n (length roots) d
      = (if n > 0 then migrate_tree_1 fails src ?d2 else detach_and_return fails src ?d2)"
    using False by (simp add: migrate_tables_def r o)
  then show ?thesis by (intro exI [of _ ?d2]) (simp add: d)
qed

lemma migrateTree_no_failure:
  assumes "\<And>op. \<not> fails op" "src_tree_1 src = Some rows" "src_root src = Some roots"
  shows "migrateTree fails src
    = migrate_tables fails src (length rows) (length roots)
        \<lparr>dst_root = Some [], dst_branch_orphan = Some [], dst_shards = [], dst_attached = True,
         dst_executed = [Create_Table T_branch_orphan, Create_Table T_root, Attach_Old]\<rparr>"
  using assms by (simp add: migrateTree_def exec_def new_tree_db_def count_rows_def)

text \<open>
  C7: a source that has rows in tree_1 and no orphan table. The copy of the orphan rows is
  attempted, \<open>INSERT ... FROM old.orphan\<close> fails on the missing table, and \<open>exec\<close> ends the
  process there: the run does not return, with success or otherwise.
\<close>

theorem migrateTree_missing_orphan_table_is_fatal:
  "migrateTree no_failure
      \<lparr>src_tree_1 = Some [\<lparr>branch_version = Some 5, branch_sequence = Some 1,
           branch_bytes = [1], branch_orphaned = Some False\<rparr>],
       src_root = Some [], src_orphan = None\<rparr>
     = (Process_Fatal Insert_Branch_Orphan,
        \<lparr>dst_root = Some [], dst_branch_orphan = Some [], dst_shards = [],
         dst_attached = True,
         dst_executed = [Create_Table T_branch_orphan, Create_Table T_root, Attach_Old,
           Insert_Branch_Orphan]\<rparr>)"
  by code_simp

text \<open>
  The other cases, in a run where nothing fails for an outside reason, on a source that
  has the three tables and whose root rows and orphan rows can be inserted into the
  target tables (no NULL key column, no key twice; an orphan table with no rows is such a
  table):
  when tree_1 has rows but none with a non-NULL version, migrateTree returns success
  with no shard table, the source detached by the last statement;
  when tree_1 or root has a row, the orphan copy is attempted, it is not where the
  process ends, and branch_orphan holds the source's orphan rows (none, when there are
  none);
  when tree_1 and root are both empty, migrateTree returns success without attempting
  the orphan copy.
\<close>

lemma migrateTree_edge_cases_succeed:
  assumes "\<And>op. \<not> fails op"
    and "src_tree_1 src = Some rows" "src_root src = Some roots" "src_orphan src = Some orphans"
    and "list_all (\<lambda>r. root_key r \<noteq> None) roots" "distinct (map root_key roots)"
    and "list_all (\<lambda>r. orphan_key r \<noteq> None) orphans" "distinct (map orphan_key orphans)"
  shows "(rows \<noteq> [] \<and> list_all (\<lambda>r. branch_version r = None) rows \<longrightarrow>
        fst (migrateTree fails src) = Success
        \<and> dst_shards (snd (migrateTree fails src)) = []
        \<and> \<not> dst_attached (snd (migrateTree fails src))
        \<and> last (dst_executed (snd (migrateTree fails src))) = Detach_Old)
    \<and> (rows \<noteq> [] \<or> roots \<noteq> [] \<longrightarrow>
        Insert_Branch_Orphan \<in> set (dst_executed (snd (migrateTree fails src)))
        \<and> fst (migrateTree fails src) \<noteq> Process_Fatal Insert_Branch_Orphan
        \<and> dst_branch_orphan (snd (migrateTree fails src)) = Some orphans)
    \<and> (rows = [] \<and> roots = [] \<longrightarrow>
        fst (migrateTree fails src) = Success
        \<and> Insert_Branch_Orphan \<notin> set (dst_executed (snd (migrateTree fails src))))"
proof (intro conjI impI)
  let ?base = "\<lparr>dst_root = Some [], dst_branch_orphan = Some [], dst_shards = [],
      dst_attached = True,
      dst_executed = [Create_Table T_branch_orphan, Create_Table T_root, Attach_Old]\<rparr>"
  note start = migrateTree_no_failure [OF assms(1-3)]
  {
    assume some: "rows \<noteq> [] \<or> roots \<noteq> []"
    then have n: "length rows \<noteq> 0 \<or> roots \<noteq> []" by simp
    have "\<exists>d2. dst_branch_orphan d2 = Some orphans \<and> dst_shards d2 = dst_shards ?base
        \<and> dst_attached d2 \<and> Insert_Branch_Orphan \<in> set (dst_executed d2)
        \<and> migrate_tables fails src (length rows) (length roots) ?base
          = (if length rows > 0 then migrate_tree_1 fails src d2
             else detach_and_return fails src d2)"
      using migrate_tables_after_orphan_copy
        [where fails = fails and src = src and d = ?base and n = "length rows",
          OF assms(1) assms(3-8) _ _ _ n]
      by auto
    then obtain d2 where d2: "dst_branch_orphan d2 = Some orphans" "dst_shards d2 = []"
      "dst_attached d2" "Insert_Branch_Orphan \<in> set (dst_executed d2)"
      and m: "migrateTree fails src
        = (if length rows > 0 then migrate_tree_1 fails src d2
           else detach_and_return fails src d2)"
      unfolding start by auto
    obtain out d' where r: "migrateTree fails src = (out, d')"
      by (cases "migrateTree fails src")
    have "(\<exists>l. dst_executed d' = dst_executed d2 @ l \<and> Insert_Branch_Orphan \<notin> set l
          \<and> (\<forall>s. out = Process_Fatal s \<longrightarrow> s \<in> set l))
        \<and> dst_branch_orphan d' = dst_branch_orphan d2"
      using m r migrate_tree_1_later [of fails src d2 out d']
        detach_and_return_later [of fails src d2 out d']
      by (auto split: if_splits)
    then show "Insert_Branch_Orphan \<in> set (dst_executed (snd (migrateTree fails src)))"
      and "fst (migrateTree fails src) \<noteq> Process_Fatal Insert_Branch_Orphan"
      and "dst_branch_orphan (snd (migrateTree fails src)) = Some orphans"
      unfolding r using d2 by auto
  }
  {
    assume a: "rows \<noteq> [] \<and> list_all (\<lambda>r. branch_version r = None) rows"
    then have n: "length rows \<noteq> 0 \<or> roots \<noteq> []" by simp
    have "\<exists>d2. dst_branch_orphan d2 = Some orphans \<and> dst_shards d2 = dst_shards ?base
        \<and> dst_attached d2 \<and> Insert_Branch_Orphan \<in> set (dst_executed d2)
        \<and> migrate_tables fails src (length rows) (length roots) ?base
          = (if length rows > 0 then migrate_tree_1 fails src d2
             else detach_and_return fails src d2)"
      using migrate_tables_after_orphan_copy
        [where fails = fails and src = src and d = ?base and n = "length rows",
          OF assms(1) assms(3-8) _ _ _ n]
      by auto
    then obtain d2 where d2: "dst_shards d2 = []" "dst_attached d2"
      and m: "migrateTree fails src = migrate_tree_1 fails src d2"
      unfolding start using a by auto
    have "list_all (\<lambda>x. x = None) (map branch_version rows)"
      using a by (simp add: list_all_iff)
    then have vs: "non_null (map branch_version rows) = []" by (rule non_null_all_None)
    have v: "version_range fails src = Some (None, None)"
      using assms(1,2) by (simp add: version_range_def vs)
    have "migrateTree fails src
        = (Success, d2\<lparr>dst_executed := dst_executed d2 @ [Detach_Old], dst_attached := False\<rparr>)"
      using assms(1) d2 by (simp add: m migrate_tree_1_def v detach_and_return_def exec_def)
    then show "fst (migrateTree fails src) = Success"
      and "dst_shards (snd (migrateTree fails src)) = []"
      and "\<not> dst_attached (snd (migrateTree fails src))"
      and "last (dst_executed (snd (migrateTree fails src))) = Detach_Old"
      using d2 by simp_all
  }
  {
    assume "rows = [] \<and> roots = []"
    then have "migrateTree fails src
        = (Success, ?base\<lparr>dst_executed := dst_executed ?base @ [Detach_Old],
             dst_attached := False\<rparr>)"
      using assms(1)
      by (simp add: start migrate_tables_def detach_and_return_def exec_def)
    then show "fst (migrateTree fails src) = Success"
      and "Insert_Branch_Orphan \<notin> set (dst_executed (snd (migrateTree fails src)))"
      by simp_all
  }
qed

section \<open>The changelog migration\<close>

lemma hash_of_key: "hash_Sum digest (hash_Write (hash_Reset h) key) [] = digest key"
  by (simp add: hash_Sum_def hash_Write_def hash_Reset_def)

lemma tx_exec_state:
  "tx_exec fails op f d = Inl d' \<Longrightarrow>
     cl_committed d' = cl_committed d \<and> cl_tx d' = cl_tx d \<and> cl_attached d' = cl_attached d
     \<and> cl_ops d' = cl_ops d @ [op] \<and> cl_pending d' = cl_pending d"
  "tx_exec fails op f d = Inr d' \<Longrightarrow>
     cl_committed d' = cl_committed d \<and> cl_tx d' = cl_tx d \<and> cl_attached d' = cl_attached d
     \<and> cl_ops d' = cl_ops d @ [op] \<and> f (cl_pending d) = Some (cl_pending d') \<and> \<not> fails op"
  by (auto simp: tx_exec_def attempt_def Let_def split: if_splits option.splits)

text \<open>
  The loop leaves the committed tables, the transaction and the attachment alone; it logs
  fetches, scans and inserts; and when it ends without an error, the operations it logged
  did not fail, but for a fetch.
\<close>

lemma leaf_loop_state:
  "leaf_loop fails digest h n rows d = (e, d') \<Longrightarrow>
     cl_committed d' = cl_committed d \<and> cl_tx d' = cl_tx d \<and> cl_attached d' = cl_attached d
     \<and> (\<exists>l. cl_ops d' = cl_ops d @ l \<and> Cl_Detach \<notin> set l
          \<and> (e = None \<longrightarrow> (\<forall>op \<in> set l. fails op \<longrightarrow> (\<exists>k. op = Cl_Next k))))"
proof (induction rows arbitrary: h n d)
  case Nil
  then show ?case by simp
next
  case (Cons r rs)
  show ?case
  proof (cases "fails (Cl_Next n)")
    case True
    then show ?thesis using Cons.prems by (auto simp: attempt_def)
  next
    case nx: False
    show ?thesis
    proof (cases "if fails (Cl_Scan n) then None else scan_leaf r")
      case None
      then show ?thesis using Cons.prems nx by (auto simp: attempt_def)
    next
      case (Some t)
      then have sc: "\<not> fails (Cl_Scan n)" by (simp split: if_splits)
      obtain version sequence key "value" where t: "t = (version, sequence, key, value)"
        by (cases t)
      let ?h1 = "hash_Write (hash_Reset h) key"
      let ?row = "\<lparr>new_leaf_version = version, new_leaf_sequence = sequence,
          new_leaf_key_hash = hash_Sum digest ?h1 [], new_leaf_bytes = value,
          new_leaf_orphaned = None\<rparr>"
      let ?d1 = "attempt (Cl_Insert n) (attempt (Cl_Scan n) (attempt (Cl_Next n) d))"
      show ?thesis
      proof (cases "if fails (Cl_Insert n) then None else insert_leaf ?row (cl_pending ?d1)")
        case None
        then have "d' = ?d1" "e = Some ''insert leaf row''"
          using Cons.prems nx Some t by (simp_all add: Let_def)
        then show ?thesis by (simp add: attempt_def)
      next
        case ins: (Some u)
        then have i: "\<not> fails (Cl_Insert n)" by (simp split: if_splits)
        have "leaf_loop fails digest ?h1 (Suc n) rs (?d1\<lparr>cl_pending := u\<rparr>) = (e, d')"
          using ins Cons.prems nx Some t by (simp add: Let_def)
        from Cons.IH [OF this] obtain l where
          l: "cl_ops d' = cl_ops d @ [Cl_Next n, Cl_Scan n, Cl_Insert n] @ l"
            "Cl_Detach \<notin> set l"
            "e = None \<longrightarrow> (\<forall>op \<in> set l. fails op \<longrightarrow> (\<exists>k. op = Cl_Next k))"
          and st: "cl_committed d' = cl_committed d" "cl_tx d' = cl_tx d"
            "cl_attached d' = cl_attached d"
          by (auto simp: attempt_def)
        show ?thesis
          using l st nx sc i
          by (intro conjI exI [of _ "[Cl_Next n, Cl_Scan n, Cl_Insert n] @ l"]) auto
      qed
    qed
  qed
qed

text \<open>What the loop leaves in the pending table \<open>leaf\<close> when no fetch fails.\<close>

lemma leaf_loop_rows:
  assumes "leaf_loop fails digest h n rows d = (None, d')"
    and "\<And>k. \<not> fails (Cl_Next k)"
    and "tbl_leaf (cl_pending d) = Some t0"
  shows "\<exists>t. tbl_leaf (cl_pending d') = Some (t0 @ t)
    \<and> list_all2 (\<lambda>r x. leaf_version r = Some (new_leaf_version x)
          \<and> leaf_sequence r = Some (new_leaf_sequence x)
          \<and> new_leaf_key_hash x = digest (leaf_key r)
          \<and> new_leaf_bytes x = leaf_bytes r
          \<and> new_leaf_orphaned x = None) rows t
    \<and> tbl_leaf_orphan (cl_pending d') = tbl_leaf_orphan (cl_pending d)"
  using assms(1,3)
proof (induction rows arbitrary: h n d t0)
  case Nil
  then show ?case by simp
next
  case (Cons r rs)
  have nx: "\<not> fails (Cl_Next n)" by (rule assms(2))
  from Cons.prems(1) nx obtain version sequence key "value" where
    sc: "scan_leaf r = Some (version, sequence, key, value)" "\<not> fails (Cl_Scan n)"
    by (auto split: if_splits option.splits)
  let ?h1 = "hash_Write (hash_Reset h) key"
  let ?row = "\<lparr>new_leaf_version = version, new_leaf_sequence = sequence,
      new_leaf_key_hash = hash_Sum digest ?h1 [], new_leaf_bytes = value,
      new_leaf_orphaned = None\<rparr>"
  let ?d1 = "attempt (Cl_Insert n) (attempt (Cl_Scan n) (attempt (Cl_Next n) d))"
  from Cons.prems(1) nx sc obtain u where
    ins: "insert_leaf ?row (cl_pending ?d1) = Some u"
    and rest: "leaf_loop fails digest ?h1 (Suc n) rs (?d1\<lparr>cl_pending := u\<rparr>) = (None, d')"
    by (auto simp: Let_def split: if_splits option.splits)
  have u: "tbl_leaf u = Some (t0 @ [?row])" "tbl_leaf_orphan u = tbl_leaf_orphan (cl_pending d)"
    using ins Cons.prems(2)
    by (auto simp: insert_leaf_def attempt_def split: option.splits if_splits)
  from Cons.IH [OF rest] u(1) obtain t where
    t: "tbl_leaf (cl_pending d') = Some ((t0 @ [?row]) @ t)"
      "list_all2 (\<lambda>r x. leaf_version r = Some (new_leaf_version x)
          \<and> leaf_sequence r = Some (new_leaf_sequence x)
          \<and> new_leaf_key_hash x = digest (leaf_key r)
          \<and> new_leaf_bytes x = leaf_bytes r
          \<and> new_leaf_orphaned x = None) rs t"
      "tbl_leaf_orphan (cl_pending d') = tbl_leaf_orphan u"
    by auto
  have r: "leaf_version r = Some version" "leaf_sequence r = Some sequence" "key = leaf_key r"
    "value = leaf_bytes r"
    using sc(1) by (auto simp: scan_leaf_def split: option.splits)
  show ?case
    using t u(2) r by (intro exI [of _ "?row # t"]) (simp add: hash_of_key)
qed

lemma commit_and_detach_state:
  assumes "commit_and_detach fails d = (out, d')"
    and "cl_tx d = Tx_Open" "cl_committed d = no_tables" "Cl_Detach \<notin> set (cl_ops d)"
    and "\<forall>op \<in> set (cl_ops d). fails op \<longrightarrow> (\<exists>k. op = Cl_Next k)"
  shows "(out = Success \<or> (\<exists>e. out = Returned_Error e))
    \<and> (cl_tx d' = Tx_Open \<or> cl_tx d' = Tx_Committed)
    \<and> (cl_tx d' \<noteq> Tx_Committed \<longrightarrow> cl_committed d' = no_tables \<and> (\<exists>e. out = Returned_Error e))
    \<and> (cl_tx d' = Tx_Committed \<longrightarrow> cl_committed d' = cl_pending d')
    \<and> (Cl_Detach \<in> set (cl_ops d') \<longrightarrow> cl_tx d' = Tx_Committed)
    \<and> (out = Success \<longrightarrow> cl_tx d' = Tx_Committed \<and> \<not> cl_attached d'
          \<and> (\<forall>op \<in> set (cl_ops d'). fails op \<longrightarrow> (\<exists>k. op = Cl_Next k)))
    \<and> (cl_tx d' = Tx_Committed \<longrightarrow>
          (\<forall>op \<in> set (cl_ops d'). fails op \<longrightarrow> (\<exists>k. op = Cl_Next k) \<or> op = Cl_Detach))
    \<and> cl_pending d' = cl_pending d"
proof (cases "fails Cl_Commit")
  case True
  then have "out = Returned_Error ''commit''" "d' = attempt Cl_Commit d"
    using assms(1) by (simp_all add: commit_and_detach_def Let_def)
  then show ?thesis using assms(2-4) by (simp add: attempt_def)
next
  case c: False
  let ?d2 = "attempt Cl_Detach
      ((attempt Cl_Commit d)\<lparr>cl_committed := cl_pending (attempt Cl_Commit d),
          cl_tx := Tx_Committed\<rparr>)"
  show ?thesis
  proof (cases "fails Cl_Detach \<or> \<not> cl_attached ?d2")
    case True
    then have "out = Returned_Error ''failed to detach old database''" "d' = ?d2"
      using assms(1) c by (simp_all add: commit_and_detach_def Let_def)
    then show ?thesis using assms(5) c by (auto simp: attempt_def)
  next
    case False
    then have "out = Success" "d' = ?d2\<lparr>cl_attached := False\<rparr>"
      using assms(1) c by (simp_all add: commit_and_detach_def Let_def)
    then show ?thesis using assms(5) c False by (auto simp: attempt_def)
  qed
qed

lemma copy_leaves_state:
  assumes "copy_leaves fails digest h src d = (out, d')"
    and "cl_tx d = Tx_Open" "cl_committed d = no_tables" "Cl_Detach \<notin> set (cl_ops d)"
    and "\<forall>op \<in> set (cl_ops d). fails op \<longrightarrow> (\<exists>k. op = Cl_Next k)"
  shows "(out = Success \<or> (\<exists>e. out = Returned_Error e))
    \<and> (cl_tx d' = Tx_Open \<or> cl_tx d' = Tx_Committed)
    \<and> (cl_tx d' \<noteq> Tx_Committed \<longrightarrow> cl_committed d' = no_tables \<and> (\<exists>e. out = Returned_Error e))
    \<and> (cl_tx d' = Tx_Committed \<longrightarrow> cl_committed d' = cl_pending d')
    \<and> (Cl_Detach \<in> set (cl_ops d') \<longrightarrow> cl_tx d' = Tx_Committed)
    \<and> (out = Success \<longrightarrow> cl_tx d' = Tx_Committed \<and> \<not> cl_attached d'
          \<and> (\<forall>op \<in> set (cl_ops d'). fails op \<longrightarrow> (\<exists>k. op = Cl_Next k)))
    \<and> (cl_tx d' = Tx_Committed \<longrightarrow>
          (\<forall>op \<in> set (cl_ops d'). fails op \<longrightarrow> (\<exists>k. op = Cl_Next k) \<or> op = Cl_Detach))"
proof (cases "if fails Cl_Query then None else src_leaf src")
  case None
  then have "out = Returned_Error ''read old leaf''" "d' = attempt Cl_Query d"
    using assms(1) by (simp_all add: copy_leaves_def)
  then show ?thesis using assms(2-4) by (simp add: attempt_def)
next
  case (Some rows)
  then have q: "\<not> fails Cl_Query" by (simp split: if_splits)
  let ?d2 = "attempt Cl_Prepare (attempt Cl_Query d)"
  show ?thesis
  proof (cases "fails Cl_Prepare")
    case True
    then have "out = Returned_Error ''prepare insert''" "d' = ?d2"
      using assms(1) Some by (simp_all add: copy_leaves_def Let_def)
    then show ?thesis using assms(2-4) by (simp add: attempt_def)
  next
    case pr: False
    obtain e d3 where l: "leaf_loop fails digest h 0 rows ?d2 = (e, d3)"
      by (cases "leaf_loop fails digest h 0 rows ?d2")
    from leaf_loop_state [OF l] assms(2-4) obtain l3 where
      d3: "cl_committed d3 = no_tables" "cl_tx d3 = Tx_Open"
        "cl_ops d3 = cl_ops d @ [Cl_Query, Cl_Prepare] @ l3" "Cl_Detach \<notin> set l3"
        "e = None \<longrightarrow> (\<forall>op \<in> set l3. fails op \<longrightarrow> (\<exists>k. op = Cl_Next k))"
      by (auto simp: attempt_def)
    show ?thesis
    proof (cases e)
      case (Some msg)
      then have "out = Returned_Error msg" "d' = d3"
        using assms(1) \<open>(if fails Cl_Query then None else src_leaf src) = Some rows\<close> pr l
        by (simp_all add: copy_leaves_def Let_def)
      then show ?thesis using d3 assms(4) by auto
    next
      case None
      have u3: "\<forall>op \<in> set (cl_ops d3). fails op \<longrightarrow> (\<exists>k. op = Cl_Next k)"
        using d3 None assms(5) q pr by auto
      let ?d4 = "attempt Cl_Attach d3"
      show ?thesis
      proof (cases "fails Cl_Attach")
        case True
        then have "out = Returned_Error ''failed to attach old database''" "d' = ?d4"
          using assms(1) \<open>(if fails Cl_Query then None else src_leaf src) = Some rows\<close> pr l None
          by (simp_all add: copy_leaves_def Let_def)
        then show ?thesis using d3 assms(4) by (auto simp: attempt_def)
      next
        case at: False
        show ?thesis
        proof (cases "tx_exec fails Cl_Copy_Leaf_Orphan (copy_leaf_orphan src)
            (?d4\<lparr>cl_attached := True\<rparr>)")
          case (Inl d5)
          then have o: "out = Returned_Error ''migrate leaf_orphan''" "d' = d5"
            using assms(1) \<open>(if fails Cl_Query then None else src_leaf src) = Some rows\<close>
              pr l None at
            by (simp_all add: copy_leaves_def Let_def)
          show ?thesis
            using tx_exec_state(1) [OF Inl] o d3 assms(4) by (auto simp: attempt_def)
        next
          case (Inr d5)
          then have c: "commit_and_detach fails d5 = (out, d')"
            using assms(1) \<open>(if fails Cl_Query then None else src_leaf src) = Some rows\<close>
              pr l None at
            by (simp add: copy_leaves_def Let_def)
          note s5 = tx_exec_state(2) [OF Inr]
          have p: "cl_tx d5 = Tx_Open" "cl_committed d5 = no_tables"
            "Cl_Detach \<notin> set (cl_ops d5)"
            using s5 d3 assms(4) by (auto simp: attempt_def)
          have u5: "\<forall>op \<in> set (cl_ops d5). fails op \<longrightarrow> (\<exists>k. op = Cl_Next k)"
            using s5 u3 at by (auto simp: attempt_def)
          from commit_and_detach_state [OF c p u5] show ?thesis by blast
        qed
      qed
    qed
  qed
qed

lemma migrateChangelog_state:
  assumes "migrateChangelog fails digest h src = (out, d')"
  shows "(out = Success \<or> (\<exists>e. out = Returned_Error e))
    \<and> (cl_tx d' = No_Tx \<or> cl_tx d' = Tx_Open \<or> cl_tx d' = Tx_Committed)
    \<and> (cl_tx d' \<noteq> Tx_Committed \<longrightarrow> cl_committed d' = no_tables \<and> (\<exists>e. out = Returned_Error e))
    \<and> (cl_tx d' = Tx_Committed \<longrightarrow> cl_committed d' = cl_pending d')
    \<and> (Cl_Detach \<in> set (cl_ops d') \<longrightarrow> cl_tx d' = Tx_Committed)
    \<and> (out = Success \<longrightarrow> cl_tx d' = Tx_Committed \<and> \<not> cl_attached d'
          \<and> (\<forall>op \<in> set (cl_ops d'). fails op \<longrightarrow> (\<exists>k. op = Cl_Next k)))
    \<and> (cl_tx d' = Tx_Committed \<longrightarrow>
          (\<forall>op \<in> set (cl_ops d'). fails op \<longrightarrow> (\<exists>k. op = Cl_Next k) \<or> op = Cl_Detach))"
proof (cases "fails Cl_MkdirAll \<or> fails Cl_Begin")
  case True
  then have "out = Returned_Error ''mkdir'' \<and> d' = attempt Cl_MkdirAll new_changelog_db
      \<or> out = Returned_Error ''begin''
        \<and> d' = attempt Cl_Begin (attempt Cl_MkdirAll new_changelog_db)"
    using assms by (auto simp: migrateChangelog_def Let_def split: if_splits)
  then show ?thesis
    by (auto simp: new_changelog_db_def attempt_def)
next
  case False
  let ?d0 = "(attempt Cl_Begin (attempt Cl_MkdirAll new_changelog_db))\<lparr>cl_tx := Tx_Open\<rparr>"
  have d0: "cl_tx ?d0 = Tx_Open" "cl_committed ?d0 = no_tables" "Cl_Detach \<notin> set (cl_ops ?d0)"
    "\<forall>op \<in> set (cl_ops ?d0). fails op \<longrightarrow> (\<exists>k. op = Cl_Next k)"
    using False by (simp_all add: new_changelog_db_def attempt_def)
  show ?thesis
  proof (cases "tx_exec fails Cl_Create_Leaf create_leaf ?d0")
    case (Inl d)
    then have "out = Returned_Error ''exec create leaf''" "d' = d"
      using assms False by (simp_all add: migrateChangelog_def Let_def)
    then show ?thesis using tx_exec_state(1) [OF Inl] d0(1-3) by auto
  next
    case i1: (Inr d1)
    note s1 = tx_exec_state(2) [OF i1]
    show ?thesis
    proof (cases "tx_exec fails Cl_Create_Leaf_Idx create_leaf_idx d1")
      case (Inl d)
      then have "out = Returned_Error ''exec create leaf_idx''" "d' = d"
        using assms False i1 by (simp_all add: migrateChangelog_def Let_def)
      then show ?thesis using tx_exec_state(1) [OF Inl] s1 d0(1-3) by auto
    next
      case i2: (Inr d2)
      note s2 = tx_exec_state(2) [OF i2]
      show ?thesis
      proof (cases "tx_exec fails Cl_Create_Leaf_Orphan create_leaf_orphan d2")
        case (Inl d)
        then have "out = Returned_Error ''exec create leaf_orphan''" "d' = d"
          using assms False i1 i2 by (simp_all add: migrateChangelog_def Let_def)
        then show ?thesis using tx_exec_state(1) [OF Inl] s1 s2 d0(1-3) by auto
      next
        case i3: (Inr d3)
        note s3 = tx_exec_state(2) [OF i3]
        have c: "copy_leaves fails digest h src d3 = (out, d')"
          using assms False i1 i2 i3 by (simp add: migrateChangelog_def Let_def)
        have p: "cl_tx d3 = Tx_Open" "cl_committed d3 = no_tables" "Cl_Detach \<notin> set (cl_ops d3)"
          using s1 s2 s3 d0(1-3) by auto
        have u: "\<forall>op \<in> set (cl_ops d3). fails op \<longrightarrow> (\<exists>k. op = Cl_Next k)"
          using s1 s2 s3 d0(4) by auto
        from copy_leaves_state [OF c p u] show ?thesis by blast
      qed
    qed
  qed
qed

lemma commit_and_detach_committed:
  assumes "commit_and_detach fails d = (out, d')" "cl_tx d' = Tx_Committed" "cl_tx d = Tx_Open"
  shows "cl_committed d' = cl_pending d"
  using assms
  by (auto simp: commit_and_detach_def attempt_def Let_def split: if_splits)

lemma copy_leaf_orphan_leaf:
  "copy_leaf_orphan src t = Some u \<Longrightarrow> tbl_leaf u = tbl_leaf t"
  by (auto simp: copy_leaf_orphan_def split: option.splits)

lemma copy_leaf_orphan_rows:
  "copy_leaf_orphan src t = Some u \<Longrightarrow> tbl_leaf_orphan t = Some []
     \<Longrightarrow> tbl_leaf_orphan u = src_leaf_orphan src"
  by (auto simp: copy_leaf_orphan_def pk_insert_def split: option.splits if_splits)

lemma create_leaf_Some:
  "create_leaf t = Some u \<Longrightarrow> tbl_leaf u = Some [] \<and> tbl_leaf_orphan u = tbl_leaf_orphan t"
  by (auto simp: create_leaf_def split: option.splits)

lemma create_leaf_idx_Some:
  "create_leaf_idx t = Some u \<Longrightarrow> tbl_leaf u = tbl_leaf t \<and> tbl_leaf_orphan u = tbl_leaf_orphan t"
  by (auto simp: create_leaf_idx_def split: option.splits)

lemma create_leaf_orphan_Some:
  "create_leaf_orphan t = Some u \<Longrightarrow> tbl_leaf u = tbl_leaf t \<and> tbl_leaf_orphan u = Some []"
  by (auto simp: create_leaf_orphan_def split: option.splits)

lemma copy_leaves_committed:
  assumes "copy_leaves fails digest h src d = (out, d')"
    and "cl_tx d' = Tx_Committed" "cl_tx d = Tx_Open"
    and "\<And>k. \<not> fails (Cl_Next k)" "src_leaf src = Some rows"
    and "tbl_leaf (cl_pending d) = Some []" "tbl_leaf_orphan (cl_pending d) = Some []"
  shows "\<exists>t. tbl_leaf (cl_committed d') = Some t
    \<and> list_all2 (\<lambda>r x. leaf_version r = Some (new_leaf_version x)
          \<and> leaf_sequence r = Some (new_leaf_sequence x)
          \<and> new_leaf_key_hash x = digest (leaf_key r)
          \<and> new_leaf_bytes x = leaf_bytes r
          \<and> new_leaf_orphaned x = None) rows t
    \<and> tbl_leaf_orphan (cl_committed d') = src_leaf_orphan src"
proof -
  let ?d2 = "attempt Cl_Prepare (attempt Cl_Query d)"
  have q: "\<not> fails Cl_Query" "\<not> fails Cl_Prepare"
    using assms(1-3,5) by (auto simp: copy_leaves_def Let_def attempt_def split: if_splits)
  obtain e d3 where l: "leaf_loop fails digest h 0 rows ?d2 = (e, d3)"
    by (cases "leaf_loop fails digest h 0 rows ?d2")
  note s3 = leaf_loop_state [OF l]
  have tx3: "cl_tx d3 = Tx_Open" using s3 assms(3) by (simp add: attempt_def)
  have e: "e = None"
  proof (cases e)
    case (Some msg)
    then have "d' = d3" using assms(1,5) q l by (simp add: copy_leaves_def Let_def)
    then show ?thesis using assms(2) tx3 by simp
  qed simp
  let ?d4 = "(attempt Cl_Attach d3)\<lparr>cl_attached := True\<rparr>"
  have at: "\<not> fails Cl_Attach"
    using assms(1,2,5) q l e tx3 by (auto simp: copy_leaves_def Let_def attempt_def)
  obtain d5 where t5: "tx_exec fails Cl_Copy_Leaf_Orphan (copy_leaf_orphan src) ?d4 = Inr d5"
    and c: "commit_and_detach fails d5 = (out, d')"
  proof (cases "tx_exec fails Cl_Copy_Leaf_Orphan (copy_leaf_orphan src) ?d4")
    case (Inl d5)
    then have "d' = d5" using assms(1,5) q l e at by (simp add: copy_leaves_def Let_def)
    then have False using tx_exec_state(1) [OF Inl] assms(2) tx3 by (simp add: attempt_def)
    then show ?thesis ..
  next
    case (Inr d5)
    then have "commit_and_detach fails d5 = (out, d')"
      using assms(1,5) q l e at by (simp add: copy_leaves_def Let_def)
    then show ?thesis using Inr that by blast
  qed
  note s5 = tx_exec_state(2) [OF t5]
  have tx5: "cl_tx d5 = Tx_Open" using s5 tx3 by (simp add: attempt_def)
  have com: "cl_committed d' = cl_pending d5"
    by (rule commit_and_detach_committed [OF c assms(2) tx5])
  have "tbl_leaf (cl_pending ?d2) = Some []" using assms(6) by (simp add: attempt_def)
  from leaf_loop_rows [OF l [unfolded e] assms(4) this] obtain t where
    t: "tbl_leaf (cl_pending d3) = Some t"
      "list_all2 (\<lambda>r x. leaf_version r = Some (new_leaf_version x)
          \<and> leaf_sequence r = Some (new_leaf_sequence x)
          \<and> new_leaf_key_hash x = digest (leaf_key r)
          \<and> new_leaf_bytes x = leaf_bytes r
          \<and> new_leaf_orphaned x = None) rows t"
      "tbl_leaf_orphan (cl_pending d3) = tbl_leaf_orphan (cl_pending ?d2)"
    by auto
  have "tbl_leaf_orphan (cl_pending ?d4) = Some []"
    using t(3) assms(7) by (simp add: attempt_def)
  then have o5: "tbl_leaf_orphan (cl_pending d5) = src_leaf_orphan src"
    using s5 copy_leaf_orphan_rows by blast
  have "tbl_leaf (cl_pending d5) = tbl_leaf (cl_pending ?d4)"
    using s5 copy_leaf_orphan_leaf by blast
  then have "tbl_leaf (cl_committed d') = Some t"
    using com t(1) by (simp add: attempt_def)
  then show ?thesis using t(2) o5 com by simp
qed

lemma copy_leaves_committed_src:
  assumes "copy_leaves fails digest h src d = (out, d')"
    and "cl_tx d' = Tx_Committed" "cl_tx d = Tx_Open"
  shows "src_leaf src \<noteq> None \<and> src_leaf_orphan src \<noteq> None"
proof -
  have "src_leaf src \<noteq> None"
  proof
    assume "src_leaf src = None"
    then have "d' = attempt Cl_Query d"
      using assms(1) by (auto simp: copy_leaves_def split: if_splits)
    then show False using assms(2,3) by (simp add: attempt_def)
  qed
  then obtain rows where rows: "src_leaf src = Some rows" by blast
  have q: "\<not> fails Cl_Query" "\<not> fails Cl_Prepare"
    using assms rows by (auto simp: copy_leaves_def Let_def attempt_def split: if_splits)
  let ?d2 = "attempt Cl_Prepare (attempt Cl_Query d)"
  obtain e d3 where l: "leaf_loop fails digest h 0 rows ?d2 = (e, d3)"
    by (cases "leaf_loop fails digest h 0 rows ?d2")
  have tx3: "cl_tx d3 = Tx_Open" using leaf_loop_state [OF l] assms(3) by (simp add: attempt_def)
  have "src_leaf_orphan src \<noteq> None"
  proof
    assume "src_leaf_orphan src = None"
    then have "copy_leaf_orphan src t = None" for t by (simp add: copy_leaf_orphan_def)
    then have "cl_tx d' = Tx_Open"
      using assms(1) rows q l tx3
      by (cases e) (auto simp: copy_leaves_def Let_def tx_exec_def attempt_def split: if_splits)
    then show False using assms(2) by simp
  qed
  then show ?thesis using rows by simp
qed

lemma migrateChangelog_reaches_copy:
  assumes "migrateChangelog fails digest h src = (out, d')"
    and "cl_tx d' = Tx_Committed"
  shows "\<exists>d3. copy_leaves fails digest h src d3 = (out, d') \<and> cl_tx d3 = Tx_Open
    \<and> tbl_leaf (cl_pending d3) = Some [] \<and> tbl_leaf_orphan (cl_pending d3) = Some []"
proof -
  let ?d0 = "(attempt Cl_Begin (attempt Cl_MkdirAll new_changelog_db))\<lparr>cl_tx := Tx_Open\<rparr>"
  have nf: "\<not> fails Cl_MkdirAll" "\<not> fails Cl_Begin"
    using assms(1,2)
    by (auto simp: migrateChangelog_def Let_def new_changelog_db_def attempt_def
        split: if_splits)
  obtain d1 where i1: "tx_exec fails Cl_Create_Leaf create_leaf ?d0 = Inr d1"
  proof (cases "tx_exec fails Cl_Create_Leaf create_leaf ?d0")
    case (Inl d)
    then have "d' = d" using assms(1) nf by (simp add: migrateChangelog_def Let_def)
    then have False
      using tx_exec_state(1) [OF Inl] assms(2) by (simp add: attempt_def)
    then show ?thesis ..
  qed
  note s1 = tx_exec_state(2) [OF i1]
  have tx1: "cl_tx d1 = Tx_Open" using s1 by (simp add: attempt_def)
  have l1: "tbl_leaf (cl_pending d1) = Some []"
    using s1 create_leaf_Some by blast
  obtain d2 where i2: "tx_exec fails Cl_Create_Leaf_Idx create_leaf_idx d1 = Inr d2"
  proof (cases "tx_exec fails Cl_Create_Leaf_Idx create_leaf_idx d1")
    case (Inl d)
    then have "d' = d" using assms(1) nf i1 by (simp add: migrateChangelog_def Let_def)
    then have False using tx_exec_state(1) [OF Inl] assms(2) tx1 by simp
    then show ?thesis ..
  qed
  note s2 = tx_exec_state(2) [OF i2]
  have tx2: "cl_tx d2 = Tx_Open" using s2 tx1 by simp
  have l2: "tbl_leaf (cl_pending d2) = Some []"
    using s2 l1 create_leaf_idx_Some [of "cl_pending d1" "cl_pending d2"] by simp
  obtain d3 where i3: "tx_exec fails Cl_Create_Leaf_Orphan create_leaf_orphan d2 = Inr d3"
  proof (cases "tx_exec fails Cl_Create_Leaf_Orphan create_leaf_orphan d2")
    case (Inl d)
    then have "d' = d" using assms(1) nf i1 i2 by (simp add: migrateChangelog_def Let_def)
    then have False using tx_exec_state(1) [OF Inl] assms(2) tx2 by simp
    then show ?thesis ..
  qed
  note s3 = tx_exec_state(2) [OF i3]
  have tx3: "cl_tx d3 = Tx_Open" using s3 tx2 by simp
  have l3: "tbl_leaf (cl_pending d3) = Some []" "tbl_leaf_orphan (cl_pending d3) = Some []"
    using s3 l2 create_leaf_orphan_Some [of "cl_pending d2" "cl_pending d3"] by simp_all
  have c: "copy_leaves fails digest h src d3 = (out, d')"
    using assms(1) nf i1 i2 i3 by (simp add: migrateChangelog_def Let_def)
  show ?thesis using c tx3 l3 by blast
qed

lemma migrateChangelog_committed:
  assumes "migrateChangelog fails digest h src = (out, d')"
    and "cl_tx d' = Tx_Committed"
    and "\<And>k. \<not> fails (Cl_Next k)" "src_leaf src = Some rows"
  shows "\<exists>t. tbl_leaf (cl_committed d') = Some t
    \<and> list_all2 (\<lambda>r x. leaf_version r = Some (new_leaf_version x)
          \<and> leaf_sequence r = Some (new_leaf_sequence x)
          \<and> new_leaf_key_hash x = digest (leaf_key r)
          \<and> new_leaf_bytes x = leaf_bytes r
          \<and> new_leaf_orphaned x = None) rows t
    \<and> tbl_leaf_orphan (cl_committed d') = src_leaf_orphan src"
proof -
  from migrateChangelog_reaches_copy [OF assms(1,2)] obtain d3 where
    c: "copy_leaves fails digest h src d3 = (out, d')" and tx3: "cl_tx d3 = Tx_Open"
    and l3: "tbl_leaf (cl_pending d3) = Some []" "tbl_leaf_orphan (cl_pending d3) = Some []"
    by blast
  show ?thesis
    by (rule copy_leaves_committed [OF c assms(2) tx3 assms(3,4) l3])
qed

lemma migrateChangelog_committed_src:
  assumes "migrateChangelog fails digest h src = (out, d')"
    and "cl_tx d' = Tx_Committed"
  shows "src_leaf src \<noteq> None \<and> src_leaf_orphan src \<noteq> None"
proof -
  from migrateChangelog_reaches_copy [OF assms(1,2)] obtain d3 where
    c: "copy_leaves fails digest h src d3 = (out, d')" and tx3: "cl_tx d3 = Tx_Open"
    by blast
  show ?thesis by (rule copy_leaves_committed_src [OF c assms(2) tx3])
qed

text \<open>
  C5, as the code has it: when the copy of leaf_orphan fails (here the source has no such
  table) the error is returned with the transaction still open: no path of
  migrateChangelog rolls it back. The row written by the transaction stays pending and
  nothing is committed.
\<close>

theorem migrateChangelog_failure_leaves_transaction_open:
  "fst (migrateChangelog no_failure rev []
      \<lparr>src_leaf = Some [\<lparr>leaf_version = Some 1, leaf_sequence = Some 1, leaf_key = [1, 2],
           leaf_bytes = [7], leaf_orphaned = Some False\<rparr>],
       src_leaf_orphan = None\<rparr>) = Returned_Error ''migrate leaf_orphan''
   \<and> cl_tx (snd (migrateChangelog no_failure rev []
      \<lparr>src_leaf = Some [\<lparr>leaf_version = Some 1, leaf_sequence = Some 1, leaf_key = [1, 2],
           leaf_bytes = [7], leaf_orphaned = Some False\<rparr>],
       src_leaf_orphan = None\<rparr>)) = Tx_Open
   \<and> tbl_leaf (cl_pending (snd (migrateChangelog no_failure rev []
      \<lparr>src_leaf = Some [\<lparr>leaf_version = Some 1, leaf_sequence = Some 1, leaf_key = [1, 2],
           leaf_bytes = [7], leaf_orphaned = Some False\<rparr>],
       src_leaf_orphan = None\<rparr>)))
     = Some [\<lparr>new_leaf_version = 1, new_leaf_sequence = 1, new_leaf_key_hash = [2, 1],
         new_leaf_bytes = [7], new_leaf_orphaned = None\<rparr>]
   \<and> cl_committed (snd (migrateChangelog no_failure rev []
      \<lparr>src_leaf = Some [\<lparr>leaf_version = Some 1, leaf_sequence = Some 1, leaf_key = [1, 2],
           leaf_bytes = [7], leaf_orphaned = Some False\<rparr>],
       src_leaf_orphan = None\<rparr>)) = no_tables"
proof -
  have "migrateChangelog no_failure rev []
      \<lparr>src_leaf = Some [\<lparr>leaf_version = Some 1, leaf_sequence = Some 1, leaf_key = [1, 2],
           leaf_bytes = [7], leaf_orphaned = Some False\<rparr>],
       src_leaf_orphan = None\<rparr>
    = (Returned_Error ''migrate leaf_orphan'',
       \<lparr>cl_committed = no_tables,
        cl_pending = \<lparr>tbl_leaf = Some [\<lparr>new_leaf_version = 1, new_leaf_sequence = 1, new_leaf_key_hash = [2, 1],
         new_leaf_bytes = [7], new_leaf_orphaned = None\<rparr>],
            tbl_leaf_idx = True, tbl_leaf_orphan = Some []\<rparr>,
        cl_tx = Tx_Open, cl_attached = True,
        cl_ops = [Cl_MkdirAll, Cl_Begin, Cl_Create_Leaf, Cl_Create_Leaf_Idx,
          Cl_Create_Leaf_Orphan, Cl_Query, Cl_Prepare, Cl_Next 0, Cl_Scan 0, Cl_Insert 0,
          Cl_Attach, Cl_Copy_Leaf_Orphan]\<rparr>)"
    by code_simp
  then show ?thesis by simp
qed

text \<open>
  C5, amended: migrateChangelog performs all the writes to the destination (the re-keyed
  leaf rows and the copy of leaf_orphan) inside one transaction, and no failure ends the
  process. When a step other than the fetch of a source row fails, an error is returned
  to the caller. migrateChangelog never rolls the transaction back: when the failing
  step is the commit or a step before it, the transaction is never committed and nothing
  is committed to the destination; when it is the DETACH after the commit, the error is
  returned with all the writes committed. A transaction that is not committed leaves
  nothing in the destination and the call has returned an error. The commit publishes
  all the writes of the transaction at once; the destination is committed only when the
  source has both tables, and then, when no fetch of a source row fails, the committed
  table leaf holds, row for row, the re-keyed copy of the source leaf rows and the
  committed table leaf_orphan holds the rows of the source verbatim. The source is
  detached only after a successful commit, and a call that returns success has committed
  and detached.
\<close>

theorem migrateChangelog_commits_all_or_nothing:
  "(\<forall>s. fst (migrateChangelog fails digest h src) \<noteq> Process_Fatal s)
   \<and> fst (migrateChangelog fails digest h src) \<noteq> Does_Not_Return
   \<and> cl_tx (snd (migrateChangelog fails digest h src)) \<noteq> Tx_Rolled_Back
   \<and> (\<forall>op \<in> set (cl_ops (snd (migrateChangelog fails digest h src))).
        fails op \<and> (\<forall>k. op \<noteq> Cl_Next k) \<longrightarrow>
          (\<exists>e. fst (migrateChangelog fails digest h src) = Returned_Error e)
          \<and> (op \<noteq> Cl_Detach \<longrightarrow>
                cl_tx (snd (migrateChangelog fails digest h src)) \<noteq> Tx_Committed
                \<and> cl_committed (snd (migrateChangelog fails digest h src)) = no_tables)
          \<and> (op = Cl_Detach \<longrightarrow>
                cl_tx (snd (migrateChangelog fails digest h src)) = Tx_Committed
                \<and> cl_committed (snd (migrateChangelog fails digest h src))
                    = cl_pending (snd (migrateChangelog fails digest h src))))
   \<and> (cl_tx (snd (migrateChangelog fails digest h src)) \<noteq> Tx_Committed \<longrightarrow>
        cl_committed (snd (migrateChangelog fails digest h src)) = no_tables
        \<and> (\<exists>e. fst (migrateChangelog fails digest h src) = Returned_Error e))
   \<and> (cl_tx (snd (migrateChangelog fails digest h src)) = Tx_Committed \<longrightarrow>
        cl_committed (snd (migrateChangelog fails digest h src))
          = cl_pending (snd (migrateChangelog fails digest h src))
        \<and> src_leaf src \<noteq> None \<and> src_leaf_orphan src \<noteq> None)
   \<and> (cl_tx (snd (migrateChangelog fails digest h src)) = Tx_Committed
        \<and> (\<forall>k. \<not> fails (Cl_Next k)) \<and> src_leaf src = Some rows \<longrightarrow>
        (\<exists>t. tbl_leaf (cl_committed (snd (migrateChangelog fails digest h src))) = Some t
           \<and> list_all2 (\<lambda>r x. leaf_version r = Some (new_leaf_version x)
              \<and> leaf_sequence r = Some (new_leaf_sequence x)
              \<and> new_leaf_key_hash x = digest (leaf_key r)
              \<and> new_leaf_bytes x = leaf_bytes r
              \<and> new_leaf_orphaned x = None) rows t)
        \<and> tbl_leaf_orphan (cl_committed (snd (migrateChangelog fails digest h src)))
            = src_leaf_orphan src)
   \<and> (Cl_Detach \<in> set (cl_ops (snd (migrateChangelog fails digest h src))) \<longrightarrow>
        cl_tx (snd (migrateChangelog fails digest h src)) = Tx_Committed)
   \<and> (fst (migrateChangelog fails digest h src) = Success \<longrightarrow>
        cl_tx (snd (migrateChangelog fails digest h src)) = Tx_Committed
        \<and> \<not> cl_attached (snd (migrateChangelog fails digest h src)))"
proof -
  obtain out d' where r: "migrateChangelog fails digest h src = (out, d')"
    by (cases "migrateChangelog fails digest h src")
  note st = migrateChangelog_state [OF r]
  have full: "(\<exists>t. tbl_leaf (cl_committed d') = Some t
           \<and> list_all2 (\<lambda>r x. leaf_version r = Some (new_leaf_version x)
              \<and> leaf_sequence r = Some (new_leaf_sequence x)
              \<and> new_leaf_key_hash x = digest (leaf_key r)
              \<and> new_leaf_bytes x = leaf_bytes r
              \<and> new_leaf_orphaned x = None) rows t)
        \<and> tbl_leaf_orphan (cl_committed d') = src_leaf_orphan src"
    if "cl_tx d' = Tx_Committed" "\<forall>k. \<not> fails (Cl_Next k)" "src_leaf src = Some rows"
    using migrateChangelog_committed [OF r that(1) _ that(3)] that(2) by blast
  have srcs: "src_leaf src \<noteq> None \<and> src_leaf_orphan src \<noteq> None"
    if "cl_tx d' = Tx_Committed"
    by (rule migrateChangelog_committed_src [OF r that])
  have failing: "(\<exists>e. out = Returned_Error e)
      \<and> (op \<noteq> Cl_Detach \<longrightarrow> cl_tx d' \<noteq> Tx_Committed \<and> cl_committed d' = no_tables)
      \<and> (op = Cl_Detach \<longrightarrow> cl_tx d' = Tx_Committed \<and> cl_committed d' = cl_pending d')"
    if "op \<in> set (cl_ops d')" "fails op" "\<forall>k. op \<noteq> Cl_Next k" for op
  proof -
    have "out \<noteq> Success" using st that by blast
    then have e: "\<exists>e. out = Returned_Error e" using st by blast
    have n: "cl_tx d' \<noteq> Tx_Committed" if "op \<noteq> Cl_Detach"
      using st \<open>op \<in> set (cl_ops d')\<close> \<open>fails op\<close> \<open>\<forall>k. op \<noteq> Cl_Next k\<close> that by blast
    have c: "cl_tx d' = Tx_Committed" if "op = Cl_Detach"
      using st \<open>op \<in> set (cl_ops d')\<close> that by blast
    show ?thesis using e n c st by blast
  qed
  have c1: "\<forall>s. out \<noteq> Process_Fatal s" and c2: "out \<noteq> Does_Not_Return"
    and c3: "cl_tx d' \<noteq> Tx_Rolled_Back"
    using st by auto
  have c4: "\<forall>op \<in> set (cl_ops d'). fails op \<and> (\<forall>k. op \<noteq> Cl_Next k) \<longrightarrow>
      (\<exists>e. out = Returned_Error e)
      \<and> (op \<noteq> Cl_Detach \<longrightarrow> cl_tx d' \<noteq> Tx_Committed \<and> cl_committed d' = no_tables)
      \<and> (op = Cl_Detach \<longrightarrow> cl_tx d' = Tx_Committed \<and> cl_committed d' = cl_pending d')"
    using failing by blast
  have c5: "cl_tx d' \<noteq> Tx_Committed \<longrightarrow>
      cl_committed d' = no_tables \<and> (\<exists>e. out = Returned_Error e)"
    using st by blast
  have c6: "cl_tx d' = Tx_Committed \<longrightarrow>
      cl_committed d' = cl_pending d' \<and> src_leaf src \<noteq> None \<and> src_leaf_orphan src \<noteq> None"
    using st srcs by blast
  have c7: "cl_tx d' = Tx_Committed \<and> (\<forall>k. \<not> fails (Cl_Next k)) \<and> src_leaf src = Some rows
      \<longrightarrow> (\<exists>t. tbl_leaf (cl_committed d') = Some t
           \<and> list_all2 (\<lambda>r x. leaf_version r = Some (new_leaf_version x)
              \<and> leaf_sequence r = Some (new_leaf_sequence x)
              \<and> new_leaf_key_hash x = digest (leaf_key r)
              \<and> new_leaf_bytes x = leaf_bytes r
              \<and> new_leaf_orphaned x = None) rows t)
        \<and> tbl_leaf_orphan (cl_committed d') = src_leaf_orphan src"
    using full by blast
  have c8: "Cl_Detach \<in> set (cl_ops d') \<longrightarrow> cl_tx d' = Tx_Committed"
    using st by blast
  have c9: "out = Success \<longrightarrow> cl_tx d' = Tx_Committed \<and> \<not> cl_attached d'"
    using st by blast
  show ?thesis
    unfolding r fst_conv snd_conv
    by (intro conjI) (rule c1 c2 c3 c4 c5 c6 c7 c8 c9)+
qed

theorem migrateChangelog_commits_all_or_nothing_witness:
  "(\<exists>e. fst (migrateChangelog (fails_only Cl_Copy_Leaf_Orphan) rev []
      \<lparr>src_leaf = Some [\<lparr>leaf_version = Some 1, leaf_sequence = Some 1, leaf_key = [1, 2],
           leaf_bytes = [7], leaf_orphaned = Some False\<rparr>,
         \<lparr>leaf_version = Some 2, leaf_sequence = Some 1, leaf_key = [3],
           leaf_bytes = [8], leaf_orphaned = Some True\<rparr>],
       src_leaf_orphan = Some [\<lparr>orphan_version = Some 1, orphan_sequence = Some 1, orphan_at = Some 2\<rparr>]\<rparr>) = Returned_Error e)
   \<and> cl_tx (snd (migrateChangelog (fails_only Cl_Copy_Leaf_Orphan) rev []
      \<lparr>src_leaf = Some [\<lparr>leaf_version = Some 1, leaf_sequence = Some 1, leaf_key = [1, 2],
           leaf_bytes = [7], leaf_orphaned = Some False\<rparr>,
         \<lparr>leaf_version = Some 2, leaf_sequence = Some 1, leaf_key = [3],
           leaf_bytes = [8], leaf_orphaned = Some True\<rparr>],
       src_leaf_orphan = Some [\<lparr>orphan_version = Some 1, orphan_sequence = Some 1, orphan_at = Some 2\<rparr>]\<rparr>)) \<noteq> Tx_Committed
   \<and> cl_committed (snd (migrateChangelog (fails_only Cl_Copy_Leaf_Orphan) rev []
      \<lparr>src_leaf = Some [\<lparr>leaf_version = Some 1, leaf_sequence = Some 1, leaf_key = [1, 2],
           leaf_bytes = [7], leaf_orphaned = Some False\<rparr>,
         \<lparr>leaf_version = Some 2, leaf_sequence = Some 1, leaf_key = [3],
           leaf_bytes = [8], leaf_orphaned = Some True\<rparr>],
       src_leaf_orphan = Some [\<lparr>orphan_version = Some 1, orphan_sequence = Some 1, orphan_at = Some 2\<rparr>]\<rparr>)) = no_tables
   \<and> (\<exists>e. fst (migrateChangelog (fails_only Cl_Detach) rev []
      \<lparr>src_leaf = Some [\<lparr>leaf_version = Some 1, leaf_sequence = Some 1, leaf_key = [1, 2],
           leaf_bytes = [7], leaf_orphaned = Some False\<rparr>,
         \<lparr>leaf_version = Some 2, leaf_sequence = Some 1, leaf_key = [3],
           leaf_bytes = [8], leaf_orphaned = Some True\<rparr>],
       src_leaf_orphan = Some [\<lparr>orphan_version = Some 1, orphan_sequence = Some 1, orphan_at = Some 2\<rparr>]\<rparr>) = Returned_Error e)
   \<and> cl_committed (snd (migrateChangelog (fails_only Cl_Detach) rev []
      \<lparr>src_leaf = Some [\<lparr>leaf_version = Some 1, leaf_sequence = Some 1, leaf_key = [1, 2],
           leaf_bytes = [7], leaf_orphaned = Some False\<rparr>,
         \<lparr>leaf_version = Some 2, leaf_sequence = Some 1, leaf_key = [3],
           leaf_bytes = [8], leaf_orphaned = Some True\<rparr>],
       src_leaf_orphan = Some [\<lparr>orphan_version = Some 1, orphan_sequence = Some 1, orphan_at = Some 2\<rparr>]\<rparr>))
       = cl_pending (snd (migrateChangelog (fails_only Cl_Detach) rev []
      \<lparr>src_leaf = Some [\<lparr>leaf_version = Some 1, leaf_sequence = Some 1, leaf_key = [1, 2],
           leaf_bytes = [7], leaf_orphaned = Some False\<rparr>,
         \<lparr>leaf_version = Some 2, leaf_sequence = Some 1, leaf_key = [3],
           leaf_bytes = [8], leaf_orphaned = Some True\<rparr>],
       src_leaf_orphan = Some [\<lparr>orphan_version = Some 1, orphan_sequence = Some 1, orphan_at = Some 2\<rparr>]\<rparr>))
   \<and> (\<exists>t. tbl_leaf (cl_committed (snd (migrateChangelog no_failure rev []
      \<lparr>src_leaf = Some [\<lparr>leaf_version = Some 1, leaf_sequence = Some 1, leaf_key = [1, 2],
           leaf_bytes = [7], leaf_orphaned = Some False\<rparr>,
         \<lparr>leaf_version = Some 2, leaf_sequence = Some 1, leaf_key = [3],
           leaf_bytes = [8], leaf_orphaned = Some True\<rparr>],
       src_leaf_orphan = Some [\<lparr>orphan_version = Some 1, orphan_sequence = Some 1, orphan_at = Some 2\<rparr>]\<rparr>))) = Some t
         \<and> map new_leaf_key_hash t = [[2, 1], [3]] \<and> map new_leaf_bytes t = [[7], [8]]
         \<and> map new_leaf_version t = [1, 2] \<and> map new_leaf_sequence t = [1, 1]
         \<and> map new_leaf_orphaned t = [None, None])
   \<and> tbl_leaf_orphan (cl_committed (snd (migrateChangelog no_failure rev []
      \<lparr>src_leaf = Some [\<lparr>leaf_version = Some 1, leaf_sequence = Some 1, leaf_key = [1, 2],
           leaf_bytes = [7], leaf_orphaned = Some False\<rparr>,
         \<lparr>leaf_version = Some 2, leaf_sequence = Some 1, leaf_key = [3],
           leaf_bytes = [8], leaf_orphaned = Some True\<rparr>],
       src_leaf_orphan = Some [\<lparr>orphan_version = Some 1, orphan_sequence = Some 1, orphan_at = Some 2\<rparr>]\<rparr>)))
       = Some [\<lparr>orphan_version = Some 1, orphan_sequence = Some 1, orphan_at = Some 2\<rparr>]"
proof -
  let ?r1 = "\<lparr>leaf_version = Some 1, leaf_sequence = Some 1, leaf_key = [1, 2],
           leaf_bytes = [7], leaf_orphaned = Some False\<rparr>"
  let ?r2 = "\<lparr>leaf_version = Some 2, leaf_sequence = Some 1, leaf_key = [3],
           leaf_bytes = [8], leaf_orphaned = Some True\<rparr>"
  let ?src = "\<lparr>src_leaf = Some [?r1, ?r2],
      src_leaf_orphan = Some [\<lparr>orphan_version = Some 1, orphan_sequence = Some 1, orphan_at = Some 2\<rparr>]\<rparr>"
  let ?A = "migrateChangelog (fails_only Cl_Copy_Leaf_Orphan) rev [] ?src"
  let ?B = "migrateChangelog (fails_only Cl_Detach) rev [] ?src"
  let ?C = "migrateChangelog no_failure rev [] ?src"
  have a: "Cl_Copy_Leaf_Orphan \<in> set (cl_ops (snd ?A))" by code_simp
  have fa: "fails_only Cl_Copy_Leaf_Orphan Cl_Copy_Leaf_Orphan" by (simp add: fails_only_def)
  have A: "(\<exists>e. fst ?A = Returned_Error e) \<and> cl_tx (snd ?A) \<noteq> Tx_Committed
      \<and> cl_committed (snd ?A) = no_tables"
    using migrateChangelog_commits_all_or_nothing
      [of "fails_only Cl_Copy_Leaf_Orphan" rev "[]" ?src] a fa
    by blast
  have b: "Cl_Detach \<in> set (cl_ops (snd ?B))" by code_simp
  have fb: "fails_only Cl_Detach Cl_Detach" by (simp add: fails_only_def)
  have B: "(\<exists>e. fst ?B = Returned_Error e) \<and> cl_committed (snd ?B) = cl_pending (snd ?B)"
    using migrateChangelog_commits_all_or_nothing [of "fails_only Cl_Detach" rev "[]" ?src] b fb
    by blast
  have c: "cl_tx (snd ?C) = Tx_Committed" by code_simp
  have h2: "src_leaf ?src = Some [?r1, ?r2]" by simp
  have h3: "\<forall>k. \<not> no_failure (Cl_Next k)" by (simp add: no_failure_def)
  from migrateChangelog_commits_all_or_nothing [of no_failure rev "[]" ?src "[?r1, ?r2]"]
    c h2 h3
  obtain t where t: "tbl_leaf (cl_committed (snd ?C)) = Some t"
    "list_all2 (\<lambda>r x. leaf_version r = Some (new_leaf_version x)
        \<and> leaf_sequence r = Some (new_leaf_sequence x)
        \<and> new_leaf_key_hash x = rev (leaf_key r)
        \<and> new_leaf_bytes x = leaf_bytes r
        \<and> new_leaf_orphaned x = None) [?r1, ?r2] t"
    and o: "tbl_leaf_orphan (cl_committed (snd ?C)) = src_leaf_orphan ?src"
    by blast
  from t(2) obtain x y where "t = [x, y]"
    "new_leaf_version x = 1" "new_leaf_sequence x = 1" "new_leaf_key_hash x = [2, 1]"
    "new_leaf_bytes x = [7]" "new_leaf_orphaned x = None"
    "new_leaf_version y = 2" "new_leaf_sequence y = 1" "new_leaf_key_hash y = [3]"
    "new_leaf_bytes y = [8]" "new_leaf_orphaned y = None"
    by (auto simp: list_all2_Cons1)
  then have C: "\<exists>t. tbl_leaf (cl_committed (snd ?C)) = Some t
         \<and> map new_leaf_key_hash t = [[2, 1], [3]] \<and> map new_leaf_bytes t = [[7], [8]]
         \<and> map new_leaf_version t = [1, 2] \<and> map new_leaf_sequence t = [1, 1]
         \<and> map new_leaf_orphaned t = [None, None]"
    using t(1) by simp
  show ?thesis using A B C o by simp
qed

text \<open>
  When migrateChangelog returns success and no fetch of a source row failed, the
  committed table leaf holds, row for row and in the order of the source, the version,
  the sequence and the payload of each source leaf row under the hash of its key; the
  hash is the digest of the key alone, whatever the state of the pooled hasher; the
  column orphaned of a target row is NULL. Whatever \<open>digest\<close> is, the call returns
  success or an error: keys with equal hashes do not end the process.
\<close>

lemma migrateChangelog_rekeys_when_all_fetched:
  "(migrateChangelog fails digest h src = (Success, dst) \<and> src_leaf src = Some rows
      \<and> (\<forall>k. \<not> fails (Cl_Next k)) \<longrightarrow>
      (\<exists>t. tbl_leaf (cl_committed dst) = Some t
         \<and> list_all2 (\<lambda>r x. leaf_version r = Some (new_leaf_version x)
              \<and> leaf_sequence r = Some (new_leaf_sequence x)
              \<and> new_leaf_key_hash x = digest (leaf_key r)
              \<and> new_leaf_bytes x = leaf_bytes r
              \<and> new_leaf_orphaned x = None) rows t))
   \<and> (\<forall>s. fst (migrateChangelog fails digest h src) \<noteq> Process_Fatal s)
   \<and> fst (migrateChangelog fails digest h src) \<noteq> Does_Not_Return"
proof (intro conjI impI)
  assume a: "migrateChangelog fails digest h src = (Success, dst) \<and> src_leaf src = Some rows
      \<and> (\<forall>k. \<not> fails (Cl_Next k))"
  then have r: "migrateChangelog fails digest h src = (Success, dst)" by simp
  have "cl_tx dst = Tx_Committed" using migrateChangelog_state [OF r] by simp
  from migrateChangelog_committed [OF r this] a
  show "\<exists>t. tbl_leaf (cl_committed dst) = Some t
         \<and> list_all2 (\<lambda>r x. leaf_version r = Some (new_leaf_version x)
              \<and> leaf_sequence r = Some (new_leaf_sequence x)
              \<and> new_leaf_key_hash x = digest (leaf_key r)
              \<and> new_leaf_bytes x = leaf_bytes r
              \<and> new_leaf_orphaned x = None) rows t"
    by blast
next
  obtain out d' where r: "migrateChangelog fails digest h src = (out, d')"
    by (cases "migrateChangelog fails digest h src")
  from migrateChangelog_state [OF r]
  show "\<forall>s. fst (migrateChangelog fails digest h src) \<noteq> Process_Fatal s"
    and "fst (migrateChangelog fails digest h src) \<noteq> Does_Not_Return"
    unfolding r by auto
qed

text \<open>
  C6, at a source whose second leaf row cannot be fetched: \<open>rows.Next()\<close> returns false
  there as it does at the end of the rows, and the code never reads \<open>rows.Err()\<close>. The
  loop ends, the transaction is committed with the first row only and the call returns
  success: the second source leaf row has no row in the target table leaf.
\<close>

theorem migrateChangelog_failed_fetch_commits_truncated_leaf:
  "migrateChangelog (fails_only (Cl_Next 1)) rev []
      \<lparr>src_leaf = Some [\<lparr>leaf_version = Some 1, leaf_sequence = Some 1, leaf_key = [1, 2],
           leaf_bytes = [7], leaf_orphaned = Some False\<rparr>,
         \<lparr>leaf_version = Some 2, leaf_sequence = Some 1, leaf_key = [3],
           leaf_bytes = [8], leaf_orphaned = Some True\<rparr>],
       src_leaf_orphan = Some [\<lparr>orphan_version = Some 1, orphan_sequence = Some 1, orphan_at = Some 2\<rparr>]\<rparr>
   = (Success,
      \<lparr>cl_committed = \<lparr>tbl_leaf = Some [\<lparr>new_leaf_version = 1, new_leaf_sequence = 1, new_leaf_key_hash = [2, 1],
         new_leaf_bytes = [7], new_leaf_orphaned = None\<rparr>],
           tbl_leaf_idx = True,
           tbl_leaf_orphan = Some [\<lparr>orphan_version = Some 1, orphan_sequence = Some 1, orphan_at = Some 2\<rparr>]\<rparr>,
       cl_pending = \<lparr>tbl_leaf = Some [\<lparr>new_leaf_version = 1, new_leaf_sequence = 1, new_leaf_key_hash = [2, 1],
         new_leaf_bytes = [7], new_leaf_orphaned = None\<rparr>],
           tbl_leaf_idx = True,
           tbl_leaf_orphan = Some [\<lparr>orphan_version = Some 1, orphan_sequence = Some 1, orphan_at = Some 2\<rparr>]\<rparr>,
       cl_tx = Tx_Committed, cl_attached = False,
       cl_ops = [Cl_MkdirAll, Cl_Begin, Cl_Create_Leaf, Cl_Create_Leaf_Idx,
         Cl_Create_Leaf_Orphan, Cl_Query, Cl_Prepare, Cl_Next 0, Cl_Scan 0, Cl_Insert 0,
         Cl_Next 1, Cl_Attach, Cl_Copy_Leaf_Orphan, Cl_Commit, Cl_Detach]\<rparr>)"
  by code_simp

section \<open>The migration of a store\<close>

text \<open>
  C9, as the code has it: the changelog file is looked for only after the tree
  migration. A store whose tree file is there but has no table tree_1, and whose
  changelog file is missing, fails with the error of the tree migration, not with a
  "not found" error.
\<close>

theorem migrateStore_missing_changelog_after_failed_tree:
  "changelog_files
      \<lparr>tree_files = [''old/bank/tree.sqlite'' \<mapsto>
           \<lparr>src_tree_1 = None, src_root = Some [], src_orphan = Some []\<rparr>],
       changelog_files = Map.empty\<rparr> ''old/bank/changelog.sqlite'' = None
   \<and> store_outcome (migrateStore no_failure no_failure rev []
      \<lparr>tree_files = [''old/bank/tree.sqlite'' \<mapsto>
           \<lparr>src_tree_1 = None, src_root = Some [], src_orphan = Some []\<rparr>],
       changelog_files = Map.empty\<rparr> ''bank'' ''old'' ''new'')
     = Returned_Error ''failed to count rows in tree_1''"
proof -
  have p: "Join [''old'', ''bank'', ''tree.sqlite''] = ''old/bank/tree.sqlite''"
    "Join [''old'', ''bank'', ''changelog.sqlite''] = ''old/bank/changelog.sqlite''"
    by code_simp+
  show ?thesis
    by (simp add: migrateStore_def p migrateTree_def exec_def new_tree_db_def count_rows_def
        no_failure_def)
qed

text \<open>
  C9, amended: the path of a file of the store is \<open>filepath.Join\<close> of the old base
  directory, the name of the store and the name of the file. When the tree file of the
  store is missing, migrateStore returns the error "tree.sqlite not found: " followed by
  the path of the file, and starts no migration;
  when it is there, the tree migration is run, and a result other than success is the
  result of migrateStore, with no changelog migration started; when the tree migration
  returned success and the changelog file is missing, migrateStore returns the error
  "changelog.sqlite not found: " followed by the path of the file; when both files are
  there and the tree migration returned success, the changelog migration is run after it
  and its result is the result. So the changelog migration is started only after the tree
  migration of the store returned success.
\<close>

theorem migrateStore_sequence:
  "(tree_files fs (Join [baseOld, store, ''tree.sqlite'']) = None \<longrightarrow>
      migrateStore tfails cfails digest h fs store baseOld baseNew
        = \<lparr>store_outcome = Returned_Error
             (''tree.sqlite not found: '' @ Join [baseOld, store, ''tree.sqlite'']),
           tree_run = None, changelog_run = None\<rparr>)
   \<and> (\<forall>tree. tree_files fs (Join [baseOld, store, ''tree.sqlite'']) = Some tree \<longrightarrow>
        tree_run (migrateStore tfails cfails digest h fs store baseOld baseNew)
          = Some (migrateTree tfails tree)
        \<and> (fst (migrateTree tfails tree) \<noteq> Success \<longrightarrow>
             store_outcome (migrateStore tfails cfails digest h fs store baseOld baseNew)
               = fst (migrateTree tfails tree)
             \<and> changelog_run (migrateStore tfails cfails digest h fs store baseOld baseNew)
               = None)
        \<and> (fst (migrateTree tfails tree) = Success
             \<and> changelog_files fs (Join [baseOld, store, ''changelog.sqlite'']) = None \<longrightarrow>
             store_outcome (migrateStore tfails cfails digest h fs store baseOld baseNew)
               = Returned_Error (''changelog.sqlite not found: ''
                   @ Join [baseOld, store, ''changelog.sqlite''])
             \<and> changelog_run (migrateStore tfails cfails digest h fs store baseOld baseNew)
               = None)
        \<and> (\<forall>changelog. fst (migrateTree tfails tree) = Success
             \<and> changelog_files fs (Join [baseOld, store, ''changelog.sqlite''])
                 = Some changelog \<longrightarrow>
             changelog_run (migrateStore tfails cfails digest h fs store baseOld baseNew)
               = Some (migrateChangelog cfails digest h changelog)
             \<and> store_outcome (migrateStore tfails cfails digest h fs store baseOld baseNew)
               = fst (migrateChangelog cfails digest h changelog)))
   \<and> (changelog_run (migrateStore tfails cfails digest h fs store baseOld baseNew) \<noteq> None \<longrightarrow>
        (\<exists>t. tree_run (migrateStore tfails cfails digest h fs store baseOld baseNew) = Some t
           \<and> fst t = Success))"
  by (auto simp: migrateStore_def Let_def split: option.splits) (metis prod.collapse)

theorem migrateStore_sequence_witness:
  "migrateStore no_failure no_failure rev []
      \<lparr>tree_files = Map.empty, changelog_files = Map.empty\<rparr> ''bank'' ''old/'' ''new''
     = \<lparr>store_outcome = Returned_Error ''tree.sqlite not found: old/bank/tree.sqlite'',
        tree_run = None, changelog_run = None\<rparr>
   \<and> store_outcome (migrateStore no_failure no_failure rev []
      \<lparr>tree_files = [''old/bank/tree.sqlite'' \<mapsto>
           \<lparr>src_tree_1 = Some [], src_root = Some [], src_orphan = Some []\<rparr>],
       changelog_files = Map.empty\<rparr> ''bank'' ''old/'' ''new'')
     = Returned_Error ''changelog.sqlite not found: old/bank/changelog.sqlite''"
proof -
  let ?t = "\<lparr>src_tree_1 = Some [], src_root = Some [], src_orphan = Some []\<rparr>"
  let ?fs = "\<lparr>tree_files = [''old/bank/tree.sqlite'' \<mapsto> ?t],
      changelog_files = Map.empty\<rparr>"
  have s: "fst (migrateTree no_failure ?t) = Success" by code_simp
  have p: "Join [''old/'', ''bank'', ''tree.sqlite''] = ''old/bank/tree.sqlite''"
    "Join [''old/'', ''bank'', ''changelog.sqlite''] = ''old/bank/changelog.sqlite''"
    by code_simp+
  have a: "tree_files ?fs (Join [''old/'', ''bank'', ''tree.sqlite'']) = Some ?t"
    by (simp add: p)
  have b: "changelog_files ?fs (Join [''old/'', ''bank'', ''changelog.sqlite'']) = None"
    by (simp add: p)
  have c: "tree_files \<lparr>tree_files = Map.empty, changelog_files = Map.empty\<rparr>
      (Join [''old/'', ''bank'', ''tree.sqlite'']) = None"
    by simp
  show ?thesis
    using migrateStore_sequence [of "\<lparr>tree_files = Map.empty, changelog_files = Map.empty\<rparr>"
        "''old/''" "''bank''" no_failure no_failure rev "[]" "''new''"] c
      migrateStore_sequence [of ?fs "''old/''" "''bank''" no_failure no_failure rev "[]" "''new''"]
      a b s
    by (simp add: p)
qed

end
